theory Spec2Isabelle
  imports Main "HOL-Library.Word"
begin

unbundle bit_operations_syntax

section \<open>Data model (types.ts)\<close>

text \<open>
  Player ids are strings. The card type of \<^verbatim>\<open>types.ts\<close> is a union of two
  shapes: a regular or non-colour-switching special card, which carries a colour, and a
  colour-switching special card, which carries none. The datatype below has one
  constructor per shape, so that \<^verbatim>\<open>card.type\<close> and \<^verbatim>\<open>card.color\<close> become the
  functions \<open>card_type\<close> and \<open>card_color\<close>.
\<close>

type_synonym playerId = string

datatype cardColor = Red | Blue | Green | Yellow

datatype colouredType =
    TZero | TOne | TTwo | TThree | TFour | TFive | TSix | TSeven | TEight | TNine
  | PlusTwo | Reverse | Skip

datatype colorSwitchingScs = PlusFour | ColorChooser

datatype allCards = Coloured colouredType | Switching colorSwitchingScs

datatype card = ColouredCard colouredType cardColor | SwitchingCard colorSwitchingScs

fun card_type :: "card \<Rightarrow> allCards" where
  "card_type (ColouredCard t c) = Coloured t"
| "card_type (SwitchingCard t) = Switching t"

fun card_color :: "card \<Rightarrow> cardColor option" where
  "card_color (ColouredCard t c) = Some c"
| "card_color (SwitchingCard t) = None"

text \<open>\<^verbatim>\<open>includes(colorSwitchingScs.options, t)\<close>\<close>

fun isColorSwitching :: "allCards \<Rightarrow> bool" where
  "isColorSwitching (Switching t) = True"
| "isColorSwitching (Coloured t) = False"

datatype gameEvent =
    CardPlayed playerId card
  | BluffCalled playerId
  | ChooseColor playerId cardColor
  | Draw playerId
  | Pass playerId

fun event_by :: "gameEvent \<Rightarrow> playerId" where
  "event_by (CardPlayed p c) = p"
| "event_by (BluffCalled p) = p"
| "event_by (ChooseColor p c) = p"
| "event_by (Draw p) = p"
| "event_by (Pass p) = p"

datatype info =
    BluffCalledInfo playerId
  | BluffCallSucceeded playerId playerId
  | BluffCallFailed playerId playerId
  | SeedChanged int
  | PlayerWon playerId
  | GameEnded playerId
  | PlayerJoined playerId
  | PlayerLeft playerId
  | PileToDeck

datatype event = GameEv gameEvent | GameInfo info

datatype turnStep = Plus1 | Minus1

fun stepVal :: "turnStep \<Rightarrow> int" where
  "stepVal Plus1 = 1"
| "stepVal Minus1 = - 1"

fun negateStep :: "turnStep \<Rightarrow> turnStep" where
  "negateStep Plus1 = Minus1"
| "negateStep Minus1 = Plus1"

datatype cardOrColor = IsCard card | IsColor cardColor

text \<open>
  The game state. The fields of the nested \<^verbatim>\<open>cache\<close> object of the source are kept
  under their own names in the same record. JavaScript numbers are modelled as integers
  (\<open>seed\<close> grows by a constant at every draw of the generator and stays far below
  \<open>2^53\<close>); \<open>stackedPlusTwos\<close> is a counter that only ever is incremented or reset.
  \<open>hands\<close> is the JavaScript object of the source, as the list of its entries in
  \<^verbatim>\<open>Object.entries\<close> order.
\<close>

record gameState =
  shorthandMode :: bool
  events :: "event list"
  index :: int
  players :: "playerId list"
  initialSeed :: int
  stackPlusTwos :: bool
  hands :: "(playerId \<times> card list) list"
  deck :: "card list"
  seed :: int
  ended :: bool
  stackedPlusTwos :: nat
  turnStep :: turnStep
  pile :: "card list"
  last3CardPlayOrColorChanges :: "cardOrColor list"

section \<open>Errors (errors.ts)\<close>

text \<open>
  One constructor per \<^verbatim>\<open>UECode\<close>, with the data the error carries. The last five
  are the other things the engine throws: a \<^verbatim>\<open>TypeError\<close> of the runtime (a property
  read on \<^verbatim>\<open>undefined\<close>), the string \<^verbatim>\<open>"unreachable"\<close>, the two plain errors of
  \<^verbatim>\<open>jumpToEventIndex\<close>, and a failed schema validation.
\<close>

datatype error =
    E_GameEnded playerId
  | E_MustPickColor gameEvent
  | E_MustNotPlayLastCardColorChanging gameEvent
  | E_MustDrawOrPlusTwo gameEvent
  | E_MustDrawOrCallBluff gameEvent
  | E_MustPlayExpectedCard "allCards option" "cardColor option" card
  | E_MustNotDrawTwice
  | E_MustNotPassWithoutDraw
  | E_CannotCallBluff
  | E_CannotSwitchColors
  | E_TooFewPlayers nat
  | E_TooManyPlayers nat
  | E_InvalidId playerId
  | E_NotPlayersTurn playerId
  | E_PlayerNotInGame playerId
  | E_PlayerDoesntHaveCard playerId card
  | E_DeckPileExhausted
  | E_TypeError
  | E_Unreachable
  | E_ShorthandJump
  | E_InvalidEventIndex
  | E_SchemaMismatch

section \<open>Constants (utils.ts)\<close>

definition ENGINE_ID :: playerId where
  "ENGINE_ID = ''ENGINE''"

definition MAX_SHORTHAND_EVENTS :: nat where
  "MAX_SHORTHAND_EVENTS = 5"

definition MIN_PLAYERS :: nat where
  "MIN_PLAYERS = 2"

definition MAX_PLAYERS :: nat where
  "MAX_PLAYERS = 10"

definition cardColor_options :: "cardColor list" where
  "cardColor_options = [Red, Blue, Green, Yellow]"

definition twoCardTypes :: "colouredType list" where
  "twoCardTypes =
     [TOne, TTwo, TThree, TFour, TFive, TSix, TSeven, TEight, TNine, PlusTwo, Reverse, Skip]"

definition DECK :: "card list" where
  "DECK =
     map (\<lambda>color. ColouredCard TZero color) cardColor_options
     @ concat (map (\<lambda>color. concat (map (\<lambda>t. replicate 2 (ColouredCard t color)) twoCardTypes))
         cardColor_options)
     @ concat (map (\<lambda>t. replicate 4 (SwitchingCard t)) [PlusFour, ColorChooser])"

text \<open>
  \<^verbatim>\<open>cyrb128\<close>: a hash of the seed string into an unsigned 32-bit number. All of its
  arithmetic is \<^verbatim>\<open>Math.imul\<close>, \<^verbatim>\<open>^\<close> and \<^verbatim>\<open>>>>\<close>, that is arithmetic on 32-bit
  words. Each round uses the \<open>h1\<close> that the same round has just computed. A seed
  string is a list of 8-bit characters here, so \<^verbatim>\<open>charCodeAt\<close> is modelled for code
  units below 256 only.
\<close>

fun cyrb128_loop :: "string \<Rightarrow> 32 word \<times> 32 word \<times> 32 word \<times> 32 word
    \<Rightarrow> 32 word \<times> 32 word \<times> 32 word \<times> 32 word" where
  "cyrb128_loop [] hs = hs"
| "cyrb128_loop (c # cs) (h1, h2, h3, h4) =
     (let k = (of_char c :: 32 word);
          h1' = h2 XOR ((h1 XOR k) * 597399067);
          h2' = h3 XOR ((h2 XOR k) * 2869860233);
          h3' = h4 XOR ((h3 XOR k) * 951274213);
          h4' = h1' XOR ((h4 XOR k) * 2716044179)
      in cyrb128_loop cs (h1', h2', h3', h4'))"

definition cyrb128 :: "string \<Rightarrow> int" where
  "cyrb128 str =
     (case cyrb128_loop str (1779033703, 3144134277, 1013904242, 2773480762) of
        (h1, h2, h3, h4) \<Rightarrow>
          (let h1' = (h3 XOR drop_bit 18 h1) * 597399067;
               h2' = (h4 XOR drop_bit 22 h2) * 2869860233;
               h3' = (h1' XOR drop_bit 17 h3) * 951274213;
               h4' = (h2' XOR drop_bit 19 h4) * 2716044179
           in uint (h1' XOR h2' XOR h3' XOR h4')))"

section \<open>The engine (game.ts)\<close>

subsection \<open>Random numbers and shuffling\<close>

text \<open>
  The numbers of the source are doubles. The engine computes with integers only (the
  seed is one whenever the seed given to the constructor is), and a sum of two integers
  is exact up to a magnitude of \<open>2^53\<close>; beyond it the sum is rounded to the nearest
  number that 53 bits can hold, a tie going to the even one. \<open>roundToDouble\<close> is that
  rounding on the integers (which stay far below \<open>2^1024\<close>, where a double overflows).
\<close>

function bitLength :: "nat \<Rightarrow> nat" where
  "bitLength n = (if n = 0 then 0 else Suc (bitLength (n div 2)))"
  by pat_completeness auto
termination
  by (relation "measure (\<lambda>n. n)") auto

definition roundToDouble :: "int \<Rightarrow> int" where
  "roundToDouble x =
     (let a = nat \<bar>x\<bar> in
      if a < 2 ^ 53 then x
      else
        (let k = bitLength a - 53;
             q = a div 2 ^ k;
             r = a mod 2 ^ k;
             half = 2 ^ (k - 1);
             q' = (if half < r \<or> (r = half \<and> odd q) then q + 1 else q)
         in sgn x * int (q' * 2 ^ k)))"

text \<open>
  \<^verbatim>\<open>random\<close> (mulberry32) adds a constant to the \<open>seed\<close> field, as a number and
  without wrapping, and mixes the 32-bit image of the sum. The source returns the mixed
  word divided by \<open>2^32\<close>; the model returns the word, and its one caller computes
  \<^verbatim>\<open>Math.floor(random() * (i + 1))\<close> as \<open>(r * (i + 1)) div 2^32\<close>, which is exact while
  the shuffled array has fewer than \<open>2^21\<close> elements.
\<close>

definition random :: "gameState \<Rightarrow> nat \<times> gameState" where
  "random s =
     (let sd = roundToDouble (seed s + 0x6d2b79f5);
          t0 = (word_of_int sd :: 32 word);
          t1 = (t0 XOR drop_bit 15 t0) * (t0 OR 1);
          t2 = t1 XOR (t1 + (t1 XOR drop_bit 7 t1) * (t1 OR 61))
      in (unat (t2 XOR drop_bit 14 t2), s\<lparr>seed := sd\<rparr>))"

text \<open>\<^verbatim>\<open>recordEvent\<close>\<close>

definition recordEvent :: "event \<Rightarrow> gameState \<Rightarrow> gameState" where
  "recordEvent ev s =
     (if shorthandMode s then
        (case ev of
           GameInfo i \<Rightarrow> s
         | GameEv g \<Rightarrow>
             (if length (events s) = MAX_SHORTHAND_EVENTS
              then s\<lparr>events := tl (events s) @ [ev]\<rparr>
              else s\<lparr>events := events s @ [ev]\<rparr>))
      else s\<lparr>events := events s @ [ev]\<rparr>)"

text \<open>
  \<^verbatim>\<open>shuffleDeck\<close>: the loop runs \<open>i\<close> from the last index down to 1 and swaps
  positions \<open>i\<close> and \<open>j\<close> of the deck in place.
\<close>

fun shuffleLoop :: "nat \<Rightarrow> gameState \<Rightarrow> gameState" where
  "shuffleLoop 0 s = s"
| "shuffleLoop (Suc k) s =
     (case random s of
        (r, s1) \<Rightarrow>
          (let i = Suc k;
               j = (r * (i + 1)) div 4294967296;
               d = deck s1
           in shuffleLoop k (s1\<lparr>deck := d[i := d ! j, j := d ! i]\<rparr>)))"

definition shuffleDeck :: "gameState \<Rightarrow> gameState" where
  "shuffleDeck s =
     (let s1 = shuffleLoop (length (deck s) - 1) s
      in recordEvent (GameInfo (SeedChanged (seed s1))) s1)"

fun findIndex :: "('a \<Rightarrow> bool) \<Rightarrow> 'a list \<Rightarrow> nat option" where
  "findIndex P [] = None"
| "findIndex P (x # xs) =
     (if P x then Some 0 else map_option Suc (findIndex P xs))"

text \<open>
  \<^verbatim>\<open>init\<close>, as the constructor calls it (without the custom top card that only
  the tests pass). \<^verbatim>\<open>splice(index, 1)\<close> with the index \<open>-1\<close> of a failed search removes the
  last card.
\<close>

definition init :: "gameState \<Rightarrow> gameState" where
  "init s =
     (let s1 = shuffleDeck (s\<lparr>deck := DECK\<rparr>);
          d = deck s1;
          (pileTopCard, d') =
            (case findIndex (\<lambda>c. \<not> isColorSwitching (card_type c)) d of
               Some i \<Rightarrow> (d ! i, take i d @ drop (Suc i) d)
             | None \<Rightarrow> (last d, butlast d))
      in s1\<lparr>deck := d',
             events := [GameEv (CardPlayed ENGINE_ID pileTopCard)],
             pile := [pileTopCard],
             last3CardPlayOrColorChanges := [IsCard pileTopCard]\<rparr>)"

subsection \<open>The constructor\<close>

datatype seedArg = SeedString string | SeedNumber int

record gameProps =
  p_shorthandMode :: "bool option"
  p_stackPlusTwos :: "bool option"
  p_initialSeed :: "seedArg option"
  p_noInit :: "bool option"

text \<open>What \<^verbatim>\<open>if (props.initialSeed)\<close> tests: the empty string and 0 are falsy.\<close>

fun truthySeed :: "seedArg option \<Rightarrow> bool" where
  "truthySeed None = False"
| "truthySeed (Some (SeedString str)) = (str \<noteq> [])"
| "truthySeed (Some (SeedNumber n)) = (n \<noteq> 0)"

text \<open>
  The constructor without a serialised state. Its second argument is the number that
  \<^verbatim>\<open>crypto.getRandomValues\<close> delivers to this call; it is read only when the seed of
  the properties is falsy.
\<close>

definition Game_new :: "gameProps \<Rightarrow> 32 word \<Rightarrow> gameState" where
  "Game_new props entropy =
     (let initialSeed =
            (if truthySeed (p_initialSeed props) then
               (case p_initialSeed props of
                  Some (SeedString str) \<Rightarrow> cyrb128 str
                | Some (SeedNumber n) \<Rightarrow> n
                | None \<Rightarrow> uint entropy)
             else uint entropy);
          s0 = \<lparr> shorthandMode = (p_shorthandMode props = Some True),
                 events = [],
                 index = 0,
                 players = [],
                 initialSeed = initialSeed,
                 stackPlusTwos = (case p_stackPlusTwos props of None \<Rightarrow> True | Some b \<Rightarrow> b),
                 hands = [],
                 deck = [],
                 seed = initialSeed,
                 ended = False,
                 stackedPlusTwos = 0,
                 turnStep = Plus1,
                 pile = [],
                 last3CardPlayOrColorChanges = [] \<rparr>
      in if p_noInit props = Some True then s0 else init s0)"

subsection \<open>The deck and the pile\<close>

definition getPile :: "gameState \<Rightarrow> card list" where
  "getPile s = pile s"

text \<open>
  \<^verbatim>\<open>deckTopCard\<close> returns the card and the state it leaves behind. When it throws,
  nothing has been written yet. \<^verbatim>\<open>deck.shift()\<close> is the head of the deck, which is
  not empty at that point.
\<close>

definition deckTopCard :: "gameState \<Rightarrow> (error + card) \<times> gameState" where
  "deckTopCard s =
     (if deck s = [] then
        (let p = getPile s in
         if p = [] then (Inl E_DeckPileExhausted, s)
         else
           (let s1 = shuffleDeck (s\<lparr>deck := p\<rparr>);
                s2 = recordEvent (GameInfo PileToDeck) (s1\<lparr>pile := []\<rparr>)
            in (Inr (hd (deck s2)), s2\<lparr>deck := tl (deck s2)\<rparr>)))
      else (Inr (hd (deck s)), s\<lparr>deck := tl (deck s)\<rparr>))"

text \<open>
  \<^verbatim>\<open>Array(n).fill(null).map(() => this.deckTopCard())\<close>: \<open>n\<close> calls in a row. A
  call that throws ends the expression, and what the earlier calls wrote stays written.
\<close>

fun drawCards :: "nat \<Rightarrow> gameState \<Rightarrow> (error + card list) \<times> gameState" where
  "drawCards 0 s = (Inr [], s)"
| "drawCards (Suc n) s =
     (case deckTopCard s of
        (Inl e, s1) \<Rightarrow> (Inl e, s1)
      | (Inr c, s1) \<Rightarrow>
          (case drawCards n s1 of
             (Inl e, s2) \<Rightarrow> (Inl e, s2)
           | (Inr cs, s2) \<Rightarrow> (Inr (c # cs), s2)))"

subsection \<open>Reading the state\<close>

fun gameEvents :: "event list \<Rightarrow> gameEvent list" where
  "gameEvents [] = []"
| "gameEvents (GameEv g # es) = g # gameEvents es"
| "gameEvents (GameInfo i # es) = gameEvents es"

definition nonInfoEvents :: "gameState \<Rightarrow> gameEvent list" where
  "nonInfoEvents s = gameEvents (events s)"

text \<open>\<^verbatim>\<open>Array.prototype.slice(start, end)\<close> and \<^verbatim>\<open>Array.prototype.at(i)\<close>.\<close>

definition js_slice :: "int \<Rightarrow> int option \<Rightarrow> 'a list \<Rightarrow> 'a list" where
  "js_slice start fin xs =
     (let len = int (length xs);
          k = (if start < 0 then max (len + start) 0 else min start len);
          e = (case fin of
                 None \<Rightarrow> len
               | Some f \<Rightarrow> (if f < 0 then max (len + f) 0 else min f len))
      in take (nat (e - k)) (drop (nat k) xs))"

definition js_at :: "int \<Rightarrow> 'a list \<Rightarrow> 'a option" where
  "js_at i xs =
     (let len = int (length xs);
          k = (if i < 0 then len + i else i)
      in if 0 \<le> k \<and> k < len then Some (xs ! nat k) else None)"

definition lastTwoNonInfoEvents :: "int option \<Rightarrow> gameState \<Rightarrow> gameEvent list" where
  "lastTwoNonInfoEvents ignoredEvents s =
     rev (js_slice (- 2 + (case ignoredEvents of None \<Rightarrow> 0 | Some n \<Rightarrow> n)) ignoredEvents
            (nonInfoEvents s))"

text \<open>\<^verbatim>\<open>handOf\<close> throws when the hands object has no entry for the player.\<close>

definition handOf :: "playerId \<Rightarrow> gameState \<Rightarrow> error + card list" where
  "handOf p s =
     (case map_of (hands s) p of
        None \<Rightarrow> Inl (E_PlayerNotInGame p)
      | Some hand \<Rightarrow> Inr hand)"

text \<open>
  \<^verbatim>\<open>activePlayer\<close>: every entry of the hands object holds an array, which is truthy, so
  the filter keeps all of them. With no entry the index is \<^verbatim>\<open>NaN\<close> and the result
  \<^verbatim>\<open>undefined\<close>.
\<close>

definition activePlayer :: "gameState \<Rightarrow> playerId option" where
  "activePlayer s =
     (let validPlayers = map fst (hands s) in
      if validPlayers = [] then None
      else Some (validPlayers ! (nat \<bar>index s\<bar> mod length validPlayers)))"

text \<open>
  \<^verbatim>\<open>hasEnded\<close>: \<open>Inr None\<close> is the \<^verbatim>\<open>false\<close> of the source. When the game has ended
  and no hand holds a card, the source reads \<^verbatim>\<open>[0]\<close> of \<^verbatim>\<open>undefined\<close>.
\<close>

definition hasEnded :: "gameState \<Rightarrow> error + playerId option" where
  "hasEnded s =
     (if ended s then
        (case find (\<lambda>kv. snd kv \<noteq> []) (hands s) of
           None \<Rightarrow> Inl E_TypeError
         | Some kv \<Rightarrow> Inr (Some (fst kv)))
      else Inr None)"

definition expectedCard :: "bool \<Rightarrow> gameState \<Rightarrow> allCards option \<times> cardColor option" where
  "expectedCard bluffSiteCheck s =
     (let expectedType =
            (case js_at (- 1) (pile s) of
               None \<Rightarrow> None
             | Some lastPileCard \<Rightarrow>
                 (if \<not> isColorSwitching (card_type lastPileCard)
                  then Some (card_type lastPileCard) else None));
          expectedColor =
            (case js_at (if bluffSiteCheck then - 3 else - 1) (last3CardPlayOrColorChanges s) of
               None \<Rightarrow> None
             | Some (IsColor c) \<Rightarrow> Some c
             | Some (IsCard c) \<Rightarrow> card_color c)
      in (expectedType, expectedColor))"

subsection \<open>The validator\<close>

text \<open>
  \<^verbatim>\<open>checkEvent\<close> returns an error object or nothing, and throws in two places: where
  it reads a field of a last event that does not exist, and inside \<^verbatim>\<open>handOf\<close> and
  \<^verbatim>\<open>hasEnded\<close>. Its result is \<open>Inl e\<close> for a thrown \<open>e\<close>, \<open>Inr (Some e)\<close> for a
  returned \<open>e\<close> and \<open>Inr None\<close> for a valid event. The body is cut in three at the
  blank lines of the source: the checks on players, turn and end of game are in
  \<open>checkEvent\<close> itself, the three checks on what the last events leave pending in
  \<open>pendingCheck\<close>, the checks by kind of event in \<open>kindCheck\<close>.
\<close>

fun isCardPlayedOf :: "(allCards \<Rightarrow> bool) \<Rightarrow> gameEvent \<Rightarrow> bool" where
  "isCardPlayedOf P (CardPlayed p c) = P (card_type c)"
| "isCardPlayedOf P ev = False"

fun isDrawBy :: "playerId \<Rightarrow> gameEvent \<Rightarrow> bool" where
  "isDrawBy p (Draw q) = (q = p)"
| "isDrawBy p ev = False"

fun isChooseColor :: "gameEvent \<Rightarrow> bool" where
  "isChooseColor (ChooseColor p c) = True"
| "isChooseColor ev = False"

fun isDraw :: "gameEvent \<Rightarrow> bool" where
  "isDraw (Draw p) = True"
| "isDraw ev = False"

fun isBluffCalled :: "gameEvent \<Rightarrow> bool" where
  "isBluffCalled (BluffCalled p) = True"
| "isBluffCalled ev = False"

definition pendingCheck :: "gameEvent \<Rightarrow> gameEvent \<Rightarrow> gameEvent option \<Rightarrow> error option" where
  "pendingCheck event lastEvent secondLastEvent =
     (if isCardPlayedOf isColorSwitching lastEvent \<and> \<not> isChooseColor event
      then Some (E_MustPickColor event)
      else if isCardPlayedOf (\<lambda>t. t = Coloured PlusTwo) lastEvent \<and> \<not> isDraw event
              \<and> \<not> isCardPlayedOf (\<lambda>t. t = Coloured PlusTwo) event
      then Some (E_MustDrawOrPlusTwo event)
      else
        (case secondLastEvent of
           None \<Rightarrow> None
         | Some sl \<Rightarrow>
             (if isCardPlayedOf (\<lambda>t. t = Switching PlusFour) sl \<and> \<not> isDraw event
                 \<and> \<not> isBluffCalled event
              then Some (E_MustDrawOrCallBluff event)
              else None)))"

fun kindCheck :: "gameEvent \<Rightarrow> bool \<Rightarrow> gameState \<Rightarrow> gameEvent \<Rightarrow> error + error option" where
  "kindCheck (CardPlayed p c) bluffSiteCheck s lastEvent =
     (case (if isColorSwitching (card_type c)
            then map_sum id (\<lambda>hand. length hand = 1) (handOf p s)
            else Inr False) of
        Inl e \<Rightarrow> Inl e
      | Inr True \<Rightarrow> Inr (Some (E_MustNotPlayLastCardColorChanging (CardPlayed p c)))
      | Inr False \<Rightarrow>
          (case expectedCard bluffSiteCheck s of
             (expectedType, expectedColor) \<Rightarrow>
               (if expectedType \<noteq> Some (card_type c)
                   \<and> (case card_color c of Some col \<Rightarrow> Some col | None \<Rightarrow> expectedColor)
                       \<noteq> expectedColor
                then Inr (Some (E_MustPlayExpectedCard expectedType expectedColor c))
                else Inr None)))"
| "kindCheck (Draw p) bluffSiteCheck s lastEvent =
     (if isDrawBy p lastEvent then Inr (Some E_MustNotDrawTwice) else Inr None)"
| "kindCheck (Pass p) bluffSiteCheck s lastEvent =
     (if \<not> isDrawBy p lastEvent then Inr (Some E_MustNotPassWithoutDraw) else Inr None)"
| "kindCheck (BluffCalled p) bluffSiteCheck s lastEvent =
     (case lastTwoNonInfoEvents None s of
        l # sl # rest \<Rightarrow>
          (if isCardPlayedOf (\<lambda>t. t = Switching PlusFour) sl then Inr None
           else Inr (Some E_CannotCallBluff))
      | other \<Rightarrow> Inr (Some E_CannotCallBluff))"
| "kindCheck (ChooseColor p col) bluffSiteCheck s lastEvent =
     (case lastEvent of
        CardPlayed q c \<Rightarrow>
          (if \<not> isColorSwitching (card_type c) \<or> p \<noteq> q
           then Inr (Some E_CannotSwitchColors) else Inr None)
      | other \<Rightarrow> Inr (Some E_CannotSwitchColors))"

definition checkEvent :: "gameEvent \<Rightarrow> bool \<Rightarrow> gameState \<Rightarrow> error + error option" where
  "checkEvent event bluffSiteCheck s =
     (let playerCount = length (players s) in
      if \<not> bluffSiteCheck \<and> playerCount < MIN_PLAYERS
      then Inr (Some (E_TooFewPlayers playerCount))
      else if \<not> bluffSiteCheck \<and> Some (event_by event) \<noteq> activePlayer s
      then Inr (Some (E_NotPlayersTurn (event_by event)))
      else
        (case hasEnded s of
           Inl e \<Rightarrow> Inl e
         | Inr (Some loser) \<Rightarrow> Inr (Some (E_GameEnded loser))
         | Inr None \<Rightarrow>
             (case lastTwoNonInfoEvents (if bluffSiteCheck then Some (- 3) else None) s of
                [] \<Rightarrow> Inl E_TypeError
              | lastEvent # rest \<Rightarrow>
                  (case pendingCheck event lastEvent (case rest of [] \<Rightarrow> None | sl # r \<Rightarrow> Some sl) of
                     Some e \<Rightarrow> Inr (Some e)
                   | None \<Rightarrow> kindCheck event bluffSiteCheck s lastEvent))))"

subsection \<open>The hands object\<close>

text \<open>
  The hands object is a plain JavaScript object; the model holds its own keys, in the
  order in which \<^verbatim>\<open>Object.entries\<close> and \<^verbatim>\<open>JSON.stringify\<close> go through them. Defining a
  property (\<open>obj_define\<close>, what \<^verbatim>\<open>JSON.parse\<close> does with every member it reads): an own
  key keeps its place; a new key that is an array index goes among the array indices in
  ascending order, which come first; any other new key goes last. An array index is a key
  that is the decimal numeral of its own value (a canonical numeric string) with a value
  below \<open>2^32 - 1\<close>.

  The assignment \<^verbatim>\<open>hands[p] = hand\<close> (\<open>obj_set\<close>) does the same, except for the key
  \<^verbatim>\<open>__proto__\<close> on an object that has no own key of that name: there the assignment
  runs the setter of \<^verbatim>\<open>Object.prototype\<close>, which makes the array the prototype of the
  object and adds no own key.

  What the object inherits from its prototype is not part of the model: a read
  \<^verbatim>\<open>hands[p]\<close> of a key that is not an own key finds nothing here (see \<open>handOf\<close>),
  whereas the source finds the members of \<^verbatim>\<open>Object.prototype\<close> there, and, after an
  assignment to \<^verbatim>\<open>__proto__\<close>, those of the array that has become the prototype.
\<close>

function toDecimal :: "nat \<Rightarrow> string" where
  "toDecimal n =
     (if n < 10 then [char_of (48 + n)]
      else toDecimal (n div 10) @ [char_of (48 + n mod 10)])"
  by pat_completeness auto
termination
  by (relation "measure (\<lambda>n. n)") auto

definition decimalValue :: "string \<Rightarrow> nat" where
  "decimalValue k = foldl (\<lambda>acc c. 10 * acc + ((of_char c :: nat) - 48)) 0 k"

definition arrayIndex :: "string \<Rightarrow> nat option" where
  "arrayIndex k =
     (if k = toDecimal (decimalValue k) \<and> decimalValue k < 4294967295
      then Some (decimalValue k) else None)"

fun insertIndexKey :: "nat \<Rightarrow> string \<Rightarrow> 'a \<Rightarrow> (string \<times> 'a) list \<Rightarrow> (string \<times> 'a) list" where
  "insertIndexKey n k v [] = [(k, v)]"
| "insertIndexKey n k v (kv # rest) =
     (case arrayIndex (fst kv) of
        Some m \<Rightarrow> (if m < n then kv # insertIndexKey n k v rest else (k, v) # kv # rest)
      | None \<Rightarrow> (k, v) # kv # rest)"

definition obj_define :: "(string \<times> 'a) list \<Rightarrow> string \<Rightarrow> 'a \<Rightarrow> (string \<times> 'a) list" where
  "obj_define obj k v =
     (if k \<in> fst ` set obj then map (\<lambda>kv. if fst kv = k then (k, v) else kv) obj
      else
        (case arrayIndex k of
           Some n \<Rightarrow> insertIndexKey n k v obj
         | None \<Rightarrow> obj @ [(k, v)]))"

definition obj_set :: "(string \<times> 'a) list \<Rightarrow> string \<Rightarrow> 'a \<Rightarrow> (string \<times> 'a) list" where
  "obj_set obj k v =
     (if k = ''__proto__'' \<and> k \<notin> fst ` set obj then obj else obj_define obj k v)"

text \<open>
  The arrays of the hands object are changed in place through the reference that
  \<^verbatim>\<open>handOf\<close> returns; \<open>setHand\<close> writes the new contents of the array of one
  player.
\<close>

definition setHand :: "playerId \<Rightarrow> card list \<Rightarrow> gameState \<Rightarrow> gameState" where
  "setHand p hand s = s\<lparr>hands := obj_set (hands s) p hand\<rparr>"

subsection \<open>Applying an event\<close>

text \<open>
  The results of \<^verbatim>\<open>processNewEvent\<close> (\<^verbatim>\<open>ProcessEventResult\<close>), without their
  \<^verbatim>\<open>formatted\<close> strings, which repeat the other fields.
\<close>

datatype processEventResult =
    R_card_played card
  | R_player_win_game_end playerId playerId
  | R_player_win playerId
  | R_drawing_cards "card list" nat
  | R_turn_passed
  | R_bluff_call_succeeded playerId playerId
  | R_bluff_call_failed playerId playerId
  | R_color_changed cardColor

text \<open>\<^verbatim>\<open>playerId.safeParse(id).success\<close>: the schema is \<^verbatim>\<open>z.string()\<close>.\<close>

definition playerId_safeParse :: "playerId \<Rightarrow> bool" where
  "playerId_safeParse p = True"

definition advanceTurn :: "int \<Rightarrow> gameState \<Rightarrow> gameState" where
  "advanceTurn multiplier s = s\<lparr>index := index s + stepVal (turnStep s) * multiplier\<rparr>"

definition pushLast3 :: "cardOrColor \<Rightarrow> gameState \<Rightarrow> gameState" where
  "pushLast3 x s =
     (let l = last3CardPlayOrColorChanges s
      in s\<lparr>last3CardPlayOrColorChanges := (if length l = 3 then tl l else l) @ [x]\<rparr>)"

text \<open>
  The branch of a played card. The card is looked up in the hand by type and colour and
  the first match removed. The branch returns only where the hand has become empty;
  otherwise control leaves the chain of branches and reaches the
  \<^verbatim>\<open>throw "unreachable"\<close> that ends the function, after the state has been written.
\<close>

definition turnStepMultiplier :: "card \<Rightarrow> gameState \<Rightarrow> int" where
  "turnStepMultiplier c s =
     (if card_type c = Coloured Skip then 2
      else if card_type c = Coloured Reverse then (if length (players s) = 2 then 2 else 1)
      else 1)"

definition applyCardPlayed ::
    "playerId \<Rightarrow> card \<Rightarrow> card list \<Rightarrow> gameState \<Rightarrow> (error + processEventResult) \<times> gameState" where
  "applyCardPlayed p c hand s =
     (if c \<notin> set hand then (Inl (E_PlayerDoesntHaveCard p c), s)
      else
        (let s1 = setHand p (remove1 c hand) s;
             s2 = recordEvent (GameEv (CardPlayed p c)) s1;
             s3 = pushLast3 (IsCard c) s2;
             s4 = s3\<lparr>pile := pile s3 @ [c]\<rparr>;
             s5 = (if card_type c = Coloured PlusTwo
                   then s4\<lparr>stackedPlusTwos := stackedPlusTwos s4 + 1\<rparr> else s4);
             s6 = (if card_type c = Coloured Reverse
                   then s5\<lparr>turnStep := negateStep (turnStep s5)\<rparr> else s5);
             s7 = (if \<not> isColorSwitching (card_type c)
                   then advanceTurn (turnStepMultiplier c s6) s6 else s6)
         in case handOf p s7 of
              Inl e \<Rightarrow> (Inl e, s7)
            | Inr hand' \<Rightarrow>
                (if hand' = [] then
                   (let s8 = recordEvent (GameInfo (PlayerWon p)) s7;
                        playersWithCards = map fst (filter (\<lambda>kv. snd kv \<noteq> []) (hands s8))
                    in if length playersWithCards = 1 then
                         (let s9 = recordEvent (GameInfo (GameEnded (hd playersWithCards))) s8
                          in (Inr (R_player_win_game_end p (hd playersWithCards)),
                              s9\<lparr>ended := True\<rparr>))
                       else (Inr (R_player_win p), s8))
                 else (Inl E_Unreachable, s7))))"

text \<open>The branch of a draw.\<close>

definition toDraw :: "gameState \<Rightarrow> gameEvent \<Rightarrow> gameEvent option \<Rightarrow> nat" where
  "toDraw s lastEvent secondLastEvent =
     (if isCardPlayedOf (\<lambda>t. t = Coloured PlusTwo) lastEvent
      then (if stackPlusTwos s then stackedPlusTwos s else 1) * 2
      else if (case secondLastEvent of
                 None \<Rightarrow> False
               | Some sl \<Rightarrow> isCardPlayedOf (\<lambda>t. t = Switching PlusFour) sl)
      then 4
      else 1)"

definition applyDraw :: "playerId \<Rightarrow> gameState \<Rightarrow> (error + processEventResult) \<times> gameState" where
  "applyDraw p s =
     (case lastTwoNonInfoEvents None s of
        [] \<Rightarrow> (Inl E_TypeError, s)
      | lastEvent # rest \<Rightarrow>
          (let n = toDraw s lastEvent (case rest of [] \<Rightarrow> None | sl # r \<Rightarrow> Some sl)
           in case drawCards n s of
                (Inl e, s1) \<Rightarrow> (Inl e, s1)
              | (Inr cs, s1) \<Rightarrow>
                  (case handOf p s1 of
                     Inl e \<Rightarrow> (Inl e, s1)
                   | Inr hand \<Rightarrow>
                       (let s2 = setHand p (hand @ cs) s1;
                            s3 = (if n \<noteq> 1 then advanceTurn 1 s2 else s2);
                            s4 = recordEvent (GameEv (Draw p)) s3
                        in (Inr (R_drawing_cards cs (length cs)),
                            s4\<lparr>stackedPlusTwos := 0\<rparr>)))))"

definition applyPass :: "playerId \<Rightarrow> gameState \<Rightarrow> (error + processEventResult) \<times> gameState" where
  "applyPass p s = (Inr R_turn_passed, advanceTurn 1 (recordEvent (GameEv (Pass p)) s))"

text \<open>
  The branch of a bluff call. \<open>bluffProbe\<close> is the \<^verbatim>\<open>some\<close> over the cards of the
  accused that do not switch colours: it asks \<^verbatim>\<open>checkEvent\<close> with the bluff-site flag,
  in the state in which the call is already recorded and the turn advanced, and stops at
  the first card that passes.
\<close>

fun bluffProbe :: "card list \<Rightarrow> gameState \<Rightarrow> error + bool" where
  "bluffProbe [] s = Inr False"
| "bluffProbe (c # cs) s =
     (case checkEvent (CardPlayed ENGINE_ID c) True s of
        Inl e \<Rightarrow> Inl e
      | Inr None \<Rightarrow> Inr True
      | Inr (Some e) \<Rightarrow> bluffProbe cs s)"

definition applyBluffCalled ::
    "playerId \<Rightarrow> gameState \<Rightarrow> (error + processEventResult) \<times> gameState" where
  "applyBluffCalled p s =
     (case lastTwoNonInfoEvents None s of
        l # secondLastEvent # rest \<Rightarrow>
          (let lastPlayerId = event_by secondLastEvent in
           case handOf lastPlayerId s of
             Inl e \<Rightarrow> (Inl e, s)
           | Inr lastPlayerHand \<Rightarrow>
               (let s1 = advanceTurn 1 (recordEvent (GameEv (BluffCalled p)) s) in
                case bluffProbe
                       (filter (\<lambda>c. \<not> isColorSwitching (card_type c)) lastPlayerHand) s1 of
                  Inl e \<Rightarrow> (Inl e, s1)
                | Inr True \<Rightarrow>
                    (case drawCards 4 s1 of
                       (Inl e, s2) \<Rightarrow> (Inl e, s2)
                     | (Inr cs, s2) \<Rightarrow>
                         (Inr (R_bluff_call_succeeded p lastPlayerId),
                          recordEvent (GameInfo (BluffCallSucceeded p lastPlayerId))
                            (setHand lastPlayerId (lastPlayerHand @ cs) s2)))
                | Inr False \<Rightarrow>
                    (case drawCards 6 s1 of
                       (Inl e, s2) \<Rightarrow> (Inl e, s2)
                     | (Inr cs, s2) \<Rightarrow>
                         (case handOf p s2 of
                            Inl e \<Rightarrow> (Inl e, s2)
                          | Inr hand \<Rightarrow>
                              (Inr (R_bluff_call_failed p lastPlayerId),
                               recordEvent (GameInfo (BluffCallFailed p lastPlayerId))
                                 (setHand p (hand @ cs) s2))))))
      | other \<Rightarrow> (Inl E_TypeError, s))"

definition applyChooseColor ::
    "playerId \<Rightarrow> cardColor \<Rightarrow> gameState \<Rightarrow> (error + processEventResult) \<times> gameState" where
  "applyChooseColor p col s =
     (Inr (R_color_changed col),
      advanceTurn 1 (recordEvent (GameEv (ChooseColor p col)) (pushLast3 (IsColor col) s)))"

definition processNewEvent ::
    "gameEvent \<Rightarrow> gameState \<Rightarrow> (error + processEventResult) \<times> gameState" where
  "processNewEvent event s =
     (if \<not> playerId_safeParse (event_by event) then (Inl (E_InvalidId (event_by event)), s)
      else
        (case handOf (event_by event) s of
           Inl e \<Rightarrow> (Inl e, s)
         | Inr hand \<Rightarrow>
             (case checkEvent event False s of
                Inl e \<Rightarrow> (Inl e, s)
              | Inr (Some err) \<Rightarrow> (Inl err, s)
              | Inr None \<Rightarrow>
                  (case event of
                     CardPlayed p c \<Rightarrow> applyCardPlayed p c hand s
                   | Draw p \<Rightarrow> applyDraw p s
                   | Pass p \<Rightarrow> applyPass p s
                   | BluffCalled p \<Rightarrow> applyBluffCalled p s
                   | ChooseColor p col \<Rightarrow> applyChooseColor p col s))))"

subsection \<open>Gameplay functions\<close>

fun joinLoop :: "playerId list \<Rightarrow> gameState \<Rightarrow> (error + unit) \<times> gameState" where
  "joinLoop [] s = (Inr (), s)"
| "joinLoop (p # ps) s =
     (case drawCards 7 s of
        (Inl e, s1) \<Rightarrow> (Inl e, s1)
      | (Inr hand, s1) \<Rightarrow>
          joinLoop ps
            (recordEvent (GameInfo (PlayerJoined p))
               (setHand p hand (s1\<lparr>players := players s1 @ [p]\<rparr>))))"

definition join :: "playerId list \<Rightarrow> gameState \<Rightarrow> (error + unit) \<times> gameState" where
  "join playerIds s =
     (let playerCount = length (players s) in
      if playerCount = MAX_PLAYERS then (Inl (E_TooManyPlayers playerCount), s)
      else
        (case find (\<lambda>p. p = ENGINE_ID \<or> \<not> playerId_safeParse p) playerIds of
           Some p \<Rightarrow> (Inl (E_InvalidId p), s)
         | None \<Rightarrow> joinLoop playerIds s))"

text \<open>
  \<^verbatim>\<open>leave\<close> tests \<^verbatim>\<open>!players.find(id => id == playerId)\<close>, which is also true where
  the player found is the empty string.
\<close>

fun leave :: "playerId list \<Rightarrow> gameState \<Rightarrow> (error + unit) \<times> gameState" where
  "leave [] s = (Inr (), s)"
| "leave (p # ps) s =
     (if p \<notin> set (players s) \<or> p = [] then (Inl (E_PlayerNotInGame p), s)
      else leave ps
             (recordEvent (GameInfo (PlayerLeft p))
                (s\<lparr>players := filter (\<lambda>q. q \<noteq> p) (players s)\<rparr>)))"

definition play :: "playerId \<Rightarrow> card \<Rightarrow> gameState \<Rightarrow> (error + processEventResult) \<times> gameState" where
  "play p c s = processNewEvent (CardPlayed p c) s"

definition draw :: "playerId \<Rightarrow> gameState \<Rightarrow> (error + processEventResult) \<times> gameState" where
  "draw p s = processNewEvent (Draw p) s"

definition pass :: "playerId \<Rightarrow> gameState \<Rightarrow> (error + processEventResult) \<times> gameState" where
  "pass p s = processNewEvent (Pass p) s"

definition callBluff :: "playerId \<Rightarrow> gameState \<Rightarrow> (error + processEventResult) \<times> gameState" where
  "callBluff p s = processNewEvent (BluffCalled p) s"

definition chooseColor ::
    "playerId \<Rightarrow> cardColor \<Rightarrow> gameState \<Rightarrow> (error + processEventResult) \<times> gameState" where
  "chooseColor p col s = processNewEvent (ChooseColor p col) s"

subsection \<open>Utility functions\<close>

text \<open>
  \<^verbatim>\<open>jumpToEventIndex\<close>. The events are cut in place first; the loop then feeds the
  events that are left to a new game, made from the initial seed alone. An error of the
  new game leaves the loop and the function, with the events of this game cut and the
  rest of its state as it was.
\<close>

fun replayLoop :: "event list \<Rightarrow> gameState \<Rightarrow> (error + unit) \<times> gameState" where
  "replayLoop [] cg = (Inr (), cg)"
| "replayLoop (GameInfo i # es) cg =
     (case i of
        GameEnded loser \<Rightarrow> (Inr (), cg)
      | PlayerJoined p \<Rightarrow>
          (case join [p] cg of
             (Inl e, cg1) \<Rightarrow> (Inl e, cg1)
           | (Inr u, cg1) \<Rightarrow> replayLoop es cg1)
      | PlayerLeft p \<Rightarrow>
          (case leave [p] cg of
             (Inl e, cg1) \<Rightarrow> (Inl e, cg1)
           | (Inr u, cg1) \<Rightarrow> replayLoop es cg1)
      | other \<Rightarrow> replayLoop es cg)"
| "replayLoop (GameEv g # es) cg =
     (if event_by g = ENGINE_ID then replayLoop es cg
      else
        (case processNewEvent g cg of
           (Inl e, cg1) \<Rightarrow> (Inl e, cg1)
         | (Inr r, cg1) \<Rightarrow> replayLoop es cg1))"

definition jumpToEventIndex ::
    "int \<Rightarrow> 32 word \<Rightarrow> gameState \<Rightarrow> (error + event list) \<times> gameState" where
  "jumpToEventIndex idx entropy s =
     (if shorthandMode s then (Inl E_ShorthandJump, s)
      else
        (let len = int (length (events s)) in
         if idx < - len \<or> idx \<ge> len then (Inl E_InvalidEventIndex, s)
         else
           (let i = (if idx < 0 then len + idx else idx);
                remainingEvents = drop (nat (i + 1)) (events s);
                s1 = s\<lparr>events := take (nat (i + 1)) (events s)\<rparr>;
                cg = Game_new \<lparr> p_shorthandMode = None, p_stackPlusTwos = None,
                                 p_initialSeed = Some (SeedNumber (initialSeed s1)),
                                 p_noInit = None \<rparr> entropy
            in case replayLoop (events s1) cg of
                 (Inl e, cg1) \<Rightarrow> (Inl e, s1)
               | (Inr u, cg1) \<Rightarrow> (Inr remainingEvents, cg1))))"

fun filterValid :: "gameEvent list \<Rightarrow> gameState \<Rightarrow> error + gameEvent list" where
  "filterValid [] s = Inr []"
| "filterValid (e # es) s =
     (case checkEvent e False s of
        Inl err \<Rightarrow> Inl err
      | Inr r \<Rightarrow>
          (case filterValid es s of
             Inl err \<Rightarrow> Inl err
           | Inr vs \<Rightarrow> Inr (if r = None then e # vs else vs)))"

definition validEvents :: "playerId \<Rightarrow> gameState \<Rightarrow> error + gameEvent list" where
  "validEvents p s =
     (case handOf p s of
        Inl e \<Rightarrow> Inl e
      | Inr hand \<Rightarrow>
          filterValid
            ([Draw p, BluffCalled p, Pass p, ChooseColor p Red] @ map (CardPlayed p) hand) s)"

text \<open>
  The order of the keys of a JavaScript object: array indices first, in ascending order,
  then the other keys; no key twice. \<open>rebuildObject\<close> defines the entries of a list
  one after the other on an empty object, as \<^verbatim>\<open>JSON.parse\<close> does with the members of
  an object.
\<close>

definition keyBefore :: "string \<Rightarrow> string \<Rightarrow> bool" where
  "keyBefore a b =
     (case arrayIndex a of
        Some m \<Rightarrow> (case arrayIndex b of Some n \<Rightarrow> m < n | None \<Rightarrow> True)
      | None \<Rightarrow> (case arrayIndex b of Some n \<Rightarrow> False | None \<Rightarrow> True))"

definition canonicalKeys :: "string list \<Rightarrow> bool" where
  "canonicalKeys ks = (distinct ks \<and> sorted_wrt keyBefore ks)"

definition rebuildObject :: "(string \<times> 'a) list \<Rightarrow> (string \<times> 'a) list" where
  "rebuildObject kvs = foldl (\<lambda>obj kv. obj_define obj (fst kv) (snd kv)) [] kvs"

subsection \<open>Serialising and deserialising\<close>

text \<open>
  \<^verbatim>\<open>serialise\<close> is \<^verbatim>\<open>JSON.stringify\<close> of the state, and the constructor reads a
  serialised state with \<^verbatim>\<open>JSON.parse\<close>, validates it against the schema
  \<^verbatim>\<open>gameState\<close> of \<^verbatim>\<open>types.ts\<close> and takes the parsed object as its state. JSON is
  modelled as the tree that the text denotes. A property whose value is
  \<^verbatim>\<open>undefined\<close> has no member in the tree; the members of an object are in the order
  of its keys; for a key that occurs twice, \<^verbatim>\<open>JSON.parse\<close> keeps the last value.
\<close>

datatype json =
    JNull
  | JBool bool
  | JNumber int
  | JString string
  | JArray "json list"
  | JObject "(string \<times> json) list"

definition member :: "(string \<times> json) list \<Rightarrow> string \<Rightarrow> json option" where
  "member kvs k = map_of (rev kvs) k"

definition str_member :: "(string \<times> json) list \<Rightarrow> string \<Rightarrow> string option" where
  "str_member kvs k = (case member kvs k of Some (JString str) \<Rightarrow> Some str | other \<Rightarrow> None)"

definition num_member :: "(string \<times> json) list \<Rightarrow> string \<Rightarrow> int option" where
  "num_member kvs k = (case member kvs k of Some (JNumber n) \<Rightarrow> Some n | other \<Rightarrow> None)"

definition bool_member :: "(string \<times> json) list \<Rightarrow> string \<Rightarrow> bool option" where
  "bool_member kvs k = (case member kvs k of Some (JBool b) \<Rightarrow> Some b | other \<Rightarrow> None)"

definition array_member ::
    "(json \<Rightarrow> 'a option) \<Rightarrow> (string \<times> json) list \<Rightarrow> string \<Rightarrow> 'a list option" where
  "array_member parse kvs k =
     (case member kvs k of Some (JArray js) \<Rightarrow> those (map parse js) | other \<Rightarrow> None)"

text \<open>The names of the enumerations of \<^verbatim>\<open>types.ts\<close>.\<close>

fun cardColor_name :: "cardColor \<Rightarrow> string" where
  "cardColor_name Red = ''red''"
| "cardColor_name Blue = ''blue''"
| "cardColor_name Green = ''green''"
| "cardColor_name Yellow = ''yellow''"

fun colouredType_name :: "colouredType \<Rightarrow> string" where
  "colouredType_name TZero = ''zero''"
| "colouredType_name TOne = ''one''"
| "colouredType_name TTwo = ''two''"
| "colouredType_name TThree = ''three''"
| "colouredType_name TFour = ''four''"
| "colouredType_name TFive = ''five''"
| "colouredType_name TSix = ''six''"
| "colouredType_name TSeven = ''seven''"
| "colouredType_name TEight = ''eight''"
| "colouredType_name TNine = ''nine''"
| "colouredType_name PlusTwo = ''plus-two''"
| "colouredType_name Reverse = ''reverse''"
| "colouredType_name Skip = ''skip''"

fun colorSwitchingScs_name :: "colorSwitchingScs \<Rightarrow> string" where
  "colorSwitchingScs_name PlusFour = ''plus-four''"
| "colorSwitchingScs_name ColorChooser = ''color-chooser''"

definition cardColor_of :: "string \<Rightarrow> cardColor option" where
  "cardColor_of = map_of (map (\<lambda>c. (cardColor_name c, c)) cardColor_options)"

definition colouredType_of :: "string \<Rightarrow> colouredType option" where
  "colouredType_of = map_of (map (\<lambda>t. (colouredType_name t, t)) (TZero # twoCardTypes))"

definition colorSwitchingScs_of :: "string \<Rightarrow> colorSwitchingScs option" where
  "colorSwitchingScs_of =
     map_of (map (\<lambda>t. (colorSwitchingScs_name t, t)) [PlusFour, ColorChooser])"

text \<open>What \<^verbatim>\<open>JSON.stringify\<close> writes.\<close>

fun card_toJSON :: "card \<Rightarrow> json" where
  "card_toJSON (ColouredCard t c) =
     JObject [(''type'', JString (colouredType_name t)), (''color'', JString (cardColor_name c))]"
| "card_toJSON (SwitchingCard t) = JObject [(''type'', JString (colorSwitchingScs_name t))]"

fun gameEvent_toJSON :: "gameEvent \<Rightarrow> json" where
  "gameEvent_toJSON (CardPlayed p c) =
     JObject [(''type'', JString ''card_played''), (''by'', JString p), (''card'', card_toJSON c)]"
| "gameEvent_toJSON (BluffCalled p) =
     JObject [(''type'', JString ''bluff_called''), (''by'', JString p)]"
| "gameEvent_toJSON (ChooseColor p c) =
     JObject [(''type'', JString ''choose-color''), (''by'', JString p),
              (''color'', JString (cardColor_name c))]"
| "gameEvent_toJSON (Draw p) = JObject [(''type'', JString ''draw''), (''by'', JString p)]"
| "gameEvent_toJSON (Pass p) = JObject [(''type'', JString ''pass''), (''by'', JString p)]"

fun info_toJSON :: "info \<Rightarrow> json" where
  "info_toJSON (BluffCalledInfo p) =
     JObject [(''type'', JString ''bluff_called''), (''by'', JString p)]"
| "info_toJSON (BluffCallSucceeded p q) =
     JObject [(''type'', JString ''bluff_call_succeeded''), (''by'', JString p), (''of'', JString q)]"
| "info_toJSON (BluffCallFailed p q) =
     JObject [(''type'', JString ''bluff_call_failed''), (''by'', JString p), (''of'', JString q)]"
| "info_toJSON (SeedChanged n) =
     JObject [(''type'', JString ''seed_changed''), (''newSeed'', JNumber n)]"
| "info_toJSON (PlayerWon p) = JObject [(''type'', JString ''player_won''), (''id'', JString p)]"
| "info_toJSON (GameEnded p) = JObject [(''type'', JString ''game_ended''), (''loser'', JString p)]"
| "info_toJSON (PlayerJoined p) =
     JObject [(''type'', JString ''player_joined''), (''id'', JString p)]"
| "info_toJSON (PlayerLeft p) = JObject [(''type'', JString ''player_left''), (''id'', JString p)]"
| "info_toJSON PileToDeck = JObject [(''type'', JString ''pile_to_deck'')]"

fun event_toJSON :: "event \<Rightarrow> json" where
  "event_toJSON (GameEv g) = gameEvent_toJSON g"
| "event_toJSON (GameInfo i) =
     JObject [(''type'', JString ''game_info''), (''info'', info_toJSON i)]"

fun cardOrColor_toJSON :: "cardOrColor \<Rightarrow> json" where
  "cardOrColor_toJSON (IsCard c) = card_toJSON c"
| "cardOrColor_toJSON (IsColor c) = JString (cardColor_name c)"

definition cards_toJSON :: "card list \<Rightarrow> json" where
  "cards_toJSON cs = JArray (map card_toJSON cs)"

definition serialise :: "gameState \<Rightarrow> json" where
  "serialise s =
     JObject
       [(''shorthandMode'', JBool (shorthandMode s)),
        (''events'', JArray (map event_toJSON (events s))),
        (''index'', JNumber (index s)),
        (''players'', JArray (map JString (players s))),
        (''initialSeed'', JNumber (initialSeed s)),
        (''stackPlusTwos'', JBool (stackPlusTwos s)),
        (''cache'',
         JObject
           [(''hands'', JObject (map (\<lambda>kv. (fst kv, cards_toJSON (snd kv))) (hands s))),
            (''deck'', cards_toJSON (deck s)),
            (''seed'', JNumber (seed s)),
            (''ended'', JBool (ended s)),
            (''stackedPlusTwos'', JNumber (int (stackedPlusTwos s))),
            (''turnStep'', JNumber (stepVal (turnStep s))),
            (''pile'', cards_toJSON (pile s)),
            (''last3CardPlayOrColorChanges'',
             JArray (map cardOrColor_toJSON (last3CardPlayOrColorChanges s)))])]"

text \<open>
  The schemas of \<^verbatim>\<open>types.ts\<close>, each as the value that a JSON tree denotes when it
  passes the schema. The schema of a card is the union of its two shapes; the schema of
  the state is the union of the full and the shorthand state, and a shorthand state
  admits no \<^verbatim>\<open>game_info\<close> event. The hands are a record of card arrays, built key by
  key.
\<close>

definition card_parse :: "json \<Rightarrow> card option" where
  "card_parse j =
     (case j of
        JObject kvs \<Rightarrow>
          (case str_member kvs ''type'' of
             None \<Rightarrow> None
           | Some t \<Rightarrow>
               (case colouredType_of t of
                  Some ct \<Rightarrow>
                    Option.bind (str_member kvs ''color'')
                      (\<lambda>c. map_option (ColouredCard ct) (cardColor_of c))
                | None \<Rightarrow>
                    (case colorSwitchingScs_of t of
                       Some st \<Rightarrow>
                         (if member kvs ''color'' = None then Some (SwitchingCard st) else None)
                     | None \<Rightarrow> None)))
      | other \<Rightarrow> None)"

definition gameEvent_parse :: "json \<Rightarrow> gameEvent option" where
  "gameEvent_parse j =
     (case j of
        JObject kvs \<Rightarrow>
          (case (str_member kvs ''type'', str_member kvs ''by'') of
             (Some t, Some p) \<Rightarrow>
               (if t = ''card_played''
                then map_option (CardPlayed p) (Option.bind (member kvs ''card'') card_parse)
                else if t = ''bluff_called'' then Some (BluffCalled p)
                else if t = ''choose-color''
                then map_option (ChooseColor p) (Option.bind (str_member kvs ''color'') cardColor_of)
                else if t = ''draw'' then Some (Draw p)
                else if t = ''pass'' then Some (Pass p)
                else None)
           | other \<Rightarrow> None)
      | other \<Rightarrow> None)"

definition info_parse :: "json \<Rightarrow> info option" where
  "info_parse j =
     (case j of
        JObject kvs \<Rightarrow>
          (case str_member kvs ''type'' of
             None \<Rightarrow> None
           | Some t \<Rightarrow>
               (if t = ''bluff_called'' then map_option BluffCalledInfo (str_member kvs ''by'')
                else if t = ''bluff_call_succeeded''
                then Option.bind (str_member kvs ''by'')
                       (\<lambda>p. map_option (BluffCallSucceeded p) (str_member kvs ''of''))
                else if t = ''bluff_call_failed''
                then Option.bind (str_member kvs ''by'')
                       (\<lambda>p. map_option (BluffCallFailed p) (str_member kvs ''of''))
                else if t = ''seed_changed'' then map_option SeedChanged (num_member kvs ''newSeed'')
                else if t = ''player_won'' then map_option PlayerWon (str_member kvs ''id'')
                else if t = ''game_ended'' then map_option GameEnded (str_member kvs ''loser'')
                else if t = ''player_joined'' then map_option PlayerJoined (str_member kvs ''id'')
                else if t = ''player_left'' then map_option PlayerLeft (str_member kvs ''id'')
                else if t = ''pile_to_deck'' then Some PileToDeck
                else None))
      | other \<Rightarrow> None)"

definition event_parse :: "json \<Rightarrow> event option" where
  "event_parse j =
     (case j of
        JObject kvs \<Rightarrow>
          (if str_member kvs ''type'' = Some ''game_info''
           then map_option GameInfo (Option.bind (member kvs ''info'') info_parse)
           else map_option GameEv (gameEvent_parse j))
      | other \<Rightarrow> None)"

definition cardOrColor_parse :: "json \<Rightarrow> cardOrColor option" where
  "cardOrColor_parse j =
     (case j of
        JString c \<Rightarrow> map_option IsColor (cardColor_of c)
      | other \<Rightarrow> map_option IsCard (card_parse j))"

definition string_parse :: "json \<Rightarrow> string option" where
  "string_parse j = (case j of JString str \<Rightarrow> Some str | other \<Rightarrow> None)"

definition cards_parse :: "json \<Rightarrow> card list option" where
  "cards_parse j = (case j of JArray js \<Rightarrow> those (map card_parse js) | other \<Rightarrow> None)"

definition hands_parse :: "json \<Rightarrow> (playerId \<times> card list) list option" where
  "hands_parse j =
     (case j of
        JObject kvs \<Rightarrow>
          map_option (\<lambda>hs. rebuildObject (zip (map fst kvs) hs))
            (those (map (\<lambda>kv. cards_parse (snd kv)) kvs))
      | other \<Rightarrow> None)"

fun isGameEv :: "event \<Rightarrow> bool" where
  "isGameEv (GameEv g) = True"
| "isGameEv (GameInfo i) = False"

definition turnStep_parse :: "int \<Rightarrow> turnStep option" where
  "turnStep_parse n = (if n = 1 then Some Plus1 else if n = - 1 then Some Minus1 else None)"

definition cache_parse :: "(string \<times> json) list \<Rightarrow> gameState \<Rightarrow> gameState option" where
  "cache_parse kvs s0 =
     Option.bind (Option.bind (member kvs ''hands'') hands_parse) (\<lambda>h.
     Option.bind (Option.bind (member kvs ''deck'') cards_parse) (\<lambda>d.
     Option.bind (num_member kvs ''seed'') (\<lambda>sd.
     Option.bind (bool_member kvs ''ended'') (\<lambda>en.
     Option.bind (num_member kvs ''stackedPlusTwos'') (\<lambda>st.
     Option.bind (Option.bind (num_member kvs ''turnStep'') turnStep_parse) (\<lambda>ts.
     Option.bind (Option.bind (member kvs ''pile'') cards_parse) (\<lambda>pl.
     Option.bind (array_member cardOrColor_parse kvs ''last3CardPlayOrColorChanges'') (\<lambda>l3.
       if 0 \<le> st
       then Some (s0\<lparr>hands := h, deck := d, seed := sd, ended := en,
                     stackedPlusTwos := nat st, turnStep := ts, pile := pl,
                     last3CardPlayOrColorChanges := l3\<rparr>)
       else None))))))))"

definition gameState_parse :: "json \<Rightarrow> gameState option" where
  "gameState_parse j =
     (case j of
        JObject kvs \<Rightarrow>
          Option.bind (bool_member kvs ''shorthandMode'') (\<lambda>sm.
          Option.bind (array_member event_parse kvs ''events'') (\<lambda>evs.
          Option.bind (num_member kvs ''index'') (\<lambda>idx.
          Option.bind (array_member string_parse kvs ''players'') (\<lambda>pls.
          Option.bind (num_member kvs ''initialSeed'') (\<lambda>iseed.
          Option.bind (bool_member kvs ''stackPlusTwos'') (\<lambda>spt.
            if sm \<and> \<not> list_all isGameEv evs then None
            else
              (case member kvs ''cache'' of
                 Some (JObject ckvs) \<Rightarrow>
                   cache_parse ckvs
                     \<lparr> shorthandMode = sm, events = evs, index = idx, players = pls,
                       initialSeed = iseed, stackPlusTwos = spt, hands = [], deck = [],
                       seed = 0, ended = False, stackedPlusTwos = 0, turnStep = Plus1,
                       pile = [], last3CardPlayOrColorChanges = [] \<rparr>
               | other \<Rightarrow> None)))))))
      | other \<Rightarrow> None)"

text \<open>The constructor with a serialised state.\<close>

definition Game_deserialise :: "json \<Rightarrow> error + gameState" where
  "Game_deserialise j =
     (case gameState_parse j of
        None \<Rightarrow> Inl E_SchemaMismatch
      | Some s \<Rightarrow> Inr s)"

definition clone :: "gameState \<Rightarrow> error + gameState" where
  "clone s = Game_deserialise (serialise s)"

section \<open>The validator over a store of arrays\<close>

text \<open>
  The arrays of the engine are objects: \<^verbatim>\<open>_state\<close> and its \<^verbatim>\<open>cache\<close> hold references
  to them, and \<^verbatim>\<open>push\<close>, \<^verbatim>\<open>shift\<close>, \<^verbatim>\<open>splice\<close>, \<^verbatim>\<open>reverse\<close> and an assignment to an
  element change the array behind a reference for everyone who holds it. The definitions
  above give every method by the contents of the arrays. To see what the validator
  writes, the methods that \<^verbatim>\<open>checkEvent\<close>, \<^verbatim>\<open>validEvents\<close> and the probe of a bluff
  call run through are given here once more, with the suffix \<open>_m\<close>, over a store: a
  list of arrays, in which a reference is a position. A method that returns a new array
  (\<^verbatim>\<open>filter\<close>, \<^verbatim>\<open>slice\<close>, \<^verbatim>\<open>map\<close>, \<^verbatim>\<open>Object.entries\<close>, an array literal,
  \<^verbatim>\<open>structuredClone\<close>) appends to the store; \<^verbatim>\<open>reverse\<close> overwrites the array it is
  called on. Events, cards and error objects are values: no method of the source assigns
  to a field of one.
\<close>

type_synonym ref = nat

datatype arrayObj =
    EventArray "event list"
  | MoveArray "gameEvent list"
  | CardArray "card list"
  | IdArray "playerId list"
  | ChangeArray "cardOrColor list"
  | EntryArray "(playerId \<times> ref) list"

text \<open>
  The object \<^verbatim>\<open>_state\<close> with its \<^verbatim>\<open>cache\<close> and the hands object: the fields hold
  numbers, booleans and references to arrays.
\<close>

record stateRefs =
  r_shorthandMode :: bool
  r_events :: ref
  r_index :: int
  r_players :: ref
  r_initialSeed :: int
  r_stackPlusTwos :: bool
  r_hands :: "(playerId \<times> ref) list"
  r_deck :: ref
  r_seed :: int
  r_ended :: bool
  r_stackedPlusTwos :: nat
  r_turnStep :: turnStep
  r_pile :: ref
  r_last3CardPlayOrColorChanges :: ref

record machine =
  m_state :: stateRefs
  m_store :: "arrayObj list"

definition deref :: "arrayObj list \<Rightarrow> ref \<Rightarrow> arrayObj" where
  "deref store r = (if r < length store then store ! r else IdArray [])"

fun eventsOf :: "arrayObj \<Rightarrow> event list" where
  "eventsOf (EventArray xs) = xs"
| "eventsOf a = []"

fun movesOf :: "arrayObj \<Rightarrow> gameEvent list" where
  "movesOf (MoveArray xs) = xs"
| "movesOf a = []"

fun cardsOf :: "arrayObj \<Rightarrow> card list" where
  "cardsOf (CardArray xs) = xs"
| "cardsOf a = []"

fun idsOf :: "arrayObj \<Rightarrow> playerId list" where
  "idsOf (IdArray xs) = xs"
| "idsOf a = []"

fun changesOf :: "arrayObj \<Rightarrow> cardOrColor list" where
  "changesOf (ChangeArray xs) = xs"
| "changesOf a = []"

fun entriesOf :: "arrayObj \<Rightarrow> (playerId \<times> ref) list" where
  "entriesOf (EntryArray xs) = xs"
| "entriesOf a = []"

text \<open>A new array, and the two array methods of \<^verbatim>\<open>lastTwoNonInfoEvents\<close>.\<close>

definition alloc :: "arrayObj \<Rightarrow> machine \<Rightarrow> ref \<times> machine" where
  "alloc a m = (length (m_store m), m\<lparr>m_store := m_store m @ [a]\<rparr>)"

fun sliced :: "int \<Rightarrow> int option \<Rightarrow> arrayObj \<Rightarrow> arrayObj" where
  "sliced start fin (EventArray xs) = EventArray (js_slice start fin xs)"
| "sliced start fin (MoveArray xs) = MoveArray (js_slice start fin xs)"
| "sliced start fin (CardArray xs) = CardArray (js_slice start fin xs)"
| "sliced start fin (IdArray xs) = IdArray (js_slice start fin xs)"
| "sliced start fin (ChangeArray xs) = ChangeArray (js_slice start fin xs)"
| "sliced start fin (EntryArray xs) = EntryArray (js_slice start fin xs)"

definition array_slice :: "int \<Rightarrow> int option \<Rightarrow> ref \<Rightarrow> machine \<Rightarrow> ref \<times> machine" where
  "array_slice start fin r m = alloc (sliced start fin (deref (m_store m) r)) m"

fun reversed :: "arrayObj \<Rightarrow> arrayObj" where
  "reversed (EventArray xs) = EventArray (rev xs)"
| "reversed (MoveArray xs) = MoveArray (rev xs)"
| "reversed (CardArray xs) = CardArray (rev xs)"
| "reversed (IdArray xs) = IdArray (rev xs)"
| "reversed (ChangeArray xs) = ChangeArray (rev xs)"
| "reversed (EntryArray xs) = EntryArray (rev xs)"

text \<open>\<^verbatim>\<open>Array.prototype.reverse\<close> reverses the array in place and returns the same reference.\<close>

definition array_reverse :: "ref \<Rightarrow> machine \<Rightarrow> ref \<times> machine" where
  "array_reverse r m =
     (r, if r < length (m_store m)
         then m\<lparr>m_store := (m_store m)[r := reversed (m_store m ! r)]\<rparr> else m)"

text \<open>
  The getter \<^verbatim>\<open>state\<close> returns \<^verbatim>\<open>structuredClone(this._state)\<close>: a copy of the object
  in which every array is a new array with the same contents.
\<close>

definition cloneArray :: "ref \<Rightarrow> machine \<Rightarrow> ref \<times> machine" where
  "cloneArray r m = alloc (deref (m_store m) r) m"

fun cloneEntries :: "(playerId \<times> ref) list \<Rightarrow> machine \<Rightarrow> (playerId \<times> ref) list \<times> machine" where
  "cloneEntries [] m = ([], m)"
| "cloneEntries (kv # rest) m =
     (case cloneArray (snd kv) m of
        (r, m1) \<Rightarrow>
          (case cloneEntries rest m1 of
             (rest', m2) \<Rightarrow> ((fst kv, r) # rest', m2)))"

definition state_get :: "machine \<Rightarrow> stateRefs \<times> machine" where
  "state_get m =
     (let st = m_state m in
      case cloneArray (r_events st) m of
        (ev, m1) \<Rightarrow>
      case cloneArray (r_players st) m1 of
        (pl, m2) \<Rightarrow>
      case cloneEntries (r_hands st) m2 of
        (hs, m3) \<Rightarrow>
      case cloneArray (r_deck st) m3 of
        (dk, m4) \<Rightarrow>
      case cloneArray (r_pile st) m4 of
        (pi, m5) \<Rightarrow>
      case cloneArray (r_last3CardPlayOrColorChanges st) m5 of
        (l3, m6) \<Rightarrow>
          (st\<lparr>r_events := ev, r_players := pl, r_hands := hs, r_deck := dk, r_pile := pi,
              r_last3CardPlayOrColorChanges := l3\<rparr>, m6))"

text \<open>The readers. Each returns its answer and the machine it leaves behind.\<close>

definition nonInfoEvents_m :: "machine \<Rightarrow> ref \<times> machine" where
  "nonInfoEvents_m m =
     (case state_get m of
        (c, m1) \<Rightarrow> alloc (MoveArray (gameEvents (eventsOf (deref (m_store m1) (r_events c))))) m1)"

definition lastTwoNonInfoEvents_m :: "int option \<Rightarrow> machine \<Rightarrow> ref \<times> machine" where
  "lastTwoNonInfoEvents_m ignoredEvents m =
     (case nonInfoEvents_m m of
        (r1, m1) \<Rightarrow>
          (case array_slice (- 2 + (case ignoredEvents of None \<Rightarrow> 0 | Some n \<Rightarrow> n))
                  ignoredEvents r1 m1 of
             (r2, m2) \<Rightarrow> array_reverse r2 m2))"

definition handOf_m :: "playerId \<Rightarrow> machine \<Rightarrow> (error + ref) \<times> machine" where
  "handOf_m p m =
     (case map_of (r_hands (m_state m)) p of
        None \<Rightarrow> (Inl (E_PlayerNotInGame p), m)
      | Some hand \<Rightarrow> (Inr hand, m))"

definition activePlayer_m :: "machine \<Rightarrow> playerId option \<times> machine" where
  "activePlayer_m m =
     (case alloc (EntryArray (r_hands (m_state m))) m of
        (r1, m1) \<Rightarrow>
      case alloc (EntryArray (filter (\<lambda>kv. True) (entriesOf (deref (m_store m1) r1)))) m1 of
        (r2, m2) \<Rightarrow>
      case alloc (IdArray (map fst (entriesOf (deref (m_store m2) r2)))) m2 of
        (r3, m3) \<Rightarrow>
          (let validPlayers = idsOf (deref (m_store m3) r3) in
           (if validPlayers = [] then None
            else Some (validPlayers ! (nat \<bar>r_index (m_state m3)\<bar> mod length validPlayers)),
            m3)))"

definition hasEnded_m :: "machine \<Rightarrow> (error + playerId option) \<times> machine" where
  "hasEnded_m m =
     (if r_ended (m_state m) then
        (case alloc (EntryArray (r_hands (m_state m))) m of
           (r1, m1) \<Rightarrow>
             (case find (\<lambda>kv. cardsOf (deref (m_store m1) (snd kv)) \<noteq> [])
                     (entriesOf (deref (m_store m1) r1)) of
                None \<Rightarrow> (Inl E_TypeError, m1)
              | Some kv \<Rightarrow> (Inr (Some (fst kv)), m1)))
      else (Inr None, m))"

definition expectedCard_m ::
    "bool \<Rightarrow> machine \<Rightarrow> (allCards option \<times> cardColor option) \<times> machine" where
  "expectedCard_m bluffSiteCheck m =
     (let expectedType =
            (case js_at (- 1) (cardsOf (deref (m_store m) (r_pile (m_state m)))) of
               None \<Rightarrow> None
             | Some lastPileCard \<Rightarrow>
                 (if \<not> isColorSwitching (card_type lastPileCard)
                  then Some (card_type lastPileCard) else None));
          expectedColor =
            (case js_at (if bluffSiteCheck then - 3 else - 1)
                    (changesOf (deref (m_store m)
                       (r_last3CardPlayOrColorChanges (m_state m)))) of
               None \<Rightarrow> None
             | Some (IsColor c) \<Rightarrow> Some c
             | Some (IsCard c) \<Rightarrow> card_color c)
      in ((expectedType, expectedColor), m))"

text \<open>\<^verbatim>\<open>checkEvent\<close>, cut as above.\<close>

fun kindCheck_m ::
    "gameEvent \<Rightarrow> bool \<Rightarrow> machine \<Rightarrow> gameEvent \<Rightarrow> (error + error option) \<times> machine" where
  "kindCheck_m (CardPlayed p c) bluffSiteCheck m lastEvent =
     (case (if isColorSwitching (card_type c)
            then (case handOf_m p m of
                    (Inl e, m1) \<Rightarrow> (Inl e, m1)
                  | (Inr hand, m1) \<Rightarrow>
                      (Inr (length (cardsOf (deref (m_store m1) hand)) = 1), m1))
            else (Inr False, m)) of
        (Inl e, m1) \<Rightarrow> (Inl e, m1)
      | (Inr True, m1) \<Rightarrow>
          (Inr (Some (E_MustNotPlayLastCardColorChanging (CardPlayed p c))), m1)
      | (Inr False, m1) \<Rightarrow>
          (case expectedCard_m bluffSiteCheck m1 of
             ((expectedType, expectedColor), m2) \<Rightarrow>
               (if expectedType \<noteq> Some (card_type c)
                   \<and> (case card_color c of Some col \<Rightarrow> Some col | None \<Rightarrow> expectedColor)
                       \<noteq> expectedColor
                then (Inr (Some (E_MustPlayExpectedCard expectedType expectedColor c)), m2)
                else (Inr None, m2))))"
| "kindCheck_m (Draw p) bluffSiteCheck m lastEvent =
     (if isDrawBy p lastEvent then (Inr (Some E_MustNotDrawTwice), m) else (Inr None, m))"
| "kindCheck_m (Pass p) bluffSiteCheck m lastEvent =
     (if \<not> isDrawBy p lastEvent then (Inr (Some E_MustNotPassWithoutDraw), m)
      else (Inr None, m))"
| "kindCheck_m (BluffCalled p) bluffSiteCheck m lastEvent =
     (case lastTwoNonInfoEvents_m None m of
        (r, m1) \<Rightarrow>
          (case movesOf (deref (m_store m1) r) of
             l # sl # rest \<Rightarrow>
               (if isCardPlayedOf (\<lambda>t. t = Switching PlusFour) sl then (Inr None, m1)
                else (Inr (Some E_CannotCallBluff), m1))
           | other \<Rightarrow> (Inr (Some E_CannotCallBluff), m1)))"
| "kindCheck_m (ChooseColor p col) bluffSiteCheck m lastEvent =
     (case lastEvent of
        CardPlayed q c \<Rightarrow>
          (if \<not> isColorSwitching (card_type c) \<or> p \<noteq> q
           then (Inr (Some E_CannotSwitchColors), m) else (Inr None, m))
      | other \<Rightarrow> (Inr (Some E_CannotSwitchColors), m))"

definition checkEvent_m ::
    "gameEvent \<Rightarrow> bool \<Rightarrow> machine \<Rightarrow> (error + error option) \<times> machine" where
  "checkEvent_m event bluffSiteCheck m =
     (let playerCount = length (idsOf (deref (m_store m) (r_players (m_state m)))) in
      if \<not> bluffSiteCheck \<and> playerCount < MIN_PLAYERS
      then (Inr (Some (E_TooFewPlayers playerCount)), m)
      else
        (case (if bluffSiteCheck then (None, m) else activePlayer_m m) of
           (active, m1) \<Rightarrow>
             (if \<not> bluffSiteCheck \<and> Some (event_by event) \<noteq> active
              then (Inr (Some (E_NotPlayersTurn (event_by event))), m1)
              else
                (case hasEnded_m m1 of
                   (Inl e, m2) \<Rightarrow> (Inl e, m2)
                 | (Inr (Some loser), m2) \<Rightarrow> (Inr (Some (E_GameEnded loser)), m2)
                 | (Inr None, m2) \<Rightarrow>
                     (case lastTwoNonInfoEvents_m
                             (if bluffSiteCheck then Some (- 3) else None) m2 of
                        (r, m3) \<Rightarrow>
                          (case movesOf (deref (m_store m3) r) of
                             [] \<Rightarrow> (Inl E_TypeError, m3)
                           | lastEvent # rest \<Rightarrow>
                               (case pendingCheck event lastEvent
                                       (case rest of [] \<Rightarrow> None | sl # q \<Rightarrow> Some sl) of
                                  Some e \<Rightarrow> (Inr (Some e), m3)
                                | None \<Rightarrow>
                                    kindCheck_m event bluffSiteCheck m3 lastEvent)))))))"

text \<open>
  \<^verbatim>\<open>validEvents\<close>. \<^verbatim>\<open>Array.prototype.filter\<close> fixes the number of rounds when it
  starts and reads the element of each round from the array as it then is; an element
  that passes goes into the array that the method returns.
\<close>

fun validEvents_filter ::
    "nat \<Rightarrow> nat \<Rightarrow> ref \<Rightarrow> machine \<Rightarrow> (error + gameEvent list) \<times> machine" where
  "validEvents_filter 0 k r m = (Inr [], m)"
| "validEvents_filter (Suc n) k r m =
     (let allEvents = movesOf (deref (m_store m) r) in
      if k < length allEvents then
        (case checkEvent_m (allEvents ! k) False m of
           (Inl err, m1) \<Rightarrow> (Inl err, m1)
         | (Inr res, m1) \<Rightarrow>
             (case validEvents_filter n (Suc k) r m1 of
                (Inl err, m2) \<Rightarrow> (Inl err, m2)
              | (Inr vs, m2) \<Rightarrow>
                  (Inr (if res = None then allEvents ! k # vs else vs), m2)))
      else validEvents_filter n (Suc k) r m)"

definition validEvents_m :: "playerId \<Rightarrow> machine \<Rightarrow> (error + ref) \<times> machine" where
  "validEvents_m p m =
     (case handOf_m p m of
        (Inl e, m1) \<Rightarrow> (Inl e, m1)
      | (Inr hand, m1) \<Rightarrow>
          (case alloc (MoveArray (map (CardPlayed p) (cardsOf (deref (m_store m1) hand)))) m1 of
             (r1, m2) \<Rightarrow>
          case alloc (MoveArray ([Draw p, BluffCalled p, Pass p, ChooseColor p Red]
                                 @ movesOf (deref (m_store m2) r1))) m2 of
             (r2, m3) \<Rightarrow>
          case validEvents_filter (length (movesOf (deref (m_store m3) r2))) 0 r2 m3 of
             (Inl e, m4) \<Rightarrow> (Inl e, m4)
           | (Inr vs, m4) \<Rightarrow>
               (case alloc (MoveArray vs) m4 of (r3, m5) \<Rightarrow> (Inr r3, m5))))"

text \<open>
  The probe of a bluff call, on the hand of the accused: \<^verbatim>\<open>filter\<close> makes the array of
  the cards that do not switch colours, and \<^verbatim>\<open>some\<close> asks \<^verbatim>\<open>checkEvent\<close> about them
  one after the other, up to the first card that passes.
\<close>

fun bluffProbe_some :: "nat \<Rightarrow> nat \<Rightarrow> ref \<Rightarrow> machine \<Rightarrow> (error + bool) \<times> machine" where
  "bluffProbe_some 0 k r m = (Inr False, m)"
| "bluffProbe_some (Suc n) k r m =
     (let cards = cardsOf (deref (m_store m) r) in
      if k < length cards then
        (case checkEvent_m (CardPlayed ENGINE_ID (cards ! k)) True m of
           (Inl e, m1) \<Rightarrow> (Inl e, m1)
         | (Inr None, m1) \<Rightarrow> (Inr True, m1)
         | (Inr (Some e), m1) \<Rightarrow> bluffProbe_some n (Suc k) r m1)
      else bluffProbe_some n (Suc k) r m)"

definition bluffProbe_m :: "ref \<Rightarrow> machine \<Rightarrow> (error + bool) \<times> machine" where
  "bluffProbe_m lastPlayerHand m =
     (case alloc (CardArray (filter (\<lambda>c. \<not> isColorSwitching (card_type c))
                               (cardsOf (deref (m_store m) lastPlayerHand)))) m of
        (r1, m1) \<Rightarrow> bluffProbe_some (length (cardsOf (deref (m_store m1) r1))) 0 r1 m1)"

text \<open>
  The state that a machine stands for: every reference replaced by the contents of its
  array. In a well-formed machine every reference of the state points into the store.
  \<open>load\<close> lays a state out in a store.
\<close>

definition view :: "machine \<Rightarrow> gameState" where
  "view m =
     (let st = m_state m; store = m_store m in
      \<lparr> shorthandMode = r_shorthandMode st,
        events = eventsOf (deref store (r_events st)),
        index = r_index st,
        players = idsOf (deref store (r_players st)),
        initialSeed = r_initialSeed st,
        stackPlusTwos = r_stackPlusTwos st,
        hands = map (\<lambda>kv. (fst kv, cardsOf (deref store (snd kv)))) (r_hands st),
        deck = cardsOf (deref store (r_deck st)),
        seed = r_seed st,
        ended = r_ended st,
        stackedPlusTwos = r_stackedPlusTwos st,
        turnStep = r_turnStep st,
        pile = cardsOf (deref store (r_pile st)),
        last3CardPlayOrColorChanges =
          changesOf (deref store (r_last3CardPlayOrColorChanges st)) \<rparr>)"

definition refsOf :: "stateRefs \<Rightarrow> ref list" where
  "refsOf st =
     [r_events st, r_players st, r_deck st, r_pile st, r_last3CardPlayOrColorChanges st]
     @ map snd (r_hands st)"

definition wellFormed :: "machine \<Rightarrow> bool" where
  "wellFormed m = list_all (\<lambda>r. r < length (m_store m)) (refsOf (m_state m))"

definition load :: "gameState \<Rightarrow> machine" where
  "load s =
     \<lparr> m_state =
         \<lparr> r_shorthandMode = shorthandMode s,
           r_events = 0,
           r_index = index s,
           r_players = 1,
           r_initialSeed = initialSeed s,
           r_stackPlusTwos = stackPlusTwos s,
           r_hands = zip (map fst (hands s)) [5 ..< 5 + length (hands s)],
           r_deck = 2,
           r_seed = seed s,
           r_ended = ended s,
           r_stackedPlusTwos = stackedPlusTwos s,
           r_turnStep = turnStep s,
           r_pile = 3,
           r_last3CardPlayOrColorChanges = 4 \<rparr>,
       m_store =
         [EventArray (events s), IdArray (players s), CardArray (deck s), CardArray (pile s),
          ChangeArray (last3CardPlayOrColorChanges s)]
         @ map (\<lambda>kv. CardArray (snd kv)) (hands s) \<rparr>"

text \<open>
  What a call may do to a machine without changing anything that was there before it:
  the state object is the same, and the store has only grown.
\<close>

definition grown :: "machine \<Rightarrow> machine \<Rightarrow> bool" where
  "grown m m' =
     (m_state m' = m_state m
      \<and> length (m_store m) \<le> length (m_store m')
      \<and> take (length (m_store m)) (m_store m') = m_store m)"

definition shuffleFrame :: "gameState \<Rightarrow> _" where
  "shuffleFrame s =
     (shorthandMode s, events s, index s, players s, initialSeed s, stackPlusTwos s, hands s,
      ended s, stackedPlusTwos s, turnStep s, pile s, last3CardPlayOrColorChanges s,
      length (deck s))"

definition drawFrame :: "gameState \<Rightarrow> _" where
  "drawFrame s =
     (shorthandMode s, index s, players s, initialSeed s, stackPlusTwos s, hands s,
      ended s, stackedPlusTwos s, turnStep s, last3CardPlayOrColorChanges s)"

definition zeroSeedProps :: gameProps where
  "zeroSeedProps = \<lparr> p_shorthandMode = None, p_stackPlusTwos = None,
                      p_initialSeed = Some (SeedNumber 0), p_noInit = None \<rparr>"

definition defaultProps :: gameProps where
  "defaultProps = \<lparr> p_shorthandMode = None, p_stackPlusTwos = None,
                     p_initialSeed = None, p_noInit = None \<rparr>"

definition elevenIds :: "playerId list" where
  "elevenIds = [''p1'', ''p2'', ''p3'', ''p4'', ''p5'', ''p6'', ''p7'', ''p8'', ''p9'',
                ''p10'', ''p11'']"

text \<open>
  The checks of \<^verbatim>\<open>checkEvent\<close> that come before the checks by kind of event: the
  number of players and the turn (skipped at a bluff site), the end of the game, and the
  three pending windows.
\<close>

definition passesGeneralChecks :: "gameEvent \<Rightarrow> bool \<Rightarrow> gameState \<Rightarrow> bool" where
  "passesGeneralChecks event bluffSiteCheck s =
     ((bluffSiteCheck \<or>
         (\<not> length (players s) < MIN_PLAYERS \<and> Some (event_by event) = activePlayer s))
      \<and> hasEnded s = Inr None
      \<and> (case lastTwoNonInfoEvents (if bluffSiteCheck then Some (- 3) else None) s of
            [] \<Rightarrow> False
          | lastEvent # rest \<Rightarrow>
              pendingCheck event lastEvent (case rest of [] \<Rightarrow> None | sl # r \<Rightarrow> Some sl) = None))"

text \<open>
  Matching a card against an expectation, in the words of the specification: an absent
  expectation is a wildcard, a present one asks for that rank, or for that colour.
\<close>

definition matchesExpectedRank :: "allCards option \<Rightarrow> card \<Rightarrow> bool" where
  "matchesExpectedRank expectedType c =
     (case expectedType of None \<Rightarrow> True | Some t \<Rightarrow> card_type c = t)"

definition matchesExpectedColor :: "cardColor option \<Rightarrow> card \<Rightarrow> bool" where
  "matchesExpectedColor expectedColor c =
     (case expectedColor of None \<Rightarrow> True | Some col \<Rightarrow> card_color c = Some col)"

text \<open>
  A state of a game of two players: the engine has opened with a red one, player \<open>a\<close>
  is to move and holds a colour chooser and a blue two.
\<close>

definition redOneState :: gameState where
  "redOneState =
     \<lparr> shorthandMode = False,
       events = [GameEv (CardPlayed ENGINE_ID (ColouredCard TOne Red)),
                 GameInfo (PlayerJoined ''a''), GameInfo (PlayerJoined ''b'')],
       index = 0,
       players = [''a'', ''b''],
       initialSeed = 1,
       stackPlusTwos = True,
       hands = [(''a'', [SwitchingCard ColorChooser, ColouredCard TTwo Blue]),
                (''b'', [ColouredCard TThree Green, ColouredCard TFour Yellow])],
       deck = [ColouredCard TFive Red, ColouredCard TSix Red],
       seed = 1,
       ended = False,
       stackedPlusTwos = 0,
       turnStep = Plus1,
       pile = [ColouredCard TOne Red],
       last3CardPlayOrColorChanges = [IsCard (ColouredCard TOne Red)] \<rparr>"

text \<open>
  The number of cards of a draw, in the words of the specification: twice the stacked
  count (or 2, without stacking) when the preceding move played a draw-two, else 4 when
  the move two back played a wild-draw-four, else 1.
\<close>

definition claimedDrawCount :: "gameState \<Rightarrow> nat" where
  "claimedDrawCount s =
     (let moves = nonInfoEvents s; n = length moves in
      if 1 \<le> n \<and> isCardPlayedOf (\<lambda>t. t = Coloured PlusTwo) (moves ! (n - 1))
      then (if stackPlusTwos s then 2 * stackedPlusTwos s else 2)
      else if 2 \<le> n \<and> isCardPlayedOf (\<lambda>t. t = Switching PlusFour) (moves ! (n - 2))
      then 4
      else 1)"

text \<open>The state \<open>redOneState\<close> with both the deck and the pile empty.\<close>

definition emptySupplyState :: gameState where
  "emptySupplyState = redOneState\<lparr>deck := [], pile := []\<rparr>"

text \<open>The cards that can still be drawn: the deck, and the pile that is recycled into it.\<close>

definition cardSupply :: "gameState \<Rightarrow> nat" where
  "cardSupply s = length (deck s) + length (pile s)"

text \<open>
  A state of a game of two players with stacking enabled: the engine has opened with a
  red one, \<open>a\<close> has played a red draw-two and \<open>b\<close> a blue one on top of it; \<open>a\<close> is
  to move.
\<close>

definition stackedState :: gameState where
  "stackedState =
     \<lparr> shorthandMode = False,
       events = [GameEv (CardPlayed ENGINE_ID (ColouredCard TOne Red)),
                 GameInfo (PlayerJoined ''a''), GameInfo (PlayerJoined ''b''),
                 GameEv (CardPlayed ''a'' (ColouredCard PlusTwo Red)),
                 GameEv (CardPlayed ''b'' (ColouredCard PlusTwo Blue))],
       index = 2,
       players = [''a'', ''b''],
       initialSeed = 1,
       stackPlusTwos = True,
       hands = [(''a'', [ColouredCard TTwo Blue]),
                (''b'', [ColouredCard TThree Green])],
       deck = [ColouredCard TFive Red, ColouredCard TSix Red, ColouredCard TSeven Red,
               ColouredCard TEight Red, ColouredCard TNine Red],
       seed = 1,
       ended = False,
       stackedPlusTwos = 2,
       turnStep = Plus1,
       pile = [ColouredCard TOne Red, ColouredCard PlusTwo Red, ColouredCard PlusTwo Blue],
       last3CardPlayOrColorChanges =
         [IsCard (ColouredCard TOne Red), IsCard (ColouredCard PlusTwo Red),
          IsCard (ColouredCard PlusTwo Blue)] \<rparr>"

text \<open>
  The bluff-site check of a call by \<open>p\<close>: the state in which the probe runs has the call
  recorded and the turn advanced; the wild-draw-four was a bluff when some card of the
  hand of the accused that does not switch colours passes \<^verbatim>\<open>checkEvent\<close> there, with
  the bluff-site flag.
\<close>

definition bluffSiteState :: "playerId \<Rightarrow> gameState \<Rightarrow> gameState" where
  "bluffSiteState p s = advanceTurn 1 (recordEvent (GameEv (BluffCalled p)) s)"

definition wasBluff :: "playerId \<Rightarrow> card list \<Rightarrow> gameState \<Rightarrow> bool" where
  "wasBluff p accusedHand s =
     list_ex (\<lambda>c. \<not> isColorSwitching (card_type c)
                 \<and> checkEvent (CardPlayed ENGINE_ID c) True (bluffSiteState p s) = Inr None)
       accusedHand"

text \<open>
  A state of a game of two players, in shorthand mode or in full mode: the engine has
  opened with a red one, \<open>a\<close> has played a wild-draw-four while holding a red two and
  has chosen blue; \<open>b\<close> is to move.
\<close>

definition bluffState :: "bool \<Rightarrow> gameState" where
  "bluffState shorthand =
     \<lparr> shorthandMode = shorthand,
       events = GameEv (CardPlayed ENGINE_ID (ColouredCard TOne Red))
                # (if shorthand then []
                   else [GameInfo (PlayerJoined ''a''), GameInfo (PlayerJoined ''b'')])
                @ [GameEv (CardPlayed ''a'' (SwitchingCard PlusFour)),
                   GameEv (ChooseColor ''a'' Blue)],
       index = 1,
       players = [''a'', ''b''],
       initialSeed = 1,
       stackPlusTwos = True,
       hands = [(''a'', [ColouredCard TTwo Red]),
                (''b'', [ColouredCard TThree Green])],
       deck = [ColouredCard TFive Red, ColouredCard TSix Red, ColouredCard TSeven Red,
               ColouredCard TEight Red, ColouredCard TNine Red, ColouredCard TZero Red],
       seed = 1,
       ended = False,
       stackedPlusTwos = 0,
       turnStep = Plus1,
       pile = [ColouredCard TOne Red, SwitchingCard PlusFour],
       last3CardPlayOrColorChanges =
         [IsCard (ColouredCard TOne Red), IsCard (SwitchingCard PlusFour), IsColor Blue] \<rparr>"

text \<open>
  The state \<open>stackedState\<close> with an empty deck: three cards are left on the pile, and a
  draw has to take four.
\<close>

definition exhaustingState :: gameState where
  "exhaustingState = stackedState\<lparr>deck := []\<rparr>"

text \<open>
  Organic play, in the words of the specification: the public calls that a list of
  retained events stands for (joins, leaves and the moves of the players, up to a
  game-ended event), made one after the other on an engine. The outcome is the state
  reached if every call returns, and the error of the first call that throws otherwise.
\<close>

datatype apiCall = CallJoin playerId | CallLeave playerId | CallMove gameEvent

fun callsOf :: "event list \<Rightarrow> apiCall list" where
  "callsOf [] = []"
| "callsOf (GameInfo (GameEnded loser) # es) = []"
| "callsOf (GameInfo (PlayerJoined p) # es) = CallJoin p # callsOf es"
| "callsOf (GameInfo (PlayerLeft p) # es) = CallLeave p # callsOf es"
| "callsOf (GameInfo i # es) = callsOf es"
| "callsOf (GameEv g # es) =
     (if event_by g = ENGINE_ID then callsOf es else CallMove g # callsOf es)"

fun apiStep :: "apiCall \<Rightarrow> gameState \<Rightarrow> (error + unit) \<times> gameState" where
  "apiStep (CallJoin p) s = join [p] s"
| "apiStep (CallLeave p) s = leave [p] s"
| "apiStep (CallMove g) s =
     (case processNewEvent g s of
        (Inl e, s1) \<Rightarrow> (Inl e, s1)
      | (Inr r, s1) \<Rightarrow> (Inr (), s1))"

fun organicPlay :: "apiCall list \<Rightarrow> gameState \<Rightarrow> error + gameState" where
  "organicPlay [] s = Inr s"
| "organicPlay (c # cs) s =
     (case apiStep c s of
        (Inl e, s1) \<Rightarrow> Inl e
      | (Inr u, s1) \<Rightarrow> organicPlay cs s1)"

text \<open>The index that a jump to \<open>i\<close> retains, and the configuration of a state.\<close>

definition jumpTarget :: "int \<Rightarrow> gameState \<Rightarrow> nat" where
  "jumpTarget i s = nat (if i < 0 then int (length (events s)) + i else i)"

definition sameConfig :: "gameState \<Rightarrow> gameProps" where
  "sameConfig s =
     \<lparr> p_shorthandMode = Some (shorthandMode s),
       p_stackPlusTwos = Some (stackPlusTwos s),
       p_initialSeed = Some (SeedNumber (initialSeed s)),
       p_noInit = None \<rparr>"

definition seedOneProps :: "bool \<Rightarrow> gameProps" where
  "seedOneProps stack =
     \<lparr> p_shorthandMode = None, p_stackPlusTwos = Some stack,
       p_initialSeed = Some (SeedNumber 1), p_noInit = None \<rparr>"

text \<open>
  The engine made with seed 1 after \<^verbatim>\<open>join("a", "b")\<close>, and after the \<^verbatim>\<open>draw("a")\<close>
  that follows.
\<close>

definition joinedPair :: gameState where
  "joinedPair = snd (join [''a'', ''b''] (Game_new (seedOneProps True) 0))"

definition afterDraw :: gameState where
  "afterDraw = snd (draw ''a'' joinedPair)"

text \<open>
  A full-mode state whose log holds, after the opening card, the two administrative
  events of a recycled pile.
\<close>

definition recycledLogState :: gameState where
  "recycledLogState =
     redOneState\<lparr>events := [GameEv (CardPlayed ENGINE_ID (ColouredCard TOne Red)),
                              GameInfo (SeedChanged 1), GameInfo PileToDeck]\<rparr>"


text \<open>
  The players that have joined an engine, along the calls made on it. A new engine has
  none, and a restored engine those of its snapshot. A call of \<^verbatim>\<open>join\<close> adds the ids
  that it has appended to the list of players, whether it returns or throws on the way.
  A jump that returns has replaced the state by that of the replay, in which the players
  of the player-joined events among the retained events, up to a game-ended event, have
  joined. The id \<^verbatim>\<open>__proto__\<close> is left out: a player of that name joins without an
  entry of its own in the hands object.
\<close>

fun joinsReplayed :: "event list \<Rightarrow> playerId list" where
  "joinsReplayed [] = []"
| "joinsReplayed (GameInfo (GameEnded loser) # es) = []"
| "joinsReplayed (GameInfo (PlayerJoined p) # es) = p # joinsReplayed es"
| "joinsReplayed (ev # es) = joinsReplayed es"

inductive hasJoined :: "playerId set \<Rightarrow> gameState \<Rightarrow> bool" where
  new_engine: "hasJoined {} (Game_new props entropy)"
| restored_engine: "Game_deserialise j = Inr s \<Longrightarrow> hasJoined (fst ` set (hands s)) s"
| after_join:
    "hasJoined J s \<Longrightarrow>
     hasJoined (J \<union> (set (drop (length (players s)) (players (snd (join playerIds s))))
                      - {''__proto__''}))
       (snd (join playerIds s))"
| after_leave: "hasJoined J s \<Longrightarrow> hasJoined J (snd (leave playerIds s))"
| after_move: "hasJoined J s \<Longrightarrow> hasJoined J (snd (processNewEvent event s))"
| after_jump:
    "hasJoined J s \<Longrightarrow> jumpToEventIndex i entropy s = (Inr tail, s') \<Longrightarrow>
     hasJoined (set (joinsReplayed (take (jumpTarget i s + 1) (events s))) - {''__proto__''}) s'"
| after_failed_jump:
    "hasJoined J s \<Longrightarrow> jumpToEventIndex i entropy s = (Inl e, s') \<Longrightarrow> hasJoined J s'"

text \<open>
  What every such state satisfies: the hands object has the key order of a JavaScript
  object, and the log of a shorthand state holds no administrative event.
\<close>

definition stateInv :: "gameState \<Rightarrow> bool" where
  "stateInv s =
     (canonicalKeys (map fst (hands s))
      \<and> (shorthandMode s \<longrightarrow> list_all isGameEv (events s)))"



section \<open>Verification\<close>

lemma recordEvent_frame [simp]:
  "shorthandMode (recordEvent ev s) = shorthandMode s"
  "index (recordEvent ev s) = index s"
  "players (recordEvent ev s) = players s"
  "initialSeed (recordEvent ev s) = initialSeed s"
  "stackPlusTwos (recordEvent ev s) = stackPlusTwos s"
  "hands (recordEvent ev s) = hands s"
  "deck (recordEvent ev s) = deck s"
  "seed (recordEvent ev s) = seed s"
  "ended (recordEvent ev s) = ended s"
  "stackedPlusTwos (recordEvent ev s) = stackedPlusTwos s"
  "turnStep (recordEvent ev s) = turnStep s"
  "pile (recordEvent ev s) = pile s"
  "last3CardPlayOrColorChanges (recordEvent ev s) = last3CardPlayOrColorChanges s"
  by (simp_all add: recordEvent_def split: event.split)

lemma random_frame [simp]:
  "shorthandMode (snd (random s)) = shorthandMode s"
  "events (snd (random s)) = events s"
  "index (snd (random s)) = index s"
  "players (snd (random s)) = players s"
  "initialSeed (snd (random s)) = initialSeed s"
  "stackPlusTwos (snd (random s)) = stackPlusTwos s"
  "hands (snd (random s)) = hands s"
  "deck (snd (random s)) = deck s"
  "ended (snd (random s)) = ended s"
  "stackedPlusTwos (snd (random s)) = stackedPlusTwos s"
  "turnStep (snd (random s)) = turnStep s"
  "pile (snd (random s)) = pile s"
  "last3CardPlayOrColorChanges (snd (random s)) = last3CardPlayOrColorChanges s"
  by (simp_all add: random_def Let_def)

lemma shuffleLoop_shuffleFrame: "shuffleFrame (shuffleLoop k s) = shuffleFrame s"
proof (induction k arbitrary: s)
  case 0
  show ?case by simp
next
  case (Suc k)
  obtain r s1 where r: "random s = (r, s1)" by (cases "random s")
  then have s1: "s1 = snd (random s)" by simp
  have "shuffleFrame (shuffleLoop (Suc k) s) =
        shuffleFrame (s1\<lparr>deck := (deck s1)[Suc k := deck s1 ! ((r * (Suc k + 1)) div 4294967296),
                                  (r * (Suc k + 1)) div 4294967296 := deck s1 ! Suc k]\<rparr>)"
    using r by (simp add: Let_def Suc.IH)
  also have "\<dots> = shuffleFrame s"
    by (simp add: shuffleFrame_def s1)
  finally show ?case .
qed

lemma shuffleLoop_frame [simp]:
  "shorthandMode (shuffleLoop k s) = shorthandMode s"
  "events (shuffleLoop k s) = events s"
  "index (shuffleLoop k s) = index s"
  "players (shuffleLoop k s) = players s"
  "initialSeed (shuffleLoop k s) = initialSeed s"
  "stackPlusTwos (shuffleLoop k s) = stackPlusTwos s"
  "hands (shuffleLoop k s) = hands s"
  "ended (shuffleLoop k s) = ended s"
  "stackedPlusTwos (shuffleLoop k s) = stackedPlusTwos s"
  "turnStep (shuffleLoop k s) = turnStep s"
  "pile (shuffleLoop k s) = pile s"
  "last3CardPlayOrColorChanges (shuffleLoop k s) = last3CardPlayOrColorChanges s"
  "length (deck (shuffleLoop k s)) = length (deck s)"
  using shuffleLoop_shuffleFrame [of k s] by (simp_all add: shuffleFrame_def)

lemma shuffleDeck_frame [simp]:
  "shorthandMode (shuffleDeck s) = shorthandMode s"
  "index (shuffleDeck s) = index s"
  "players (shuffleDeck s) = players s"
  "initialSeed (shuffleDeck s) = initialSeed s"
  "stackPlusTwos (shuffleDeck s) = stackPlusTwos s"
  "hands (shuffleDeck s) = hands s"
  "ended (shuffleDeck s) = ended s"
  "stackedPlusTwos (shuffleDeck s) = stackedPlusTwos s"
  "turnStep (shuffleDeck s) = turnStep s"
  "pile (shuffleDeck s) = pile s"
  "last3CardPlayOrColorChanges (shuffleDeck s) = last3CardPlayOrColorChanges s"
  "length (deck (shuffleDeck s)) = length (deck s)"
  by (simp_all add: shuffleDeck_def Let_def)

lemma init_frame [simp]:
  "shorthandMode (init s) = shorthandMode s"
  "index (init s) = index s"
  "players (init s) = players s"
  "initialSeed (init s) = initialSeed s"
  "stackPlusTwos (init s) = stackPlusTwos s"
  "hands (init s) = hands s"
  "ended (init s) = ended s"
  "stackedPlusTwos (init s) = stackedPlusTwos s"
  "turnStep (init s) = turnStep s"
  by (simp_all add: init_def Let_def split: option.split prod.split)

lemma Game_new_fields [simp]:
  "shorthandMode (Game_new props e) = (p_shorthandMode props = Some True)"
  "index (Game_new props e) = 0"
  "players (Game_new props e) = []"
  "stackPlusTwos (Game_new props e) = (case p_stackPlusTwos props of None \<Rightarrow> True | Some b \<Rightarrow> b)"
  "hands (Game_new props e) = []"
  "ended (Game_new props e) = False"
  "stackedPlusTwos (Game_new props e) = 0"
  "turnStep (Game_new props e) = Plus1"
  by (simp_all add: Game_new_def Let_def)

lemma Game_new_initialSeed:
  "initialSeed (Game_new props e) =
     (if truthySeed (p_initialSeed props) then
        (case p_initialSeed props of
           Some (SeedString str) \<Rightarrow> cyrb128 str
         | Some (SeedNumber n) \<Rightarrow> n
         | None \<Rightarrow> uint e)
      else uint e)"
  by (simp add: Game_new_def Let_def)

lemma Game_new_truthy:
  "truthySeed (p_initialSeed props) \<Longrightarrow> Game_new props e1 = Game_new props e2"
  by (cases "p_initialSeed props") (simp_all add: Game_new_def)

text \<open>
  Claim C1. Two engines made with the same seed and driven by the same calls have equal
  states. The constructor tests the seed for truthiness, so the seed 0 (like the empty
  string) counts as absent and the engine draws a seed of its own: two engines made with
  \<^verbatim>\<open>initialSeed: 0\<close> differ already in their initial state as soon as the two draws
  from \<^verbatim>\<open>crypto.getRandomValues\<close> differ. For every truthy seed the constructor does
  not depend on that draw (\<open>Game_new_truthy\<close>).
\<close>

theorem C1_zero_seed_not_deterministic:
  "Game_new zeroSeedProps 1 \<noteq> Game_new zeroSeedProps 2"
proof
  assume "Game_new zeroSeedProps 1 = Game_new zeroSeedProps 2"
  then have "initialSeed (Game_new zeroSeedProps 1) = initialSeed (Game_new zeroSeedProps 2)"
    by simp
  then show False
    by (simp add: Game_new_initialSeed zeroSeedProps_def)
qed


lemma deckTopCard_frame [simp]:
  "shorthandMode (snd (deckTopCard s)) = shorthandMode s"
  "index (snd (deckTopCard s)) = index s"
  "players (snd (deckTopCard s)) = players s"
  "initialSeed (snd (deckTopCard s)) = initialSeed s"
  "stackPlusTwos (snd (deckTopCard s)) = stackPlusTwos s"
  "hands (snd (deckTopCard s)) = hands s"
  "ended (snd (deckTopCard s)) = ended s"
  "stackedPlusTwos (snd (deckTopCard s)) = stackedPlusTwos s"
  "turnStep (snd (deckTopCard s)) = turnStep s"
  "last3CardPlayOrColorChanges (snd (deckTopCard s)) = last3CardPlayOrColorChanges s"
  by (simp_all add: deckTopCard_def Let_def)

lemma deckTopCard_drawFrame: "drawFrame (snd (deckTopCard s)) = drawFrame s"
  by (simp add: drawFrame_def)

lemma drawCards_drawFrame: "drawFrame (snd (drawCards n s)) = drawFrame s"
proof (induction n arbitrary: s)
  case 0
  show ?case by simp
next
  case (Suc n)
  obtain r s1 where d: "deckTopCard s = (r, s1)" by (cases "deckTopCard s")
  then have s1: "drawFrame s1 = drawFrame s"
    using deckTopCard_drawFrame [of s] by simp
  show ?case
  proof (cases r)
    case (Inl e)
    then show ?thesis using d s1 by simp
  next
    case (Inr c)
    obtain r2 s2 where d2: "drawCards n s1 = (r2, s2)" by (cases "drawCards n s1")
    then have "drawFrame s2 = drawFrame s1"
      using Suc.IH [of s1] by simp
    then show ?thesis using d d2 s1 Inr by (cases r2) simp_all
  qed
qed

lemma drawCards_frame [simp]:
  "shorthandMode (snd (drawCards n s)) = shorthandMode s"
  "index (snd (drawCards n s)) = index s"
  "players (snd (drawCards n s)) = players s"
  "initialSeed (snd (drawCards n s)) = initialSeed s"
  "stackPlusTwos (snd (drawCards n s)) = stackPlusTwos s"
  "hands (snd (drawCards n s)) = hands s"
  "ended (snd (drawCards n s)) = ended s"
  "stackedPlusTwos (snd (drawCards n s)) = stackedPlusTwos s"
  "turnStep (snd (drawCards n s)) = turnStep s"
  "last3CardPlayOrColorChanges (snd (drawCards n s)) = last3CardPlayOrColorChanges s"
  using drawCards_drawFrame [of n s] by (simp_all add: drawFrame_def)

lemma obj_define_keys: "fst ` set (obj_define obj k v) = insert k (fst ` set obj)"
proof -
  have ins: "fst ` set (insertIndexKey n k v obj) = insert k (fst ` set obj)" for n
    by (induction obj) (auto split: option.split)
  have upd: "k \<in> fst ` set obj \<Longrightarrow>
      fst ` set (map (\<lambda>kv. if fst kv = k then (k, v) else kv) obj) = fst ` set obj"
    by (induction obj) auto
  show ?thesis
    using ins upd by (auto simp: obj_define_def split: option.split)
qed

lemma map_of_obj_define: "map_of (obj_define obj k v) = (map_of obj)(k \<mapsto> v)"
proof (rule ext)
  fix k'
  have ins: "map_of (insertIndexKey n k v obj) k' = (if k' = k then Some v else map_of obj k')"
    if "k \<notin> fst ` set obj" for n
    using that by (induction obj) (auto split: option.split)
  have upd: "map_of (map (\<lambda>kv. if fst kv = k then (k, v) else kv) obj) k' =
             (if k' = k \<and> k \<in> fst ` set obj then Some v else map_of obj k')"
  proof (induction obj)
    case Nil
    show ?case by simp
  next
    case (Cons kv obj)
    show ?case
    proof (cases "k \<in> fst ` set obj")
      case True
      then show ?thesis using Cons by (cases kv) auto
    next
      case False
      then have "map_of obj k = None"
        by (simp add: map_of_eq_None_iff)
      then show ?thesis using False Cons by (cases kv) auto
    qed
  qed
  have app: "map_of (obj @ [(k, v)]) k' = (if k' = k then Some v else map_of obj k')"
    if "k \<notin> fst ` set obj"
    using that by (induction obj) auto
  show "map_of (obj_define obj k v) k' = ((map_of obj)(k \<mapsto> v)) k'"
  proof (cases "k \<in> fst ` set obj")
    case True
    then show ?thesis using upd by (simp add: obj_define_def)
  next
    case False
    show ?thesis
    proof (cases "arrayIndex k")
      case None
      then show ?thesis using False app [OF False] by (simp add: obj_define_def)
    next
      case (Some n)
      then show ?thesis using False ins [OF False, of n] by (simp add: obj_define_def)
    qed
  qed
qed

lemma obj_set_own:
  "k \<noteq> ''__proto__'' \<or> k \<in> fst ` set obj \<Longrightarrow> obj_set obj k v = obj_define obj k v"
  by (auto simp: obj_set_def)

lemma obj_set_proto:
  "''__proto__'' \<notin> fst ` set obj \<Longrightarrow> obj_set obj ''__proto__'' v = obj"
  by (simp add: obj_set_def)

lemma obj_set_keys:
  "fst ` set (obj_set obj k v) =
     (if k = ''__proto__'' \<and> k \<notin> fst ` set obj then fst ` set obj
      else insert k (fst ` set obj))"
  by (auto simp: obj_set_def obj_define_keys)

lemma map_of_obj_set:
  "k \<noteq> ''__proto__'' \<or> k \<in> fst ` set obj \<Longrightarrow>
   map_of (obj_set obj k v) = (map_of obj)(k \<mapsto> v)"
  by (simp add: obj_set_own map_of_obj_define)

lemma handOf_in_keys: "handOf p s = Inr hand \<Longrightarrow> p \<in> fst ` set (hands s)"
  by (auto simp: handOf_def split: option.splits dest: map_of_SomeD intro: rev_image_eqI)

lemma handOf_setHand [simp]:
  "q \<noteq> ''__proto__'' \<or> q \<in> fst ` set (hands s) \<Longrightarrow>
   handOf p (setHand q hand s) = (if p = q then Inr hand else handOf p s)"
  by (simp add: handOf_def setHand_def map_of_obj_set)

lemma handOf_setHand_own:
  "handOf q s = Inr hand0 \<Longrightarrow>
   handOf p (setHand q hand s) = (if p = q then Inr hand else handOf p s)"
  using handOf_in_keys [of q s hand0] by simp

lemma length_DECK: "length DECK = 108"
  by (simp add: DECK_def cardColor_options_def twoCardTypes_def)

lemma findIndex_less: "findIndex P xs = Some i \<Longrightarrow> i < length xs"
  by (induction xs arbitrary: i) (auto split: if_splits)

lemma length_deck_init: "length (deck (init s)) = 107"
proof -
  have "length (deck (shuffleDeck (s\<lparr>deck := DECK\<rparr>))) = 108"
    by (simp add: length_DECK)
  then show ?thesis
    by (auto simp: init_def Let_def split: option.split prod.split dest: findIndex_less)
qed

lemma length_deck_Game_new:
  "p_noInit props \<noteq> Some True \<Longrightarrow> length (deck (Game_new props e)) = 107"
  by (simp add: Game_new_def Let_def length_deck_init)

lemma deckTopCard_nonempty:
  "deck s \<noteq> [] \<Longrightarrow> deckTopCard s = (Inr (hd (deck s)), s\<lparr>deck := tl (deck s)\<rparr>)"
  by (simp add: deckTopCard_def)

lemma drawCards_deck:
  "n \<le> length (deck s) \<Longrightarrow>
   drawCards n s = (Inr (take n (deck s)), s\<lparr>deck := drop n (deck s)\<rparr>)"
proof (induction n arbitrary: s)
  case 0
  show ?case by simp
next
  case (Suc n)
  then have ne: "deck s \<noteq> []" by auto
  have "n \<le> length (deck (s\<lparr>deck := tl (deck s)\<rparr>))"
    using Suc.prems by simp
  from Suc.IH [OF this] show ?case
    using ne by (simp add: deckTopCard_nonempty take_Suc drop_Suc)
qed

lemma joinLoop_deck:
  "7 * length ids \<le> length (deck s) \<Longrightarrow>
   fst (joinLoop ids s) = Inr ()
   \<and> players (snd (joinLoop ids s)) = players s @ ids
   \<and> fst ` set (hands (snd (joinLoop ids s))) = fst ` set (hands s) \<union> (set ids - {''__proto__''})
   \<and> length (deck (snd (joinLoop ids s))) = length (deck s) - 7 * length ids"
proof (induction ids arbitrary: s)
  case Nil
  show ?case by simp
next
  case (Cons p ps)
  let ?s1 = "s\<lparr>deck := drop 7 (deck s)\<rparr>"
  let ?s2 = "recordEvent (GameInfo (PlayerJoined p))
               (setHand p (take 7 (deck s)) (?s1\<lparr>players := players ?s1 @ [p]\<rparr>))"
  have d: "drawCards 7 s = (Inr (take 7 (deck s)), ?s1)"
    using Cons.prems by (intro drawCards_deck) simp
  have step: "joinLoop (p # ps) s = joinLoop ps ?s2"
    using d by simp
  have "7 * length ps \<le> length (deck ?s2)"
    using Cons.prems by (simp add: setHand_def)
  from Cons.IH [OF this] show ?case
    unfolding step using Cons.prems by (auto simp: setHand_def obj_set_keys)
qed

lemma leave_hands: "hands (snd (leave ids s)) = hands s"
  by (induction ids arbitrary: s) simp_all

lemma ENGINE_ID_notin_elevenIds: "find (\<lambda>p. p = ENGINE_ID \<or> \<not> playerId_safeParse p) elevenIds = None"
  by (simp add: elevenIds_def ENGINE_ID_def playerId_safeParse_def)

text \<open>
  Claim C8. \<^verbatim>\<open>join\<close> keeps the number of players at 10 or below. The method compares
  the number of players with 10 once, for equality, before it adds all the ids of the
  call: on a new game, one call with eleven ids succeeds and leaves eleven players (and
  from then on the count never equals 10 again).
\<close>

theorem C8_eleven_players_join:
  "fst (join elevenIds (Game_new defaultProps e)) = Inr ()
   \<and> length (players (snd (join elevenIds (Game_new defaultProps e)))) = 11"
proof -
  let ?g = "Game_new defaultProps e"
  have len: "length (deck ?g) = 107"
    by (rule length_deck_Game_new) (simp add: defaultProps_def)
  have "7 * length elevenIds \<le> length (deck ?g)"
    by (simp add: len elevenIds_def)
  from joinLoop_deck [OF this]
  have "fst (joinLoop elevenIds ?g) = Inr ()"
    and "players (snd (joinLoop elevenIds ?g)) = players ?g @ elevenIds"
    by simp_all
  moreover have "join elevenIds ?g = joinLoop elevenIds ?g"
    by (simp add: join_def MAX_PLAYERS_def ENGINE_ID_notin_elevenIds)
  ultimately show ?thesis
    by (simp add: elevenIds_def)
qed

text \<open>
  Claim C9 as stated fails after a leave: \<^verbatim>\<open>leave\<close> removes the player from
  \<open>players\<close> only. On a new game, after \<^verbatim>\<open>join("a", "b")\<close> and \<^verbatim>\<open>leave("a")\<close>, the
  call has succeeded, \<open>a\<close> is no longer a player, and \<open>a\<close> still has an entry in the
  hands object.
\<close>

theorem C9_counterexample:
  "fst (leave [''a''] (snd (join [''a'', ''b''] (Game_new defaultProps 0)))) = Inr ()
   \<and> ''a'' \<notin> set (players (snd (leave [''a''] (snd (join [''a'', ''b''] (Game_new defaultProps 0))))))
   \<and> ''a'' \<in> fst ` set (hands (snd (leave [''a''] (snd (join [''a'', ''b''] (Game_new defaultProps 0))))))"
proof -
  let ?g = "Game_new defaultProps 0"
  let ?j = "snd (join [''a'', ''b''] ?g)"
  have len: "length (deck ?g) = 107"
    by (rule length_deck_Game_new) (simp add: defaultProps_def)
  have "7 * length [''a'', ''b''] \<le> length (deck ?g)"
    by (simp add: len)
  from joinLoop_deck [OF this]
  have pl: "players (snd (joinLoop [''a'', ''b''] ?g)) = [''a'', ''b'']"
    and ha: "fst ` set (hands (snd (joinLoop [''a'', ''b''] ?g))) = {''a'', ''b''}"
    by auto
  have j: "join [''a'', ''b''] ?g = joinLoop [''a'', ''b''] ?g"
    by (simp add: join_def MAX_PLAYERS_def ENGINE_ID_def playerId_safeParse_def)
  have "fst (leave [''a''] ?j) = Inr ()" "''a'' \<notin> set (players (snd (leave [''a''] ?j)))"
    using pl by (simp_all add: j)
  moreover have "''a'' \<in> fst ` set (hands (snd (leave [''a''] ?j)))"
    unfolding leave_hands using ha by (simp add: j)
  ultimately show ?thesis by simp
qed

lemma checkEvent_kindCheck:
  assumes "passesGeneralChecks event b s"
  shows "checkEvent event b s =
         kindCheck event b s (hd (lastTwoNonInfoEvents (if b then Some (- 3) else None) s))"
  using assms
  by (cases "lastTwoNonInfoEvents (if b then Some (- 3) else None) s")
     (auto simp: passesGeneralChecks_def checkEvent_def Let_def)

lemma expectedCard_False:
  "expectedCard False s =
     ((if pile s = [] \<or> isColorSwitching (card_type (last (pile s))) then None
       else Some (card_type (last (pile s)))),
      (if last3CardPlayOrColorChanges s = [] then None
       else (case last (last3CardPlayOrColorChanges s) of
               IsColor col \<Rightarrow> Some col
             | IsCard c \<Rightarrow> card_color c)))"
proof -
  have at: "js_at (- 1) xs = (if xs = [] then None else Some (last xs))" for xs :: "'a list"
    by (cases xs rule: rev_cases) (simp_all add: js_at_def)
  show ?thesis
    by (simp add: expectedCard_def at Let_def)
qed

text \<open>
  Claim C6, as amended. For a played card that passes the checks on the number of players,
  the turn, the end of the game and the pending windows, and that is not a
  colour-switching card played as the last card of the hand, the validator answers
  must-play-expected-card exactly when the card carries a colour, the expected rank is
  not the rank of the card (an absent expected rank is the rank of no card) and the
  expected colour is not the colour of the card (an absent expected colour is the colour
  of no card); a colour-switching card, which carries no colour, is never rejected by
  this check. The expected rank is the rank of the top card of the pile unless that card
  switches colours, the expected colour is the colour of the last entry of the colour
  history.
\<close>

theorem C6_expected_card_check:
  assumes "passesGeneralChecks (CardPlayed p c) False s"
    and "isColorSwitching (card_type c) \<longrightarrow> (\<exists>hand. handOf p s = Inr hand \<and> length hand \<noteq> 1)"
  shows "checkEvent (CardPlayed p c) False s =
           (if (\<exists>t col. c = ColouredCard t col
                  \<and> fst (expectedCard False s) \<noteq> Some (Coloured t)
                  \<and> snd (expectedCard False s) \<noteq> Some col)
            then Inr (Some (E_MustPlayExpectedCard
                              (fst (expectedCard False s)) (snd (expectedCard False s)) c))
            else Inr None)
         \<and> fst (expectedCard False s) =
             (if pile s = [] \<or> isColorSwitching (card_type (last (pile s))) then None
              else Some (card_type (last (pile s))))
         \<and> snd (expectedCard False s) =
             (if last3CardPlayOrColorChanges s = [] then None
              else (case last (last3CardPlayOrColorChanges s) of
                      IsColor col \<Rightarrow> Some col
                    | IsCard c' \<Rightarrow> card_color c'))"
proof -
  have "checkEvent (CardPlayed p c) False s =
        kindCheck (CardPlayed p c) False s (hd (lastTwoNonInfoEvents None s))"
    using checkEvent_kindCheck [OF assms(1)] by simp
  also have "\<dots> =
           (if (\<exists>t col. c = ColouredCard t col
                  \<and> fst (expectedCard False s) \<noteq> Some (Coloured t)
                  \<and> snd (expectedCard False s) \<noteq> Some col)
            then Inr (Some (E_MustPlayExpectedCard
                              (fst (expectedCard False s)) (snd (expectedCard False s)) c))
            else Inr None)"
  proof (cases c)
    case (ColouredCard t col)
    then show ?thesis
      by (cases "expectedCard False s") auto
  next
    case (SwitchingCard t)
    then obtain hand where "handOf p s = Inr hand" "length hand \<noteq> 1"
      using assms(2) by auto
    then show ?thesis
      using SwitchingCard by (cases "expectedCard False s") auto
  qed
  finally show ?thesis
    by (simp add: expectedCard_False)
qed

lemma redOneState_general:
  "passesGeneralChecks (CardPlayed ''a'' c) False redOneState"
  by (simp add: passesGeneralChecks_def redOneState_def MIN_PLAYERS_def activePlayer_def
      hasEnded_def lastTwoNonInfoEvents_def nonInfoEvents_def js_slice_def pendingCheck_def
      ENGINE_ID_def)

text \<open>
  Claim C6 as stated fails for a colour chooser played on a red one by a player who holds
  two cards: the card has neither the expected rank nor the expected colour, and the
  validator accepts it.
\<close>

theorem C6_counterexample:
  "passesGeneralChecks (CardPlayed ''a'' (SwitchingCard ColorChooser)) False redOneState
   \<and> handOf ''a'' redOneState = Inr [SwitchingCard ColorChooser, ColouredCard TTwo Blue]
   \<and> expectedCard False redOneState = (Some (Coloured TOne), Some Red)
   \<and> \<not> matchesExpectedRank (Some (Coloured TOne)) (SwitchingCard ColorChooser)
   \<and> \<not> matchesExpectedColor (Some Red) (SwitchingCard ColorChooser)
   \<and> checkEvent (CardPlayed ''a'' (SwitchingCard ColorChooser)) False redOneState = Inr None"
proof -
  have h: "handOf ''a'' redOneState = Inr [SwitchingCard ColorChooser, ColouredCard TTwo Blue]"
    by (simp add: handOf_def redOneState_def)
  have e: "expectedCard False redOneState = (Some (Coloured TOne), Some Red)"
    by (simp add: expectedCard_False redOneState_def)
  have "checkEvent (CardPlayed ''a'' (SwitchingCard ColorChooser)) False redOneState = Inr None"
    by (simp add: checkEvent_kindCheck [OF redOneState_general] h e)
  then show ?thesis
    using h e redOneState_general
    by (simp add: matchesExpectedRank_def matchesExpectedColor_def)
qed

text \<open>An instance of C6: a blue two on a red one is rejected.\<close>

theorem C6_witness:
  "passesGeneralChecks (CardPlayed ''a'' (ColouredCard TTwo Blue)) False redOneState
   \<and> checkEvent (CardPlayed ''a'' (ColouredCard TTwo Blue)) False redOneState
       = Inr (Some (E_MustPlayExpectedCard (Some (Coloured TOne)) (Some Red)
                      (ColouredCard TTwo Blue)))"
proof -
  have e: "expectedCard False redOneState = (Some (Coloured TOne), Some Red)"
    by (simp add: expectedCard_False redOneState_def)
  show ?thesis
    using C6_expected_card_check [of "''a''" "ColouredCard TTwo Blue" redOneState]
      redOneState_general [of "ColouredCard TTwo Blue"]
    by (simp add: e)
qed

lemma js_slice_last2: "js_slice (- 2) None xs = drop (length xs - 2) xs"
  by (simp add: js_slice_def Let_def nat_diff_distrib' max_def)

lemma lastTwoNonInfoEvents_None:
  "lastTwoNonInfoEvents None s = take 2 (rev (nonInfoEvents s))"
  by (simp add: lastTwoNonInfoEvents_def js_slice_last2 take_rev)

lemma toDraw_claimed:
  assumes "lastTwoNonInfoEvents None s = l # rest"
  shows "toDraw s l (case rest of [] \<Rightarrow> None | sl # r \<Rightarrow> Some sl) = claimedDrawCount s"
proof -
  have t: "take 2 (rev (nonInfoEvents s)) = l # rest"
    using assms by (simp add: lastTwoNonInfoEvents_None)
  show ?thesis
  proof (cases "rev (nonInfoEvents s)")
    case Nil
    then show ?thesis using t by simp
  next
    case (Cons x ys)
    note c1 = this
    show ?thesis
    proof (cases ys)
      case Nil
      then have "nonInfoEvents s = [x]" using c1 by (simp add: rev_eq_Cons_iff)
      moreover have "l = x" "rest = []" using t c1 Nil by simp_all
      ultimately show ?thesis
        by (simp add: toDraw_def claimedDrawCount_def Let_def)
    next
      case (Cons y zs)
      then have m: "nonInfoEvents s = rev zs @ [y, x]"
        using c1 by (simp add: rev_eq_Cons_iff)
      have "l = x" "rest = [y]" using t c1 Cons by simp_all
      then show ?thesis
        by (simp add: toDraw_def claimedDrawCount_def Let_def m nth_append)
    qed
  qed
qed

lemma deckTopCard_supply:
  assumes "0 < cardSupply s"
  shows "\<exists>c s'. deckTopCard s = (Inr c, s') \<and> cardSupply s' + 1 = cardSupply s"
proof (cases "deck s = []")
  case False
  then show ?thesis
    by (simp add: deckTopCard_nonempty cardSupply_def) 
next
  case True
  then have p: "pile s \<noteq> []" using assms by (simp add: cardSupply_def)
  have "length (deck (shuffleDeck (s\<lparr>deck := pile s\<rparr>))) = length (pile s)"
    by simp
  then show ?thesis
    using True p by (simp add: deckTopCard_def getPile_def Let_def cardSupply_def)
qed

lemma deckTopCard_exhausted:
  "cardSupply s = 0 \<Longrightarrow> deckTopCard s = (Inl E_DeckPileExhausted, s)"
  by (simp add: deckTopCard_def getPile_def cardSupply_def)

lemma drawCards_supply:
  "n \<le> cardSupply s \<Longrightarrow> \<exists>cs s'. drawCards n s = (Inr cs, s') \<and> length cs = n"
proof (induction n arbitrary: s)
  case 0
  show ?case by simp
next
  case (Suc n)
  then obtain c s1 where d: "deckTopCard s = (Inr c, s1)" and s1: "cardSupply s1 + 1 = cardSupply s"
    using deckTopCard_supply [of s] by auto
  then have "n \<le> cardSupply s1" using Suc.prems by simp
  from Suc.IH [OF this] obtain cs s2 where "drawCards n s1 = (Inr cs, s2)" "length cs = n"
    by auto
  then show ?case using d by simp
qed

lemma drawCards_error:
  "drawCards n s = (Inl e, s') \<Longrightarrow> e = E_DeckPileExhausted"
proof (induction n arbitrary: s)
  case 0
  then show ?case by simp
next
  case (Suc n)
  show ?case
  proof (cases "cardSupply s = 0")
    case True
    then show ?thesis using Suc.prems by (simp add: deckTopCard_exhausted)
  next
    case False
    then obtain c s1 where d: "deckTopCard s = (Inr c, s1)"
      using deckTopCard_supply [of s] by auto
    then show ?thesis
      using Suc.prems Suc.IH [of s1] by (auto split: prod.splits sum.splits)
  qed
qed

lemma activePlayer_handOf:
  assumes "activePlayer s = Some p"
  shows "\<exists>hand. handOf p s = Inr hand"
proof -
  have ne: "map fst (hands s) \<noteq> []" and
    p: "p = map fst (hands s) ! (nat \<bar>index s\<bar> mod length (map fst (hands s)))"
    using assms by (auto simp: activePlayer_def Let_def split: if_splits)
  have "nat \<bar>index s\<bar> mod length (map fst (hands s)) < length (map fst (hands s))"
    using ne by simp
  then have "p \<in> set (map fst (hands s))"
    unfolding p by (rule nth_mem)
  then have "map_of (hands s) p \<noteq> None"
    by (simp add: map_of_eq_None_iff)
  then show ?thesis
    by (auto simp: handOf_def split: option.split)
qed

lemma checkEvent_valid_turn:
  assumes "checkEvent event False s = Inr None"
  shows "activePlayer s = Some (event_by event)"
    and "lastTwoNonInfoEvents None s \<noteq> []"
    and "hasEnded s = Inr None"
  using assms
  by (auto simp: checkEvent_def Let_def split: if_splits sum.splits option.splits list.splits)

lemma processNewEvent_valid:
  assumes "checkEvent event False s = Inr None"
  shows "\<exists>hand. handOf (event_by event) s = Inr hand \<and>
     processNewEvent event s =
       (case event of
          CardPlayed p c \<Rightarrow> applyCardPlayed p c hand s
        | Draw p \<Rightarrow> applyDraw p s
        | Pass p \<Rightarrow> applyPass p s
        | BluffCalled p \<Rightarrow> applyBluffCalled p s
        | ChooseColor p col \<Rightarrow> applyChooseColor p col s)"
proof -
  obtain hand where "handOf (event_by event) s = Inr hand"
    using activePlayer_handOf [OF checkEvent_valid_turn(1) [OF assms]] by auto
  then show ?thesis
    using assms by (simp add: processNewEvent_def playerId_safeParse_def)
qed

text \<open>
  Claim C5, as amended. In every state in which a draw is valid and the deck and the pile
  together hold at least as many cards as the count that follows, the draw succeeds and
  the number of cards drawn is that count: twice the stacked draw-two count if the
  preceding move played a draw-two and stacking is enabled, 2 if it played a draw-two and
  stacking is disabled, else 4 if the move two back played a wild-draw-four, else 1. The
  cards are appended to the hand of the player, the turn counter advances by one step
  exactly when the count is not 1, and the stacked count is reset to 0.
\<close>

theorem C5_draw_count:
  assumes "checkEvent (Draw p) False s = Inr None"
    and "claimedDrawCount s \<le> cardSupply s"
  shows "\<exists>hand cs s'.
           handOf p s = Inr hand
         \<and> processNewEvent (Draw p) s = (Inr (R_drawing_cards cs (claimedDrawCount s)), s')
         \<and> length cs = claimedDrawCount s
         \<and> handOf p s' = Inr (hand @ cs)
         \<and> index s' = (if claimedDrawCount s \<noteq> 1 then index s + stepVal (turnStep s) else index s)
         \<and> stackedPlusTwos s' = 0"
proof -
  obtain hand where h: "handOf p s = Inr hand"
    and pr: "processNewEvent (Draw p) s = applyDraw p s"
    using processNewEvent_valid [OF assms(1)] by auto
  obtain l rest where lt: "lastTwoNonInfoEvents None s = l # rest"
    using checkEvent_valid_turn(2) [OF assms(1)] by (cases "lastTwoNonInfoEvents None s") auto
  have n: "toDraw s l (case rest of [] \<Rightarrow> None | sl # r \<Rightarrow> Some sl) = claimedDrawCount s"
    by (rule toDraw_claimed [OF lt])
  obtain cs s1 where d: "drawCards (claimedDrawCount s) s = (Inr cs, s1)"
    and len: "length cs = claimedDrawCount s"
    using drawCards_supply [OF assms(2)] by auto
  have s1: "s1 = snd (drawCards (claimedDrawCount s) s)"
    using d by simp
  have fr: "index s1 = index s" "turnStep s1 = turnStep s" "hands s1 = hands s"
    unfolding s1 by (rule drawCards_frame)+
  have h1: "handOf p s1 = Inr hand"
    using h by (simp add: handOf_def fr)
  let ?s2 = "setHand p (hand @ cs) s1"
  let ?s3 = "if claimedDrawCount s \<noteq> 1 then advanceTurn 1 ?s2 else ?s2"
  let ?s' = "(recordEvent (GameEv (Draw p)) ?s3)\<lparr>stackedPlusTwos := 0\<rparr>"
  have res: "applyDraw p s = (Inr (R_drawing_cards cs (length cs)), ?s')"
    by (simp add: applyDraw_def lt n d h1 Let_def)
  have mo: "map_of (obj_set (hands s1) p (hand @ cs)) = (map_of (hands s1))(p \<mapsto> hand @ cs)"
    using handOf_in_keys [OF h1] by (simp add: map_of_obj_set)
  have "handOf p ?s' = Inr (hand @ cs)"
    by (simp add: handOf_def setHand_def advanceTurn_def mo)
  moreover have "index ?s' =
      (if claimedDrawCount s \<noteq> 1 then index s + stepVal (turnStep s) else index s)"
    by (simp add: setHand_def advanceTurn_def fr)
  moreover have "stackedPlusTwos ?s' = 0"
    by simp
  ultimately show ?thesis
    using h pr res len by auto
qed

lemmas eval_defs =
  checkEvent_def activePlayer_def hasEnded_def lastTwoNonInfoEvents_def nonInfoEvents_def
  js_slice_def js_at_def pendingCheck_def expectedCard_def handOf_def MIN_PLAYERS_def
  ENGINE_ID_def Let_def

text \<open>
  Claim C5 as stated fails where the supply is exhausted: with the deck and the pile both
  empty, a draw by the player to move is valid, the count is 1, and the call throws
  without drawing a card.
\<close>

theorem C5_counterexample:
  "checkEvent (Draw ''a'') False emptySupplyState = Inr None
   \<and> claimedDrawCount emptySupplyState = 1
   \<and> processNewEvent (Draw ''a'') emptySupplyState = (Inl E_DeckPileExhausted, emptySupplyState)"
proof -
  have v: "checkEvent (Draw ''a'') False emptySupplyState = Inr None"
    by (simp add: eval_defs emptySupplyState_def redOneState_def)
  have c: "claimedDrawCount emptySupplyState = 1"
    by (simp add: claimedDrawCount_def nonInfoEvents_def emptySupplyState_def redOneState_def
        Let_def)
  have d: "drawCards 1 emptySupplyState = (Inl E_DeckPileExhausted, emptySupplyState)"
    by (simp add: deckTopCard_def getPile_def emptySupplyState_def redOneState_def)
  have l: "lastTwoNonInfoEvents None emptySupplyState
           = [CardPlayed ENGINE_ID (ColouredCard TOne Red)]"
    by (simp add: lastTwoNonInfoEvents_None nonInfoEvents_def emptySupplyState_def
        redOneState_def)
  have "applyDraw ''a'' emptySupplyState = (Inl E_DeckPileExhausted, emptySupplyState)"
    using toDraw_claimed [OF l] c d by (simp add: applyDraw_def l)
  moreover have "processNewEvent (Draw ''a'') emptySupplyState = applyDraw ''a'' emptySupplyState"
    using processNewEvent_valid [OF v] by auto
  ultimately show ?thesis using v c by simp
qed

text \<open>
  An instance of C5: after two stacked draw-twos and with eight cards left, the draw is
  valid, takes four cards, forfeits the turn and resets the stack.
\<close>

theorem C5_witness:
  "checkEvent (Draw ''a'') False stackedState = Inr None
   \<and> claimedDrawCount stackedState = 4
   \<and> cardSupply stackedState = 8
   \<and> (\<exists>cs s'. processNewEvent (Draw ''a'') stackedState = (Inr (R_drawing_cards cs 4), s')
        \<and> length cs = 4
        \<and> handOf ''a'' s' = Inr (ColouredCard TTwo Blue # cs)
        \<and> index s' = 3
        \<and> stackedPlusTwos s' = 0)"
proof -
  have v: "checkEvent (Draw ''a'') False stackedState = Inr None"
    by (simp add: eval_defs stackedState_def numeral_2_eq_2)
  have c: "claimedDrawCount stackedState = 4"
    by (simp add: claimedDrawCount_def nonInfoEvents_def stackedState_def Let_def)
  have u: "cardSupply stackedState = 8"
    by (simp add: cardSupply_def stackedState_def)
  have h: "handOf ''a'' stackedState = Inr [ColouredCard TTwo Blue]"
    by (simp add: handOf_def stackedState_def)
  have i: "index stackedState = 2" "turnStep stackedState = Plus1"
    by (simp_all add: stackedState_def)
  show ?thesis
    using C5_draw_count [of "''a''" stackedState] v c u h i by auto
qed

lemma bluffProbe_list_ex:
  assumes "\<forall>c \<in> set cards. \<exists>r. checkEvent (CardPlayed ENGINE_ID c) True s = Inr r"
  shows "bluffProbe cards s =
         Inr (list_ex (\<lambda>c. checkEvent (CardPlayed ENGINE_ID c) True s = Inr None) cards)"
  using assms
proof (induction cards)
  case Nil
  show ?case by simp
next
  case (Cons c cs)
  then obtain r where r: "checkEvent (CardPlayed ENGINE_ID c) True s = Inr r" by auto
  show ?case
    using Cons r by (cases r) simp_all
qed

lemma checkEvent_bluffSite_no_throw:
  assumes "hasEnded s = Inr None"
    and "lastTwoNonInfoEvents (Some (- 3)) s \<noteq> []"
    and "\<not> isColorSwitching (card_type c)"
  shows "\<exists>r. checkEvent (CardPlayed q c) True s = Inr r"
proof -
  obtain l rest where l: "lastTwoNonInfoEvents (Some (- 3)) s = l # rest"
    using assms(2) by (cases "lastTwoNonInfoEvents (Some (- 3)) s") auto
  have "\<exists>r. kindCheck (CardPlayed q c) True s l = Inr r"
    using assms(3) by (cases "expectedCard True s") auto
  then show ?thesis
    using assms(1) l by (auto simp: checkEvent_def split: option.split)
qed

lemma lastTwoNonInfoEvents_bluffSite:
  "4 \<le> length (nonInfoEvents s) \<Longrightarrow> lastTwoNonInfoEvents (Some (- 3)) s \<noteq> []"
  by (auto simp: lastTwoNonInfoEvents_def js_slice_def Let_def max_def)

lemma checkEvent_BluffCalled_valid:
  assumes "checkEvent (BluffCalled p) False s = Inr None"
  shows "\<exists>l sl rest. lastTwoNonInfoEvents None s = l # sl # rest
           \<and> isCardPlayedOf (\<lambda>t. t = Switching PlusFour) sl"
proof -
  obtain l0 where "kindCheck (BluffCalled p) False s l0 = Inr None"
    using assms
    by (auto simp: checkEvent_def Let_def split: if_splits sum.splits option.splits list.splits)
  then show ?thesis
    by (auto split: list.splits if_splits)
qed

lemma events_recordEvent_full:
  "\<not> shorthandMode s \<Longrightarrow> events (recordEvent ev s) = events s @ [ev]"
  by (simp add: recordEvent_def)

lemma hasEnded_cong:
  "ended s' = ended s \<Longrightarrow> hands s' = hands s \<Longrightarrow> hasEnded s' = hasEnded s"
  by (simp add: hasEnded_def)

text \<open>
  Claim C4, as amended. Let a bluff call by \<open>p\<close> be valid, let the move two back be the
  wild-draw-four of the accused, who has a hand, let at least one move be on record before
  the wild-draw-four, the colour choice and the call, and let the deck and the pile
  together hold the cards to be drawn. Then the call succeeds, the turn advances by one
  step, and: if some card of the hand of the accused that does not switch colours passes
  the bluff-site check, the result is bluff-call-succeeded and the accused draws 4 cards;
  otherwise the result is bluff-call-failed and the accuser draws 6 cards. In full mode
  the matching administrative event is the last event recorded (shorthand mode records no
  administrative event).
\<close>

theorem C4_call_bluff:
  assumes valid: "checkEvent (BluffCalled p) False s = Inr None"
    and accused: "nonInfoEvents s = moves @ [CardPlayed accused c4, l]"
    and hand: "handOf accused s = Inr accusedHand"
    and history: "4 \<le> length (nonInfoEvents (bluffSiteState p s))"
    and enough: "(if wasBluff p accusedHand s then 4 else 6) \<le> cardSupply s"
  shows "\<exists>myHand cs s'.
           handOf p s = Inr myHand
         \<and> c4 = SwitchingCard PlusFour
         \<and> index s' = index s + stepVal (turnStep s)
         \<and> (if wasBluff p accusedHand s
            then processNewEvent (BluffCalled p) s = (Inr (R_bluff_call_succeeded p accused), s')
                 \<and> length cs = 4
                 \<and> handOf accused s' = Inr (accusedHand @ cs)
                 \<and> (\<not> shorthandMode s \<longrightarrow>
                       last (events s') = GameInfo (BluffCallSucceeded p accused))
            else processNewEvent (BluffCalled p) s = (Inr (R_bluff_call_failed p accused), s')
                 \<and> length cs = 6
                 \<and> handOf p s' = Inr (myHand @ cs)
                 \<and> (\<not> shorthandMode s \<longrightarrow>
                       last (events s') = GameInfo (BluffCallFailed p accused)))"
proof -
  obtain myHand where mh: "handOf p s = Inr myHand"
    and pr: "processNewEvent (BluffCalled p) s = applyBluffCalled p s"
    using processNewEvent_valid [OF valid] by auto
  have lt: "lastTwoNonInfoEvents None s = [l, CardPlayed accused c4]"
    by (simp add: lastTwoNonInfoEvents_None accused)
  have c4: "c4 = SwitchingCard PlusFour"
    using checkEvent_BluffCalled_valid [OF valid] lt by (cases c4) auto
  let ?s1 = "bluffSiteState p s"
  let ?cards = "filter (\<lambda>c. \<not> isColorSwitching (card_type c)) accusedHand"
  have fr1: "hands ?s1 = hands s" "ended ?s1 = ended s" "shorthandMode ?s1 = shorthandMode s"
    "index ?s1 = index s + stepVal (turnStep s)" "cardSupply ?s1 = cardSupply s"
    by (simp_all add: bluffSiteState_def advanceTurn_def cardSupply_def)
  have he: "hasEnded ?s1 = Inr None"
    using checkEvent_valid_turn(3) [OF valid] hasEnded_cong [of ?s1 s] fr1 by simp
  have nt: "\<forall>c \<in> set ?cards. \<exists>r. checkEvent (CardPlayed ENGINE_ID c) True ?s1 = Inr r"
    using checkEvent_bluffSite_no_throw [OF he lastTwoNonInfoEvents_bluffSite [OF history]]
    by auto
  have probe: "bluffProbe ?cards ?s1 = Inr (wasBluff p accusedHand s)"
    unfolding bluffProbe_list_ex [OF nt] wasBluff_def
    by (simp add: list_ex_iff) blast
  show ?thesis
  proof (cases "wasBluff p accusedHand s")
    case True
    then have "4 \<le> cardSupply ?s1" using enough fr1 by simp
    then obtain cs s2 where d: "drawCards 4 ?s1 = (Inr cs, s2)" and len: "length cs = 4"
      using drawCards_supply [of 4 ?s1] by auto
    have s2: "s2 = snd (drawCards 4 ?s1)" using d by simp
    have fr2: "index s2 = index ?s1" "shorthandMode s2 = shorthandMode ?s1"
      "hands s2 = hands ?s1"
      unfolding s2 by (rule drawCards_frame)+
    have mo: "map_of (obj_set (hands s2) accused (accusedHand @ cs))
              = (map_of (hands s2))(accused \<mapsto> accusedHand @ cs)"
      using handOf_in_keys [OF hand] fr1 fr2 by (simp add: map_of_obj_set)
    let ?s' = "recordEvent (GameInfo (BluffCallSucceeded p accused))
                 (setHand accused (accusedHand @ cs) s2)"
    have res: "applyBluffCalled p s = (Inr (R_bluff_call_succeeded p accused), ?s')"
      using True probe d hand
      by (simp add: applyBluffCalled_def lt bluffSiteState_def Let_def)
    have "index ?s' = index s + stepVal (turnStep s)"
      using fr1 fr2 by (simp add: setHand_def)
    moreover have "handOf accused ?s' = Inr (accusedHand @ cs)"
      by (simp add: handOf_def setHand_def mo)
    moreover have "\<not> shorthandMode s \<longrightarrow>
        last (events ?s') = GameInfo (BluffCallSucceeded p accused)"
      using fr1 fr2 by (simp add: events_recordEvent_full setHand_def)
    ultimately show ?thesis
      using True mh c4 pr res len by auto
  next
    case False
    then have "6 \<le> cardSupply ?s1" using enough fr1 by simp
    then obtain cs s2 where d: "drawCards 6 ?s1 = (Inr cs, s2)" and len: "length cs = 6"
      using drawCards_supply [of 6 ?s1] by auto
    have s2: "s2 = snd (drawCards 6 ?s1)" using d by simp
    have fr2: "index s2 = index ?s1" "shorthandMode s2 = shorthandMode ?s1"
      "hands s2 = hands ?s1"
      unfolding s2 by (rule drawCards_frame)+
    have mh2: "handOf p s2 = Inr myHand"
      using mh fr1 fr2 by (simp add: handOf_def)
    let ?s' = "recordEvent (GameInfo (BluffCallFailed p accused))
                 (setHand p (myHand @ cs) s2)"
    have res: "applyBluffCalled p s = (Inr (R_bluff_call_failed p accused), ?s')"
      using False probe d hand mh2
      by (simp add: applyBluffCalled_def lt bluffSiteState_def Let_def)
    have "index ?s' = index s + stepVal (turnStep s)"
      using fr1 fr2 by (simp add: setHand_def)
    moreover have "handOf p ?s' = Inr (myHand @ cs)"
      using handOf_in_keys [OF mh2] by (simp add: handOf_def setHand_def map_of_obj_set)
    moreover have "\<not> shorthandMode s \<longrightarrow>
        last (events ?s') = GameInfo (BluffCallFailed p accused)"
      using fr1 fr2 by (simp add: events_recordEvent_full setHand_def)
    ultimately show ?thesis
      using False mh c4 pr res len by auto
  qed
qed

lemma bluffState_valid: "checkEvent (BluffCalled ''b'') False (bluffState sh) = Inr None"
  by (simp add: eval_defs bluffState_def)

lemma bluffState_wasBluff: "wasBluff ''b'' [ColouredCard TTwo Red] (bluffState sh)"
  by (simp add: wasBluff_def bluffSiteState_def advanceTurn_def recordEvent_def
      MAX_SHORTHAND_EVENTS_def eval_defs bluffState_def)

text \<open>
  Claim C4 as stated fails in shorthand mode: the call is valid, the red two of the
  accused passes the bluff-site check and the call succeeds, and the events recorded
  afterwards are the four moves, with no administrative event among them.
\<close>

theorem C4_counterexample:
  "checkEvent (BluffCalled ''b'') False (bluffState True) = Inr None
   \<and> wasBluff ''b'' [ColouredCard TTwo Red] (bluffState True)
   \<and> fst (processNewEvent (BluffCalled ''b'') (bluffState True))
       = Inr (R_bluff_call_succeeded ''b'' ''a'')
   \<and> events (snd (processNewEvent (BluffCalled ''b'') (bluffState True)))
       = [GameEv (CardPlayed ENGINE_ID (ColouredCard TOne Red)),
          GameEv (CardPlayed ''a'' (SwitchingCard PlusFour)),
          GameEv (ChooseColor ''a'' Blue),
          GameEv (BluffCalled ''b'')]"
proof -
  have "applyBluffCalled ''b'' (bluffState True)
       = (Inr (R_bluff_call_succeeded ''b'' ''a''),
          snd (applyBluffCalled ''b'' (bluffState True)))
      \<and> events (snd (applyBluffCalled ''b'' (bluffState True)))
       = [GameEv (CardPlayed ENGINE_ID (ColouredCard TOne Red)),
          GameEv (CardPlayed ''a'' (SwitchingCard PlusFour)),
          GameEv (ChooseColor ''a'' Blue),
          GameEv (BluffCalled ''b'')]"
    by (simp add: applyBluffCalled_def lastTwoNonInfoEvents_None nonInfoEvents_def
        handOf_def advanceTurn_def recordEvent_def MAX_SHORTHAND_EVENTS_def eval_defs
        drawCards_deck setHand_def bluffState_def)
  moreover have "processNewEvent (BluffCalled ''b'') (bluffState True)
                 = applyBluffCalled ''b'' (bluffState True)"
    using processNewEvent_valid [OF bluffState_valid [of True]] by auto
  ultimately show ?thesis
    using bluffState_valid [of True] bluffState_wasBluff [of True] by (metis fst_conv)
qed

text \<open>
  An instance of C4, in full mode: the accused draws four cards, the turn advances from 1
  to 2 and the last event recorded is bluff-call-succeeded.
\<close>

theorem C4_witness:
  "checkEvent (BluffCalled ''b'') False (bluffState False) = Inr None
   \<and> nonInfoEvents (bluffState False)
       = [CardPlayed ENGINE_ID (ColouredCard TOne Red)]
         @ [CardPlayed ''a'' (SwitchingCard PlusFour), ChooseColor ''a'' Blue]
   \<and> handOf ''a'' (bluffState False) = Inr [ColouredCard TTwo Red]
   \<and> 4 \<le> length (nonInfoEvents (bluffSiteState ''b'' (bluffState False)))
   \<and> wasBluff ''b'' [ColouredCard TTwo Red] (bluffState False)
   \<and> 4 \<le> cardSupply (bluffState False)
   \<and> (\<exists>cs s'. processNewEvent (BluffCalled ''b'') (bluffState False)
                  = (Inr (R_bluff_call_succeeded ''b'' ''a''), s')
        \<and> length cs = 4
        \<and> handOf ''a'' s' = Inr (ColouredCard TTwo Red # cs)
        \<and> index s' = 2
        \<and> last (events s') = GameInfo (BluffCallSucceeded ''b'' ''a''))"
proof -
  have h: "handOf ''a'' (bluffState False) = Inr [ColouredCard TTwo Red]"
    by (simp add: handOf_def bluffState_def)
  have m: "nonInfoEvents (bluffState False)
           = [CardPlayed ENGINE_ID (ColouredCard TOne Red)]
             @ [CardPlayed ''a'' (SwitchingCard PlusFour), ChooseColor ''a'' Blue]"
    by (simp add: nonInfoEvents_def bluffState_def)
  have n: "4 \<le> length (nonInfoEvents (bluffSiteState ''b'' (bluffState False)))"
    by (simp add: bluffSiteState_def advanceTurn_def recordEvent_def nonInfoEvents_def
        bluffState_def)
  have u: "(if wasBluff ''b'' [ColouredCard TTwo Red] (bluffState False) then 4 else 6)
           \<le> cardSupply (bluffState False)"
    by (simp add: cardSupply_def bluffState_def)
  have i: "index (bluffState False) = 1" "turnStep (bluffState False) = Plus1"
    "\<not> shorthandMode (bluffState False)" "cardSupply (bluffState False) = 8"
    by (simp_all add: bluffState_def cardSupply_def)
  show ?thesis
    using C4_call_bluff [OF bluffState_valid m h n u] bluffState_wasBluff [of False]
      bluffState_valid [of False] h m n i
    by auto
qed

lemma pushLast3_frame [simp]:
  "shorthandMode (pushLast3 x s) = shorthandMode s"
  "events (pushLast3 x s) = events s"
  "index (pushLast3 x s) = index s"
  "players (pushLast3 x s) = players s"
  "initialSeed (pushLast3 x s) = initialSeed s"
  "stackPlusTwos (pushLast3 x s) = stackPlusTwos s"
  "hands (pushLast3 x s) = hands s"
  "deck (pushLast3 x s) = deck s"
  "seed (pushLast3 x s) = seed s"
  "ended (pushLast3 x s) = ended s"
  "stackedPlusTwos (pushLast3 x s) = stackedPlusTwos s"
  "turnStep (pushLast3 x s) = turnStep s"
  "pile (pushLast3 x s) = pile s"
  by (simp_all add: pushLast3_def Let_def)

lemma advanceTurn_frame [simp]:
  "shorthandMode (advanceTurn m s) = shorthandMode s"
  "events (advanceTurn m s) = events s"
  "players (advanceTurn m s) = players s"
  "initialSeed (advanceTurn m s) = initialSeed s"
  "stackPlusTwos (advanceTurn m s) = stackPlusTwos s"
  "hands (advanceTurn m s) = hands s"
  "deck (advanceTurn m s) = deck s"
  "seed (advanceTurn m s) = seed s"
  "ended (advanceTurn m s) = ended s"
  "stackedPlusTwos (advanceTurn m s) = stackedPlusTwos s"
  "turnStep (advanceTurn m s) = turnStep s"
  "pile (advanceTurn m s) = pile s"
  "last3CardPlayOrColorChanges (advanceTurn m s) = last3CardPlayOrColorChanges s"
  by (simp_all add: advanceTurn_def)

lemma setHand_frame [simp]:
  "shorthandMode (setHand p h s) = shorthandMode s"
  "events (setHand p h s) = events s"
  "index (setHand p h s) = index s"
  "players (setHand p h s) = players s"
  "initialSeed (setHand p h s) = initialSeed s"
  "stackPlusTwos (setHand p h s) = stackPlusTwos s"
  "deck (setHand p h s) = deck s"
  "seed (setHand p h s) = seed s"
  "ended (setHand p h s) = ended s"
  "stackedPlusTwos (setHand p h s) = stackedPlusTwos s"
  "turnStep (setHand p h s) = turnStep s"
  "pile (setHand p h s) = pile s"
  "last3CardPlayOrColorChanges (setHand p h s) = last3CardPlayOrColorChanges s"
  by (simp_all add: setHand_def)

lemma applyCardPlayed_error:
  assumes "applyCardPlayed p c hand s = (Inl e, s')" and "e \<noteq> E_Unreachable"
    and "handOf p s = Inr hand"
  shows "s' = s"
proof (cases "c \<in> set hand")
  case False
  then show ?thesis using assms by (simp add: applyCardPlayed_def)
next
  case True
  define s7 where "s7 =
     (let s1 = setHand p (remove1 c hand) s;
          s2 = recordEvent (GameEv (CardPlayed p c)) s1;
          s3 = pushLast3 (IsCard c) s2;
          s4 = s3\<lparr>pile := pile s3 @ [c]\<rparr>;
          s5 = (if card_type c = Coloured PlusTwo
                then s4\<lparr>stackedPlusTwos := stackedPlusTwos s4 + 1\<rparr> else s4);
          s6 = (if card_type c = Coloured Reverse
                then s5\<lparr>turnStep := negateStep (turnStep s5)\<rparr> else s5)
      in (if \<not> isColorSwitching (card_type c)
          then advanceTurn (turnStepMultiplier c s6) s6 else s6))"
  have "hands s7 = hands (setHand p (remove1 c hand) s)"
    by (simp add: s7_def Let_def)
  then have h7: "handOf p s7 = Inr (remove1 c hand)"
    using handOf_in_keys [OF assms(3)] by (simp add: handOf_def setHand_def map_of_obj_set)
  have "applyCardPlayed p c hand s =
        (if remove1 c hand = [] then
           (let s8 = recordEvent (GameInfo (PlayerWon p)) s7;
                playersWithCards = map fst (filter (\<lambda>kv. snd kv \<noteq> []) (hands s8))
            in if length playersWithCards = 1 then
                 (let s9 = recordEvent (GameInfo (GameEnded (hd playersWithCards))) s8
                  in (Inr (R_player_win_game_end p (hd playersWithCards)), s9\<lparr>ended := True\<rparr>))
               else (Inr (R_player_win p), s8))
         else (Inl E_Unreachable, s7))"
    using True h7 unfolding applyCardPlayed_def s7_def Let_def by simp
  then show ?thesis
    using assms by (auto simp: Let_def split: if_splits)
qed

lemma applyDraw_error:
  assumes "handOf p s = Inr hand" and "applyDraw p s = (Inl e, s')"
    and "e \<noteq> E_DeckPileExhausted"
  shows "s' = s"
proof (cases "lastTwoNonInfoEvents None s")
  case Nil
  then show ?thesis using assms by (simp add: applyDraw_def)
next
  case (Cons l rest)
  define n where "n = toDraw s l (case rest of [] \<Rightarrow> None | sl # r \<Rightarrow> Some sl)"
  obtain r s1 where d: "drawCards n s = (r, s1)" by (cases "drawCards n s")
  have s1: "hands s1 = hands s" using drawCards_frame(6) [of n s] d by simp
  show ?thesis
  proof (cases r)
    case (Inl e1)
    then have "e1 = E_DeckPileExhausted" using d by (auto dest: drawCards_error)
    then show ?thesis
      using assms Cons d Inl by (simp add: applyDraw_def n_def [symmetric])
  next
    case (Inr cs)
    have "handOf p s1 = Inr hand" using assms(1) s1 by (simp add: handOf_def)
    then show ?thesis
      using assms Cons d Inr by (simp add: applyDraw_def n_def [symmetric] Let_def)
  qed
qed

lemma checkEvent_thrown_nonswitching:
  assumes "checkEvent (CardPlayed q c) b s = Inl e" and "\<not> isColorSwitching (card_type c)"
  shows "e = E_TypeError"
proof -
  have k: "kindCheck (CardPlayed q c) b s l \<noteq> Inl e'" for l e'
    using assms(2) by (cases "expectedCard b s") auto
  show ?thesis
  proof (cases "hasEnded s")
    case (Inl e1)
    then have "e1 = E_TypeError"
      by (auto simp: hasEnded_def split: if_splits option.splits)
    then show ?thesis
      using assms(1) Inl by (auto simp: checkEvent_def Let_def split: if_splits)
  next
    case (Inr r)
    show ?thesis
    proof (cases r)
      case (Some loser)
      then show ?thesis
        using assms(1) Inr by (auto simp: checkEvent_def Let_def split: if_splits)
    next
      case None
      show ?thesis
      proof (cases "lastTwoNonInfoEvents (if b then Some (- 3) else None) s")
        case Nil
        then show ?thesis
          using assms(1) Inr None by (auto simp: checkEvent_def Let_def split: if_splits)
      next
        case (Cons l rest)
        then show ?thesis
          using assms Inr None k [of l e]
          by (auto simp: checkEvent_def Let_def split: if_splits option.splits)
      qed
    qed
  qed
qed

lemma bluffProbe_thrown:
  assumes "bluffProbe cards s = Inl e" and "\<forall>c \<in> set cards. \<not> isColorSwitching (card_type c)"
  shows "e = E_TypeError"
  using assms
proof (induction cards)
  case Nil
  then show ?case by simp
next
  case (Cons c cs)
  show ?case
  proof (cases "checkEvent (CardPlayed ENGINE_ID c) True s")
    case (Inl e1)
    then have "e1 = E_TypeError"
      using Cons.prems(2) by (intro checkEvent_thrown_nonswitching [of ENGINE_ID c True s e1]) simp_all
    then show ?thesis using Cons.prems(1) Inl by simp
  next
    case (Inr r)
    then show ?thesis using Cons by (cases r) auto
  qed
qed

lemma applyBluffCalled_error:
  assumes "handOf p s = Inr hand" and "applyBluffCalled p s = (Inl e, s')"
    and "e \<noteq> E_DeckPileExhausted" and "e \<noteq> E_TypeError"
  shows "s' = s"
proof (cases "lastTwoNonInfoEvents None s")
  case Nil
  then show ?thesis using assms by (simp add: applyBluffCalled_def)
next
  case (Cons l rest)
  show ?thesis
  proof (cases rest)
    case Nil
    then show ?thesis using assms Cons by (simp add: applyBluffCalled_def)
  next
    case (Cons sl rest')
    note lt = \<open>lastTwoNonInfoEvents None s = l # rest\<close> Cons
    show ?thesis
    proof (cases "handOf (event_by sl) s")
      case (Inl e1)
      then show ?thesis using assms lt by (simp add: applyBluffCalled_def)
    next
      case (Inr accHand)
      define s1 where "s1 = advanceTurn 1 (recordEvent (GameEv (BluffCalled p)) s)"
      define cards where "cards = filter (\<lambda>c. \<not> isColorSwitching (card_type c)) accHand"
      have h1: "hands s1 = hands s" by (simp add: s1_def)
      have unf: "applyBluffCalled p s =
          (case bluffProbe cards s1 of
             Inl e \<Rightarrow> (Inl e, s1)
           | Inr True \<Rightarrow>
               (case drawCards 4 s1 of
                  (Inl e, s2) \<Rightarrow> (Inl e, s2)
                | (Inr cs, s2) \<Rightarrow>
                    (Inr (R_bluff_call_succeeded p (event_by sl)),
                     recordEvent (GameInfo (BluffCallSucceeded p (event_by sl)))
                       (setHand (event_by sl) (accHand @ cs) s2)))
           | Inr False \<Rightarrow>
               (case drawCards 6 s1 of
                  (Inl e, s2) \<Rightarrow> (Inl e, s2)
                | (Inr cs, s2) \<Rightarrow>
                    (case handOf p s2 of
                       Inl e \<Rightarrow> (Inl e, s2)
                     | Inr hand \<Rightarrow>
                         (Inr (R_bluff_call_failed p (event_by sl)),
                          recordEvent (GameInfo (BluffCallFailed p (event_by sl)))
                            (setHand p (hand @ cs) s2)))))"
        unfolding applyBluffCalled_def s1_def cards_def Let_def using lt Inr by simp
      note eq = assms(2) [unfolded unf]
      show ?thesis
      proof (cases "bluffProbe cards s1")
        case (Inl e1)
        have ns: "\<forall>c \<in> set cards. \<not> isColorSwitching (card_type c)"
          unfolding cards_def by simp
        have "e1 = E_TypeError"
          by (rule bluffProbe_thrown [OF Inl ns])
        then show ?thesis using eq assms(4) Inl by simp
      next
        case (Inr b)
        note pb = this
        show ?thesis
        proof (cases b)
          case True
          obtain r s2 where d: "drawCards 4 s1 = (r, s2)" by (cases "drawCards 4 s1")
          show ?thesis
          proof (cases r)
            case (Inl e1)
            then have "drawCards 4 s1 = (Inl e1, s2)" using d by simp
            then have "e1 = E_DeckPileExhausted" by (rule drawCards_error)
            then show ?thesis using eq assms(3) pb True d Inl by simp
          next
            case (Inr cs)
            then show ?thesis using eq pb True d by simp
          qed
        next
          case False
          obtain r s2 where d: "drawCards 6 s1 = (r, s2)" by (cases "drawCards 6 s1")
          have "hands s2 = hands s1" using drawCards_frame(6) [of 6 s1] d by simp
          then have h2: "handOf p s2 = Inr hand"
            using assms(1) h1 by (simp add: handOf_def)
          show ?thesis
          proof (cases r)
            case (Inl e1)
            then have "drawCards 6 s1 = (Inl e1, s2)" using d by simp
            then have "e1 = E_DeckPileExhausted" by (rule drawCards_error)
            then show ?thesis using eq assms(3) pb False d Inl by simp
          next
            case (Inr cs)
            then show ?thesis using eq pb False d h2 by simp
          qed
        qed
      qed
    qed
  qed
qed

lemma processNewEvent_error:
  assumes "processNewEvent event s = (Inl e, s')"
    and "e \<noteq> E_DeckPileExhausted" and "e \<noteq> E_TypeError" and "e \<noteq> E_Unreachable"
  shows "s' = s"
proof (cases "handOf (event_by event) s")
  case (Inl e1)
  then show ?thesis using assms by (simp add: processNewEvent_def playerId_safeParse_def)
next
  case (Inr hand)
  show ?thesis
  proof (cases "checkEvent event False s = Inr None")
    case False
    then show ?thesis
      using assms Inr
      by (auto simp: processNewEvent_def playerId_safeParse_def split: sum.splits option.splits)
  next
    case True
    show ?thesis
    proof (cases event)
      case (CardPlayed p c)
      then show ?thesis
        using assms Inr True applyCardPlayed_error [of p c hand s e s']
        by (simp add: processNewEvent_def playerId_safeParse_def)
    next
      case (BluffCalled p)
      then show ?thesis
        using assms Inr True applyBluffCalled_error [of p s hand e s']
        by (simp add: processNewEvent_def playerId_safeParse_def)
    next
      case (ChooseColor p col)
      then show ?thesis
        using assms Inr True
        by (simp add: processNewEvent_def playerId_safeParse_def applyChooseColor_def)
    next
      case (Draw p)
      then show ?thesis
        using assms Inr True applyDraw_error [of p s hand e s']
        by (simp add: processNewEvent_def playerId_safeParse_def)
    next
      case (Pass p)
      then show ?thesis
        using assms Inr True
        by (simp add: processNewEvent_def playerId_safeParse_def applyPass_def)
    qed
  qed
qed

lemma joinLoop_error: "joinLoop ids s = (Inl e, s') \<Longrightarrow> e = E_DeckPileExhausted"
proof (induction ids arbitrary: s)
  case Nil
  then show ?case by simp
next
  case (Cons p ps)
  obtain r s1 where d: "drawCards 7 s = (r, s1)" by (cases "drawCards 7 s")
  show ?case
  proof (cases r)
    case (Inl e1)
    then have "e1 = E_DeckPileExhausted" using d by (auto dest: drawCards_error)
    then show ?thesis using Cons.prems d Inl by simp
  next
    case (Inr hand)
    then show ?thesis using Cons d by simp
  qed
qed

lemma join_error:
  assumes "join ids s = (Inl e, s')" and "e \<noteq> E_DeckPileExhausted"
  shows "s' = s"
  using assms joinLoop_error [of ids s e s']
  by (auto simp: join_def Let_def split: if_splits option.splits)

lemma leave_single_error: "leave [p] s = (Inl e, s') \<Longrightarrow> s' = s"
  by (simp split: if_splits)

lemma processNewEvent_error_cases:
  assumes "processNewEvent event s = (Inl e, s')"
  shows "s' = s \<or>
         (\<exists>hand. handOf (event_by event) s = Inr hand
            \<and> (case event of
                  CardPlayed p c \<Rightarrow> applyCardPlayed p c hand s
                | Draw p \<Rightarrow> applyDraw p s
                | Pass p \<Rightarrow> applyPass p s
                | BluffCalled p \<Rightarrow> applyBluffCalled p s
                | ChooseColor p col \<Rightarrow> applyChooseColor p col s) = (Inl e, s'))"
proof (cases "handOf (event_by event) s")
  case (Inl e1)
  then show ?thesis using assms by (simp add: processNewEvent_def playerId_safeParse_def)
next
  case (Inr hand)
  show ?thesis
  proof (cases "checkEvent event False s")
    case (Inl e1)
    then show ?thesis
      using assms Inr by (simp add: processNewEvent_def playerId_safeParse_def)
  next
    case (Inr r)
    then show ?thesis
      using assms \<open>handOf (event_by event) s = Inr hand\<close>
      by (cases r) (simp_all add: processNewEvent_def playerId_safeParse_def)
  qed
qed

lemma drawCards_exhausted:
  "cardSupply s < n \<Longrightarrow>
   \<exists>s'. drawCards n s = (Inl E_DeckPileExhausted, s') \<and> deck s' = [] \<and> pile s' = []"
proof (induction n arbitrary: s)
  case 0
  then show ?case by simp
next
  case (Suc n)
  show ?case
  proof (cases "cardSupply s = 0")
    case True
    then have "deck s = []" "pile s = []" by (simp_all add: cardSupply_def)
    then show ?thesis using True by (simp add: deckTopCard_exhausted)
  next
    case False
    then obtain c s1 where d: "deckTopCard s = (Inr c, s1)" and u: "cardSupply s1 + 1 = cardSupply s"
      using deckTopCard_supply [of s] by auto
    then have "cardSupply s1 < n" using Suc.prems by simp
    from Suc.IH [OF this] obtain s' where
      "drawCards n s1 = (Inl E_DeckPileExhausted, s')" "deck s' = []" "pile s' = []"
      by auto
    then show ?thesis using d by simp
  qed
qed

text \<open>
  Claim C7, as amended. A call that throws before the move is applied leaves the state as
  it was: every rejection of the validator, an unknown player, a card the player does not
  hold, too many players, an invalid id. In terms of the error thrown: \<^verbatim>\<open>pass\<close>,
  \<^verbatim>\<open>chooseColor\<close> and a \<^verbatim>\<open>leave\<close> of one player leave the state unchanged whatever
  they throw; \<^verbatim>\<open>draw\<close> and \<^verbatim>\<open>join\<close> whenever the error is not supply-exhausted;
  \<^verbatim>\<open>callBluff\<close> whenever it is neither supply-exhausted nor a runtime type error;
  \<^verbatim>\<open>play\<close> whenever it is not the \<^verbatim>\<open>"unreachable"\<close> string. Nothing is said about
  the state after the errors excepted here.
\<close>

theorem C7_rejected_call_keeps_state:
  "(play p c s = (Inl e, s') \<and> e \<noteq> E_Unreachable \<longrightarrow> s' = s)
   \<and> (draw p s = (Inl e, s') \<and> e \<noteq> E_DeckPileExhausted \<longrightarrow> s' = s)
   \<and> (pass p s = (Inl e, s') \<longrightarrow> s' = s)
   \<and> (callBluff p s = (Inl e, s') \<and> e \<noteq> E_DeckPileExhausted \<and> e \<noteq> E_TypeError \<longrightarrow> s' = s)
   \<and> (chooseColor p col s = (Inl e, s') \<longrightarrow> s' = s)
   \<and> (processNewEvent event s = (Inl e, s')
        \<and> e \<noteq> E_DeckPileExhausted \<and> e \<noteq> E_TypeError \<and> e \<noteq> E_Unreachable \<longrightarrow> s' = s)
   \<and> (join ids s = (Inl e, s') \<and> e \<noteq> E_DeckPileExhausted \<longrightarrow> s' = s)
   \<and> (leave [q] s = (Inl e, s') \<longrightarrow> s' = s)"
proof -
  have a: "play p c s = (Inl e, s') \<and> e \<noteq> E_Unreachable \<longrightarrow> s' = s"
    using processNewEvent_error_cases [of "CardPlayed p c" s e s'] applyCardPlayed_error [of p c _ s e s']
    by (auto simp: play_def)
  have b: "draw p s = (Inl e, s') \<and> e \<noteq> E_DeckPileExhausted \<longrightarrow> s' = s"
    using processNewEvent_error_cases [of "Draw p" s e s'] applyDraw_error [of p s _ e s']
    by (auto simp: draw_def)
  have c: "pass p s = (Inl e, s') \<longrightarrow> s' = s"
    using processNewEvent_error_cases [of "Pass p" s e s']
    by (auto simp: pass_def applyPass_def)
  have d: "callBluff p s = (Inl e, s') \<and> e \<noteq> E_DeckPileExhausted \<and> e \<noteq> E_TypeError \<longrightarrow> s' = s"
    using processNewEvent_error_cases [of "BluffCalled p" s e s'] applyBluffCalled_error [of p s _ e s']
    by (auto simp: callBluff_def)
  have f: "chooseColor p col s = (Inl e, s') \<longrightarrow> s' = s"
    using processNewEvent_error_cases [of "ChooseColor p col" s e s']
    by (auto simp: chooseColor_def applyChooseColor_def)
  have g: "processNewEvent event s = (Inl e, s')
        \<and> e \<noteq> E_DeckPileExhausted \<and> e \<noteq> E_TypeError \<and> e \<noteq> E_Unreachable \<longrightarrow> s' = s"
    using processNewEvent_error [of event s e s'] by blast
  have h: "join ids s = (Inl e, s') \<and> e \<noteq> E_DeckPileExhausted \<longrightarrow> s' = s"
    using join_error [of ids s e s'] by blast
  have i: "leave [q] s = (Inl e, s') \<longrightarrow> s' = s"
    using leave_single_error [of q s e s'] by blast
  show ?thesis
    using a b c d f g h i by blast
qed

lemma exhaustingState_valid: "checkEvent (Draw ''a'') False exhaustingState = Inr None"
  by (simp add: eval_defs exhaustingState_def stackedState_def numeral_2_eq_2)

text \<open>
  Claim C7 as stated fails for a draw that runs out of cards midway: with an empty deck,
  three cards on the pile and four cards to draw, the draw is valid and throws
  supply-exhausted, and afterwards the pile is empty: the state is not the state before
  the call.
\<close>

theorem C7_counterexample:
  "checkEvent (Draw ''a'') False exhaustingState = Inr None
   \<and> fst (draw ''a'' exhaustingState) = Inl E_DeckPileExhausted
   \<and> pile exhaustingState
       = [ColouredCard TOne Red, ColouredCard PlusTwo Red, ColouredCard PlusTwo Blue]
   \<and> pile (snd (draw ''a'' exhaustingState)) = []
   \<and> snd (draw ''a'' exhaustingState) \<noteq> exhaustingState"
proof -
  have l: "lastTwoNonInfoEvents None exhaustingState
           = [CardPlayed ''b'' (ColouredCard PlusTwo Blue), CardPlayed ''a'' (ColouredCard PlusTwo Red)]"
    by (simp add: lastTwoNonInfoEvents_None nonInfoEvents_def exhaustingState_def stackedState_def)
  have n: "toDraw exhaustingState (CardPlayed ''b'' (ColouredCard PlusTwo Blue))
             (Some (CardPlayed ''a'' (ColouredCard PlusTwo Red))) = 4"
    by (simp add: toDraw_def exhaustingState_def stackedState_def)
  have "cardSupply exhaustingState < 4"
    by (simp add: cardSupply_def exhaustingState_def stackedState_def)
  from drawCards_exhausted [OF this] obtain s' where
    d: "drawCards 4 exhaustingState = (Inl E_DeckPileExhausted, s')" and p: "pile s' = []"
    by auto
  have ap: "applyDraw ''a'' exhaustingState = (Inl E_DeckPileExhausted, s')"
    by (simp add: applyDraw_def l n d)
  have pr: "draw ''a'' exhaustingState = applyDraw ''a'' exhaustingState"
    using processNewEvent_valid [OF exhaustingState_valid] by (auto simp: draw_def)
  have pe: "pile exhaustingState
       = [ColouredCard TOne Red, ColouredCard PlusTwo Red, ColouredCard PlusTwo Blue]"
    by (simp add: exhaustingState_def stackedState_def)
  have "snd (draw ''a'' exhaustingState) \<noteq> exhaustingState"
    using pr ap p pe by auto
  then show ?thesis
    using exhaustingState_valid pr ap p pe by simp
qed

text \<open>An instance of C7: a pass without a draw is rejected and changes nothing.\<close>

theorem C7_witness:
  "pass ''a'' redOneState = (Inl E_MustNotPassWithoutDraw, snd (pass ''a'' redOneState))
   \<and> snd (pass ''a'' redOneState) = redOneState"
proof -
  have "fst (pass ''a'' redOneState) = Inl E_MustNotPassWithoutDraw"
    by (simp add: pass_def processNewEvent_def playerId_safeParse_def eval_defs redOneState_def)
  then have 1: "pass ''a'' redOneState = (Inl E_MustNotPassWithoutDraw, snd (pass ''a'' redOneState))"
    by (metis prod.collapse)
  then show ?thesis
    using C7_rejected_call_keeps_state
      [of "''a''" "ColouredCard TOne Red" redOneState E_MustNotPassWithoutDraw "snd (pass ''a'' redOneState)"]
    by blast
qed

text \<open>
  A valid play that does not empty the hand is applied in full and then leaves
  \<^verbatim>\<open>processNewEvent\<close> through its final \<^verbatim>\<open>throw "unreachable"\<close>.
\<close>

lemma play_throws_unreachable:
  "checkEvent (CardPlayed ''a'' (SwitchingCard ColorChooser)) False redOneState = Inr None
   \<and> fst (play ''a'' (SwitchingCard ColorChooser) redOneState) = Inl E_Unreachable
   \<and> pile (snd (play ''a'' (SwitchingCard ColorChooser) redOneState))
       = [ColouredCard TOne Red, SwitchingCard ColorChooser]
   \<and> handOf ''a'' (snd (play ''a'' (SwitchingCard ColorChooser) redOneState))
       = Inr [ColouredCard TTwo Blue]"
  by (simp add: play_def processNewEvent_def playerId_safeParse_def applyCardPlayed_def
      setHand_def obj_set_def obj_define_def recordEvent_def pushLast3_def eval_defs redOneState_def)

lemma events_init: "events (init s) = [GameEv (CardPlayed ENGINE_ID (hd (pile (init s))))]"
  by (simp add: init_def Let_def split: option.split prod.split)

lemma Game_new_events:
  "p_noInit props \<noteq> Some True \<Longrightarrow>
   events (Game_new props e) = [GameEv (CardPlayed ENGINE_ID (hd (pile (Game_new props e))))]"
  using events_init by (simp add: Game_new_def Let_def)

lemma join_single:
  assumes "7 \<le> length (deck s)" and "p \<noteq> ENGINE_ID" and "length (players s) \<noteq> 10"
  shows "join [p] s =
         (Inr (), recordEvent (GameInfo (PlayerJoined p))
                    (setHand p (take 7 (deck s))
                       (s\<lparr>deck := drop 7 (deck s), players := players s @ [p]\<rparr>)))"
  using assms by (simp add: join_def MAX_PLAYERS_def playerId_safeParse_def drawCards_deck)

text \<open>
  Claim C3 as stated fails where the retained events end in an administrative event that
  the replay does not make anew: a jump to index 1 of a log that holds the opening card
  and the two events of a recycled pile returns the event after index 1, and the log it
  leaves holds one event, not the two events up to index 1.
\<close>

theorem C3_counterexample:
  "\<not> shorthandMode recycledLogState
   \<and> fst (jumpToEventIndex 1 0 recycledLogState) = Inr [GameInfo PileToDeck]
   \<and> take 2 (events recycledLogState)
       = [GameEv (CardPlayed ENGINE_ID (ColouredCard TOne Red)), GameInfo (SeedChanged 1)]
   \<and> length (events (snd (jumpToEventIndex 1 0 recycledLogState))) = 1"
proof -
  let ?cg = "Game_new \<lparr> p_shorthandMode = None, p_stackPlusTwos = None,
                         p_initialSeed = Some (SeedNumber 1), p_noInit = None \<rparr> 0"
  have j: "jumpToEventIndex 1 0 recycledLogState = (Inr [GameInfo PileToDeck], ?cg)"
    by (simp add: jumpToEventIndex_def recycledLogState_def redOneState_def ENGINE_ID_def)
  have "length (events ?cg) = 1"
    by (subst Game_new_events) simp_all
  then show ?thesis
    using j by (simp add: recycledLogState_def redOneState_def)
qed

text \<open>
  The engine that \<^verbatim>\<open>jumpToEventIndex\<close> replays on is made from the initial seed alone:
  a jump on an engine made with stacking disabled succeeds and leaves stacking enabled.
\<close>

lemma jump_resets_stackPlusTwos:
  "\<not> stackPlusTwos (Game_new (seedOneProps False) 0)
   \<and> fst (jumpToEventIndex 0 0 (Game_new (seedOneProps False) 0)) = Inr []
   \<and> stackPlusTwos (snd (jumpToEventIndex 0 0 (Game_new (seedOneProps False) 0)))"
proof -
  define g where "g = Game_new (seedOneProps False) 0"
  have g: "\<not> shorthandMode g" "\<not> stackPlusTwos g" "initialSeed g = 1"
    unfolding g_def by (simp_all add: seedOneProps_def Game_new_initialSeed)
  obtain c where ev: "events g = [GameEv (CardPlayed ENGINE_ID c)]"
    unfolding g_def using Game_new_events [of "seedOneProps False" 0]
    by (simp add: seedOneProps_def)
  have "jumpToEventIndex 0 0 g =
        (Inr [], Game_new \<lparr> p_shorthandMode = None, p_stackPlusTwos = None,
                             p_initialSeed = Some (SeedNumber 1), p_noInit = None \<rparr> 0)"
    using g by (simp add: jumpToEventIndex_def ev)
  then show ?thesis
    using g unfolding g_def [symmetric] by simp
qed















lemma cardColor_of_name [simp]: "cardColor_of (cardColor_name c) = Some c"
  by (cases c) (simp_all add: cardColor_of_def cardColor_options_def)

lemma colouredType_of_name [simp]: "colouredType_of (colouredType_name t) = Some t"
  by (cases t) (simp_all add: colouredType_of_def twoCardTypes_def)

lemma colorSwitchingScs_of_name [simp]:
  "colorSwitchingScs_of (colorSwitchingScs_name t) = Some t"
  by (cases t) (simp_all add: colorSwitchingScs_of_def)

lemma colouredType_of_switching [simp]:
  "colouredType_of (colorSwitchingScs_name t) = None"
  by (cases t) (simp_all add: colouredType_of_def twoCardTypes_def)

lemma card_parse_toJSON [simp]: "card_parse (card_toJSON c) = Some c"
  by (cases c) (simp_all add: card_parse_def str_member_def member_def)

lemma those_map_roundtrip:
  "(\<And>x. parse (write x) = Some x) \<Longrightarrow> those (map (parse \<circ> write) xs) = Some xs"
  by (induction xs) simp_all

lemma cards_parse_toJSON [simp]: "cards_parse (cards_toJSON cs) = Some cs"
  by (simp add: cards_parse_def cards_toJSON_def those_map_roundtrip)

lemma gameEvent_parse_toJSON [simp]: "gameEvent_parse (gameEvent_toJSON g) = Some g"
  by (cases g) (simp_all add: gameEvent_parse_def str_member_def member_def)

lemma info_parse_toJSON [simp]: "info_parse (info_toJSON i) = Some i"
  by (cases i) (simp_all add: info_parse_def str_member_def num_member_def member_def)

lemma event_parse_toJSON [simp]: "event_parse (event_toJSON ev) = Some ev"
proof (cases ev)
  case (GameEv g)
  then show ?thesis
    by (cases g) (simp_all add: event_parse_def gameEvent_parse_def str_member_def member_def)
next
  case (GameInfo i)
  then show ?thesis
    by (simp add: event_parse_def str_member_def member_def)
qed

lemma cardOrColor_parse_toJSON [simp]: "cardOrColor_parse (cardOrColor_toJSON x) = Some x"
proof (cases x)
  case (IsCard c)
  then show ?thesis by (cases c) (simp_all add: cardOrColor_parse_def card_parse_def str_member_def member_def)
next
  case (IsColor c)
  then show ?thesis by (simp add: cardOrColor_parse_def)
qed

lemma string_parse_JString [simp]: "string_parse (JString str) = Some str"
  by (simp add: string_parse_def)


lemma turnStep_parse_stepVal [simp]: "turnStep_parse (stepVal t) = Some t"
  by (cases t) (simp_all add: turnStep_parse_def)






lemma stateInv_updates [simp]:
  "stateInv (s\<lparr>deck := d\<rparr>) = stateInv s"
  "stateInv (s\<lparr>seed := sd\<rparr>) = stateInv s"
  "stateInv (s\<lparr>pile := pl\<rparr>) = stateInv s"
  "stateInv (s\<lparr>index := i\<rparr>) = stateInv s"
  "stateInv (s\<lparr>players := ps\<rparr>) = stateInv s"
  "stateInv (s\<lparr>ended := en\<rparr>) = stateInv s"
  "stateInv (s\<lparr>stackedPlusTwos := n\<rparr>) = stateInv s"
  "stateInv (s\<lparr>turnStep := t\<rparr>) = stateInv s"
  "stateInv (s\<lparr>last3CardPlayOrColorChanges := l\<rparr>) = stateInv s"
  "stateInv (advanceTurn m s) = stateInv s"
  "stateInv (pushLast3 x s) = stateInv s"
  by (simp_all add: stateInv_def advanceTurn_def pushLast3_def Let_def)





lemma stateInv_init: "stateInv s \<Longrightarrow> hands s = [] \<Longrightarrow> stateInv (init s)"
  by (simp add: stateInv_def init_def Let_def split: option.split prod.split)


















lemma drawCards_length: "drawCards n s = (Inr cs, s') \<Longrightarrow> length cs = n"
proof (induction n arbitrary: s cs s')
  case 0
  then show ?case by simp
next
  case (Suc n)
  obtain r s1 where d: "deckTopCard s = (r, s1)" by (cases "deckTopCard s")
  show ?case
  proof (cases r)
    case (Inl e)
    then show ?thesis using Suc.prems d by simp
  next
    case (Inr c)
    obtain r2 s2 where d2: "drawCards n s1 = (r2, s2)" by (cases "drawCards n s1")
    show ?thesis
    proof (cases r2)
      case (Inl e)
      then show ?thesis using Suc.prems d d2 \<open>r = Inr c\<close> by simp
    next
      case (Inr cs2)
      then have "length cs2 = n" using Suc.IH [of s1 cs2 s2] d2 by simp
      then show ?thesis using Suc.prems d d2 \<open>r = Inr c\<close> Inr by auto
    qed
  qed
qed

lemma grown_refl [simp]: "grown m m"
  by (simp add: grown_def)

lemma grown_trans: "grown m m1 \<Longrightarrow> grown m1 m2 \<Longrightarrow> grown m m2"
proof -
  assume a: "grown m m1" and b: "grown m1 m2"
  have "take (length (m_store m)) (m_store m2)
        = take (length (m_store m)) (take (length (m_store m1)) (m_store m2))"
    using a by (simp add: grown_def min_def)
  also have "\<dots> = take (length (m_store m)) (m_store m1)"
    using b by (simp only: grown_def)
  also have "\<dots> = m_store m"
    using a by (simp only: grown_def)
  finally show ?thesis using a b by (simp add: grown_def)
qed

lemma grown_deref:
  "grown m m' \<Longrightarrow> r < length (m_store m) \<Longrightarrow> deref (m_store m') r = deref (m_store m) r"
proof -
  assume g: "grown m m'" and r: "r < length (m_store m)"
  have "m_store m' ! r = take (length (m_store m)) (m_store m') ! r"
    using r by simp
  also have "\<dots> = m_store m ! r"
    using g by (simp only: grown_def)
  finally show ?thesis using g r by (simp add: grown_def deref_def)
qed

lemma grown_length: "grown m m' \<Longrightarrow> length (m_store m) \<le> length (m_store m')"
  by (simp add: grown_def)

lemma grown_state: "grown m m' \<Longrightarrow> m_state m' = m_state m"
  by (simp add: grown_def)

lemma alloc_grown: "grown m (snd (alloc a m))"
  by (simp add: grown_def alloc_def)

lemma alloc_fst: "fst (alloc a m) = length (m_store m)"
  by (simp add: alloc_def)

lemma alloc_deref: "deref (m_store (snd (alloc a m))) (length (m_store m)) = a"
  by (simp add: alloc_def deref_def)

lemma alloc_length: "length (m_store (snd (alloc a m))) = Suc (length (m_store m))"
  by (simp add: alloc_def)

lemma alloc_cases:
  obtains m' where "alloc a m = (length (m_store m), m')" "grown m m'"
    "deref (m_store m') (length (m_store m)) = a"
    "length (m_store m') = Suc (length (m_store m))"
  using alloc_grown [of m a] alloc_deref [of a m] alloc_length [of a m]
  by (cases "alloc a m") (simp add: alloc_def)

lemma array_reverse_grown:
  "grown m0 m \<Longrightarrow> length (m_store m0) \<le> r \<Longrightarrow> grown m0 (snd (array_reverse r m))"
  by (simp add: grown_def array_reverse_def)

lemma array_reverse_deref:
  "r < length (m_store m) \<Longrightarrow>
   deref (m_store (snd (array_reverse r m))) r = reversed (deref (m_store m) r)"
  by (simp add: array_reverse_def deref_def)

lemma wellFormed_iff:
  "wellFormed m \<longleftrightarrow>
     r_events (m_state m) < length (m_store m)
   \<and> r_players (m_state m) < length (m_store m)
   \<and> r_deck (m_state m) < length (m_store m)
   \<and> r_pile (m_state m) < length (m_store m)
   \<and> r_last3CardPlayOrColorChanges (m_state m) < length (m_store m)
   \<and> (\<forall>kv \<in> set (r_hands (m_state m)). snd kv < length (m_store m))"
  by (auto simp: wellFormed_def refsOf_def list_all_iff)

lemma grown_wellFormed: "grown m m' \<Longrightarrow> wellFormed m \<Longrightarrow> wellFormed m'"
  by (fastforce simp: wellFormed_iff grown_def)

lemma grown_view:
  assumes "grown m m'" and "wellFormed m"
  shows "view m' = view m"
proof -
  have d: "deref (m_store m') r = deref (m_store m) r" if "r < length (m_store m)" for r
    using grown_deref [OF assms(1) that] .
  have h: "map (\<lambda>kv. (fst kv, cardsOf (deref (m_store m') (snd kv)))) (r_hands (m_state m))
         = map (\<lambda>kv. (fst kv, cardsOf (deref (m_store m) (snd kv)))) (r_hands (m_state m))"
    using assms(2) d by (simp add: wellFormed_iff)
  show ?thesis
    using assms h d by (simp add: view_def Let_def wellFormed_iff grown_state)
qed

lemma cloneEntries_grown: "grown m (snd (cloneEntries kvs m))"
proof (induction kvs arbitrary: m)
  case Nil
  show ?case by simp
next
  case (Cons kv kvs)
  obtain m1 where a: "cloneArray (snd kv) m = (length (m_store m), m1)" and g: "grown m m1"
    unfolding cloneArray_def by (rule alloc_cases)
  show ?case
    using a grown_trans [OF g Cons.IH [of m1]] by (cases "cloneEntries kvs m1") simp
qed

lemma state_get_cases:
  obtains c m' where "state_get m = (c, m')" "grown m m'"
    "eventsOf (deref (m_store m') (r_events c)) = eventsOf (deref (m_store m) (r_events (m_state m)))"
proof -
  let ?st = "m_state m"
  obtain m1 where a1: "cloneArray (r_events ?st) m = (length (m_store m), m1)" and g1: "grown m m1"
    and d1: "deref (m_store m1) (length (m_store m)) = deref (m_store m) (r_events ?st)"
    and l1: "length (m_store m1) = Suc (length (m_store m))"
    unfolding cloneArray_def by (rule alloc_cases)
  obtain m2 where a2: "cloneArray (r_players ?st) m1 = (length (m_store m1), m2)" and g2: "grown m1 m2"
    unfolding cloneArray_def by (rule alloc_cases)
  obtain hs m3 where a3: "cloneEntries (r_hands ?st) m2 = (hs, m3)"
    by (cases "cloneEntries (r_hands ?st) m2")
  have g3: "grown m2 m3" using cloneEntries_grown [of m2 "r_hands ?st"] a3 by simp
  obtain m4 where a4: "cloneArray (r_deck ?st) m3 = (length (m_store m3), m4)" and g4: "grown m3 m4"
    unfolding cloneArray_def by (rule alloc_cases)
  obtain m5 where a5: "cloneArray (r_pile ?st) m4 = (length (m_store m4), m5)" and g5: "grown m4 m5"
    unfolding cloneArray_def by (rule alloc_cases)
  obtain m6 where a6: "cloneArray (r_last3CardPlayOrColorChanges ?st) m5 = (length (m_store m5), m6)"
    and g6: "grown m5 m6"
    unfolding cloneArray_def by (rule alloc_cases)
  have g16: "grown m1 m6"
    using g2 g3 g4 g5 g6 grown_trans by blast
  have sg: "state_get m =
        (?st\<lparr>r_events := length (m_store m), r_players := length (m_store m1), r_hands := hs,
              r_deck := length (m_store m3), r_pile := length (m_store m4),
              r_last3CardPlayOrColorChanges := length (m_store m5)\<rparr>, m6)"
    by (simp add: state_get_def Let_def a1 a2 a3 a4 a5 a6)
  have "deref (m_store m6) (length (m_store m)) = deref (m_store m) (r_events ?st)"
    using grown_deref [OF g16, of "length (m_store m)"] l1 d1 by simp
  then show ?thesis
    using that [OF sg grown_trans [OF g1 g16]] by simp
qed

lemma nonInfoEvents_m_cases:
  obtains r m' where "nonInfoEvents_m m = (r, m')" "grown m m'"
    "length (m_store m) \<le> r" "r < length (m_store m')"
    "movesOf (deref (m_store m') r) = nonInfoEvents (view m)"
proof -
  obtain c m1 where sg: "state_get m = (c, m1)" and g1: "grown m m1"
    and e: "eventsOf (deref (m_store m1) (r_events c))
            = eventsOf (deref (m_store m) (r_events (m_state m)))"
    by (rule state_get_cases)
  obtain m2 where a: "alloc (MoveArray (gameEvents (eventsOf (deref (m_store m1) (r_events c))))) m1
                      = (length (m_store m1), m2)"
    and g2: "grown m1 m2"
    and d: "deref (m_store m2) (length (m_store m1))
            = MoveArray (gameEvents (eventsOf (deref (m_store m1) (r_events c))))"
    and l: "length (m_store m2) = Suc (length (m_store m1))"
    by (rule alloc_cases)
  have "nonInfoEvents_m m = (length (m_store m1), m2)"
    by (simp add: nonInfoEvents_m_def sg a)
  moreover have "movesOf (deref (m_store m2) (length (m_store m1))) = nonInfoEvents (view m)"
    by (simp add: d e nonInfoEvents_def view_def Let_def)
  ultimately show ?thesis
    using that grown_trans [OF g1 g2] grown_length [OF g1] l by simp
qed

lemma movesOf_sliced: "movesOf (sliced a b x) = js_slice a b (movesOf x)"
  by (cases x) (simp_all add: js_slice_def)

lemma movesOf_reversed: "movesOf (reversed x) = rev (movesOf x)"
  by (cases x) simp_all

lemma lastTwoNonInfoEvents_m_cases:
  obtains r m' where "lastTwoNonInfoEvents_m ign m = (r, m')" "grown m m'"
    "movesOf (deref (m_store m') r) = lastTwoNonInfoEvents ign (view m)"
proof -
  let ?start = "- 2 + (case ign of None \<Rightarrow> 0 | Some n \<Rightarrow> n)"
  obtain r1 m1 where n: "nonInfoEvents_m m = (r1, m1)" and g1: "grown m m1"
    and lo: "length (m_store m) \<le> r1" and hi: "r1 < length (m_store m1)"
    and v: "movesOf (deref (m_store m1) r1) = nonInfoEvents (view m)"
    by (rule nonInfoEvents_m_cases)
  obtain m2 where a: "array_slice ?start ign r1 m1 = (length (m_store m1), m2)"
    and g2: "grown m1 m2"
    and d: "deref (m_store m2) (length (m_store m1)) = sliced ?start ign (deref (m_store m1) r1)"
    and l: "length (m_store m2) = Suc (length (m_store m1))"
    unfolding array_slice_def by (rule alloc_cases)
  let ?r2 = "length (m_store m1)"
  obtain m3 where rv: "array_reverse ?r2 m2 = (?r2, m3)"
    by (simp add: array_reverse_def)
  have g12: "grown m m2" by (rule grown_trans [OF g1 g2])
  have g3: "grown m m3"
    using array_reverse_grown [OF g12, of ?r2] grown_length [OF g1] rv by simp
  have "deref (m_store m3) ?r2 = reversed (deref (m_store m2) ?r2)"
    using array_reverse_deref [of ?r2 m2] l rv by simp
  then have "movesOf (deref (m_store m3) ?r2) = lastTwoNonInfoEvents ign (view m)"
    by (simp add: d movesOf_reversed movesOf_sliced v lastTwoNonInfoEvents_def)
  moreover have "lastTwoNonInfoEvents_m ign m = (?r2, m3)"
    using a rv by (simp add: lastTwoNonInfoEvents_m_def n)
  ultimately show ?thesis using that g3 by simp
qed

lemma activePlayer_m_cases:
  obtains m' where "activePlayer_m m = (activePlayer (view m), m')" "grown m m'"
proof -
  obtain m1 where a1: "alloc (EntryArray (r_hands (m_state m))) m = (length (m_store m), m1)"
    and g1: "grown m m1"
    and d1: "deref (m_store m1) (length (m_store m)) = EntryArray (r_hands (m_state m))"
    by (rule alloc_cases)
  obtain m2 where a2: "alloc (EntryArray (r_hands (m_state m))) m1 = (length (m_store m1), m2)"
    and g2: "grown m1 m2"
    and d2: "deref (m_store m2) (length (m_store m1)) = EntryArray (r_hands (m_state m))"
    by (rule alloc_cases)
  obtain m3 where a3: "alloc (IdArray (map fst (r_hands (m_state m)))) m2
                       = (length (m_store m2), m3)"
    and g3: "grown m2 m3"
    and d3: "deref (m_store m3) (length (m_store m2)) = IdArray (map fst (r_hands (m_state m)))"
    by (rule alloc_cases)
  have g: "grown m m3" using g1 g2 g3 grown_trans by blast
  have ids: "idsOf (deref (m_store m3) (length (m_store m2))) = map fst (r_hands (m_state m))"
    by (simp add: d3)
  have "map fst (hands (view m)) = map fst (r_hands (m_state m))"
    by (simp add: view_def comp_def Let_def)
  moreover have "index (view m) = r_index (m_state m)"
    by (simp add: view_def Let_def)
  ultimately have "activePlayer_m m = (activePlayer (view m), m3)"
    using grown_state [OF g]
    by (simp add: activePlayer_m_def a1 d1 a2 d2 a3 ids activePlayer_def Let_def)
  then show ?thesis using that g by simp
qed

lemma find_map_entries:
  "find (\<lambda>kv. snd kv \<noteq> []) (map (\<lambda>kv. (fst kv, f (snd kv))) xs)
   = map_option (\<lambda>kv. (fst kv, f (snd kv))) (find (\<lambda>kv. f (snd kv) \<noteq> []) xs)"
  by (induction xs) simp_all

lemma hasEnded_m_cases:
  assumes "wellFormed m"
  obtains m' where "hasEnded_m m = (hasEnded (view m), m')" "grown m m'"
proof (cases "r_ended (m_state m)")
  case False
  then have "hasEnded_m m = (hasEnded (view m), m)"
    by (simp add: hasEnded_m_def hasEnded_def view_def Let_def)
  then show ?thesis using that by simp
next
  case True
  obtain m1 where a1: "alloc (EntryArray (r_hands (m_state m))) m = (length (m_store m), m1)"
    and g1: "grown m m1"
    and d1: "deref (m_store m1) (length (m_store m)) = EntryArray (r_hands (m_state m))"
    by (rule alloc_cases)
  have "find (\<lambda>kv. cardsOf (deref (m_store m1) (snd kv)) \<noteq> []) (r_hands (m_state m))
      = find (\<lambda>kv. cardsOf (deref (m_store m) (snd kv)) \<noteq> []) (r_hands (m_state m))"
    using assms grown_deref [OF g1] by (intro find_cong) (auto simp: wellFormed_iff)
  then have "hasEnded_m m = (hasEnded (view m), m1)"
    using True
    by (simp add: hasEnded_m_def hasEnded_def a1 d1 view_def Let_def
        find_map_entries [of "\<lambda>r. cardsOf (deref (m_store m) r)"] split: option.split)
  then show ?thesis using that g1 by simp
qed

lemma expectedCard_m_eq: "expectedCard_m b m = (expectedCard b (view m), m)"
  by (simp add: expectedCard_m_def expectedCard_def view_def Let_def)

lemma map_of_map_snd:
  "map_of (map (\<lambda>kv. (fst kv, f (snd kv))) xs) p = map_option f (map_of xs p)"
  by (induction xs) auto

lemma map_of_view_hands:
  "map_of (hands (view m)) p
   = map_option (\<lambda>r. cardsOf (deref (m_store m) r)) (map_of (r_hands (m_state m)) p)"
  using map_of_map_snd [of "\<lambda>r. cardsOf (deref (m_store m) r)" "r_hands (m_state m)" p]
  by (simp add: view_def Let_def)

lemma kindCheck_m_CardPlayed:
  "kindCheck_m (CardPlayed p c) b m le = (kindCheck (CardPlayed p c) b (view m) le, m)"
proof -
  have h: "(if isColorSwitching (card_type c)
            then (case handOf_m p m of
                    (Inl e, m1) \<Rightarrow> (Inl e, m1)
                  | (Inr hand, m1) \<Rightarrow>
                      (Inr (length (cardsOf (deref (m_store m1) hand)) = 1), m1))
            else (Inr False, m))
         = (if isColorSwitching (card_type c)
            then map_sum id (\<lambda>hand. length hand = 1) (handOf p (view m))
            else Inr False, m)"
    by (simp add: handOf_m_def handOf_def map_of_view_hands split: option.split)
  show ?thesis
    unfolding kindCheck_m.simps kindCheck.simps h
    by (simp add: expectedCard_m_eq split: sum.split bool.split prod.split)
qed

lemma kindCheck_m_sound:
  "grown m (snd (kindCheck_m ev b m le))
   \<and> fst (kindCheck_m ev b m le) = kindCheck ev b (view m) le"
proof (cases ev)
  case (CardPlayed p c)
  show ?thesis unfolding CardPlayed kindCheck_m_CardPlayed by simp
next
  case (BluffCalled p)
  obtain r m' where l: "lastTwoNonInfoEvents_m None m = (r, m')" and g: "grown m m'"
    and v: "movesOf (deref (m_store m') r) = lastTwoNonInfoEvents None (view m)"
    by (rule lastTwoNonInfoEvents_m_cases)
  show ?thesis
    using BluffCalled g by (simp add: l v split: list.split)
next
  case (ChooseColor p col)
  then show ?thesis by (simp split: gameEvent.split)
next
  case (Draw p)
  then show ?thesis by simp
next
  case (Pass p)
  then show ?thesis by simp
qed

lemma hasEnded_m_grown: "grown m (snd (hasEnded_m m))"
proof (cases "r_ended (m_state m)")
  case False
  then show ?thesis by (simp add: hasEnded_m_def)
next
  case True
  obtain m1 where a1: "alloc (EntryArray (r_hands (m_state m))) m = (length (m_store m), m1)"
    and g1: "grown m m1"
    by (rule alloc_cases)
  show ?thesis using True g1 by (simp add: hasEnded_m_def a1 split: option.split)
qed

lemma checkEvent_m_sound:
  "grown m (snd (checkEvent_m ev b m))
   \<and> (wellFormed m \<longrightarrow> fst (checkEvent_m ev b m) = checkEvent ev b (view m))"
proof -
  have pl: "idsOf (deref (m_store m) (r_players (m_state m))) = players (view m)"
    by (simp add: view_def Let_def)
  obtain active m1 where a: "(if b then (None, m) else activePlayer_m m) = (active, m1)"
    and g1: "grown m m1" and av: "\<not> b \<Longrightarrow> active = activePlayer (view m)"
  proof (cases b)
    case True
    then show ?thesis using that [of None m] by simp
  next
    case False
    obtain m' where "activePlayer_m m = (activePlayer (view m), m')" "grown m m'"
      by (rule activePlayer_m_cases)
    then show ?thesis using that [of "activePlayer (view m)" m'] False by simp
  qed
  obtain he m2 where h: "hasEnded_m m1 = (he, m2)" by (cases "hasEnded_m m1")
  have g2: "grown m m2" using grown_trans [OF g1 hasEnded_m_grown [of m1]] h by simp
  let ?ign = "if b then Some (- 3) else None"
  obtain r m3 where l: "lastTwoNonInfoEvents_m ?ign m2 = (r, m3)" and g23: "grown m2 m3"
    and lv: "movesOf (deref (m_store m3) r) = lastTwoNonInfoEvents ?ign (view m2)"
    by (rule lastTwoNonInfoEvents_m_cases)
  have g3: "grown m m3" by (rule grown_trans [OF g2 g23])
  have gk: "grown m (snd (kindCheck_m ev b' m3 le))" for le b'
    using grown_trans [OF g3] kindCheck_m_sound [of m3 ev b' le] by blast
  have frame: "grown m (snd (checkEvent_m ev b m))"
    unfolding checkEvent_m_def Let_def a prod.case h l
    using g1 g2 g3 gk
    by (simp split: sum.split option.split list.split)
  have val: "fst (checkEvent_m ev b m) = checkEvent ev b (view m)" if wf: "wellFormed m"
  proof -
    have w1: "wellFormed m1" and v1: "view m1 = view m"
      using grown_wellFormed [OF g1 wf] grown_view [OF g1 wf] by simp_all
    have v2: "view m2 = view m" using grown_view [OF g2 wf] .
    have v3: "view m3 = view m" using grown_view [OF g3 wf] .
    have hv: "he = hasEnded (view m)"
      using hasEnded_m_cases [OF w1] h v1 by (metis fst_conv)
    have kv: "fst (kindCheck_m ev b' m3 le) = kindCheck ev b' (view m) le" for le b'
      using kindCheck_m_sound [of m3 ev b' le] v3 by simp
    show ?thesis
      unfolding checkEvent_m_def checkEvent_def Let_def a pl prod.case h l
      using av
      by (simp add: lv v2 hv [symmetric] kv split: sum.split option.split list.split)
  qed
  show ?thesis using frame val by blast
qed

lemma validEvents_filter_grown: "grown m (snd (validEvents_filter n k r m))"
proof (induction n arbitrary: k m)
  case 0
  show ?case by simp
next
  case (Suc n)
  obtain res m1 where c: "checkEvent_m (movesOf (deref (m_store m) r) ! k) False m = (res, m1)"
    by (cases "checkEvent_m (movesOf (deref (m_store m) r) ! k) False m")
  have g1: "grown m m1" using checkEvent_m_sound [of m "movesOf (deref (m_store m) r) ! k" False] c by simp
  obtain fr m2 where f: "validEvents_filter n (Suc k) r m1 = (fr, m2)"
    by (cases "validEvents_filter n (Suc k) r m1")
  have g2: "grown m m2"
    using grown_trans [OF g1 Suc.IH [of m1 "Suc k"]] f by simp
  show ?case
    using g1 g2 Suc.IH [of m "Suc k"]
    by (simp add: Let_def c f split: sum.split)
qed

lemma validEvents_filter_value:
  assumes "wellFormed m" and "movesOf (deref (m_store m) r) = xs" and "r < length (m_store m)"
    and "k + n = length xs"
  shows "fst (validEvents_filter n k r m) = filterValid (drop k xs) (view m)"
  using assms
proof (induction n arbitrary: k m)
  case 0
  then show ?case by simp
next
  case (Suc n)
  have k: "k < length xs" using Suc.prems(4) by simp
  obtain res m1 where c: "checkEvent_m (xs ! k) False m = (res, m1)"
    by (cases "checkEvent_m (xs ! k) False m")
  have g1: "grown m m1" and rv: "res = checkEvent (xs ! k) False (view m)"
    using checkEvent_m_sound [of m "xs ! k" False] c Suc.prems(1) by simp_all
  have w1: "wellFormed m1" and v1: "view m1 = view m"
    using grown_wellFormed [OF g1 Suc.prems(1)] grown_view [OF g1 Suc.prems(1)] by simp_all
  have x1: "movesOf (deref (m_store m1) r) = xs"
    using grown_deref [OF g1 Suc.prems(3)] Suc.prems(2) by simp
  have r1: "r < length (m_store m1)"
    using grown_length [OF g1] Suc.prems(3) by simp
  obtain fr m2 where f: "validEvents_filter n (Suc k) r m1 = (fr, m2)"
    by (cases "validEvents_filter n (Suc k) r m1")
  have ih: "fr = filterValid (drop (Suc k) xs) (view m)"
    using Suc.IH [OF w1 x1 r1, of "Suc k"] Suc.prems(4) v1 f by simp
  have d: "drop k xs = xs ! k # drop (Suc k) xs"
    using k by (simp add: Cons_nth_drop_Suc)
  show ?case
    unfolding d
    using k ih [symmetric] rv [symmetric]
    by (simp add: Let_def Suc.prems(2) c f split: sum.split)
qed

lemma bluffProbe_some_grown: "grown m (snd (bluffProbe_some n k r m))"
proof (induction n arbitrary: k m)
  case 0
  show ?case by simp
next
  case (Suc n)
  let ?e = "CardPlayed ENGINE_ID (cardsOf (deref (m_store m) r) ! k)"
  obtain res m1 where c: "checkEvent_m ?e True m = (res, m1)"
    by (cases "checkEvent_m ?e True m")
  have g1: "grown m m1" using checkEvent_m_sound [of m ?e True] c by simp
  have g2: "grown m (snd (bluffProbe_some n (Suc k) r m1))"
    by (rule grown_trans [OF g1 Suc.IH])
  show ?case
    using g1 g2 Suc.IH [of m "Suc k"]
    by (simp add: Let_def c split: sum.split option.split)
qed

lemma bluffProbe_some_value:
  assumes "wellFormed m" and "cardsOf (deref (m_store m) r) = cs" and "r < length (m_store m)"
    and "k + n = length cs"
  shows "fst (bluffProbe_some n k r m) = bluffProbe (drop k cs) (view m)"
  using assms
proof (induction n arbitrary: k m)
  case 0
  then show ?case by simp
next
  case (Suc n)
  have k: "k < length cs" using Suc.prems(4) by simp
  let ?e = "CardPlayed ENGINE_ID (cs ! k)"
  obtain res m1 where c: "checkEvent_m ?e True m = (res, m1)"
    by (cases "checkEvent_m ?e True m")
  have g1: "grown m m1" and rv: "res = checkEvent ?e True (view m)"
    using checkEvent_m_sound [of m ?e True] c Suc.prems(1) by simp_all
  have w1: "wellFormed m1" and v1: "view m1 = view m"
    using grown_wellFormed [OF g1 Suc.prems(1)] grown_view [OF g1 Suc.prems(1)] by simp_all
  have x1: "cardsOf (deref (m_store m1) r) = cs"
    using grown_deref [OF g1 Suc.prems(3)] Suc.prems(2) by simp
  have r1: "r < length (m_store m1)"
    using grown_length [OF g1] Suc.prems(3) by simp
  have ih: "fst (bluffProbe_some n (Suc k) r m1) = bluffProbe (drop (Suc k) cs) (view m)"
    using Suc.IH [OF w1 x1 r1, of "Suc k"] Suc.prems(4) v1 by simp
  have d: "drop k cs = cs ! k # drop (Suc k) cs"
    using k by (simp add: Cons_nth_drop_Suc)
  show ?case
    unfolding d
    using k ih rv [symmetric]
    by (simp add: Let_def Suc.prems(2) c split: sum.split option.split)
qed

lemma bluffProbe_m_sound:
  "grown m (snd (bluffProbe_m hand m))
   \<and> (wellFormed m \<longrightarrow>
        fst (bluffProbe_m hand m)
        = bluffProbe (filter (\<lambda>c. \<not> isColorSwitching (card_type c))
                        (cardsOf (deref (m_store m) hand))) (view m))"
proof -
  let ?cs = "filter (\<lambda>c. \<not> isColorSwitching (card_type c)) (cardsOf (deref (m_store m) hand))"
  obtain m1 where a: "alloc (CardArray ?cs) m = (length (m_store m), m1)" and g1: "grown m m1"
    and d: "deref (m_store m1) (length (m_store m)) = CardArray ?cs"
    and l: "length (m_store m1) = Suc (length (m_store m))"
    by (rule alloc_cases)
  have e: "bluffProbe_m hand m = bluffProbe_some (length ?cs) 0 (length (m_store m)) m1"
    by (simp add: bluffProbe_m_def a d)
  have frame: "grown m (snd (bluffProbe_m hand m))"
    unfolding e by (rule grown_trans [OF g1 bluffProbe_some_grown])
  have "fst (bluffProbe_m hand m) = bluffProbe ?cs (view m)" if wf: "wellFormed m"
    unfolding e
    using bluffProbe_some_value [OF grown_wellFormed [OF g1 wf], of "length (m_store m)" ?cs 0 "length ?cs"]
      grown_view [OF g1 wf] d l
    by simp
  then show ?thesis using frame by blast
qed

lemma validEvents_m_sound:
  "grown m (snd (validEvents_m p m))
   \<and> (wellFormed m \<longrightarrow>
        (case fst (validEvents_m p m) of
           Inl e \<Rightarrow> Inl e
         | Inr r \<Rightarrow> Inr (movesOf (deref (m_store (snd (validEvents_m p m))) r)))
        = validEvents p (view m))"
proof (cases "map_of (r_hands (m_state m)) p")
  case None
  then show ?thesis
    by (simp add: validEvents_m_def handOf_m_def validEvents_def handOf_def map_of_view_hands)
next
  case (Some hand)
  let ?cs = "cardsOf (deref (m_store m) hand)"
  let ?all = "[Draw p, BluffCalled p, Pass p, ChooseColor p Red] @ map (CardPlayed p) ?cs"
  obtain m2 where a1: "alloc (MoveArray (map (CardPlayed p) ?cs)) m = (length (m_store m), m2)"
    and g1: "grown m m2"
    and d1: "deref (m_store m2) (length (m_store m)) = MoveArray (map (CardPlayed p) ?cs)"
    by (rule alloc_cases)
  obtain m3 where a2: "alloc (MoveArray ?all) m2 = (length (m_store m2), m3)"
    and g2: "grown m2 m3"
    and d2: "deref (m_store m3) (length (m_store m2)) = MoveArray ?all"
    and l2: "length (m_store m3) = Suc (length (m_store m2))"
    by (rule alloc_cases)
  have g3: "grown m m3" by (rule grown_trans [OF g1 g2])
  obtain fr m4 where f: "validEvents_filter (length ?all) 0 (length (m_store m2)) m3 = (fr, m4)"
    by (cases "validEvents_filter (length ?all) 0 (length (m_store m2)) m3")
  have g4: "grown m m4"
    using grown_trans [OF g3 validEvents_filter_grown [of m3 "length ?all" 0 "length (m_store m2)"]] f
    by simp
  have e: "validEvents_m p m =
           (case fr of
              Inl e \<Rightarrow> (Inl e, m4)
            | Inr vs \<Rightarrow> (case alloc (MoveArray vs) m4 of (r3, m5) \<Rightarrow> (Inr r3, m5)))"
    using f a2 d2
    by (simp add: validEvents_m_def handOf_m_def Some a1 d1 del: validEvents_filter.simps)
  have frame: "grown m (snd (validEvents_m p m))"
  proof (cases fr)
    case (Inl e1)
    then show ?thesis using e g4 by simp
  next
    case (Inr vs)
    obtain m5 where "alloc (MoveArray vs) m4 = (length (m_store m4), m5)" "grown m4 m5"
      by (rule alloc_cases)
    then show ?thesis using e Inr grown_trans [OF g4] by simp
  qed
  have "(case fst (validEvents_m p m) of
           Inl e \<Rightarrow> Inl e
         | Inr r \<Rightarrow> Inr (movesOf (deref (m_store (snd (validEvents_m p m))) r)))
        = validEvents p (view m)" if wf: "wellFormed m"
  proof -
    have fv: "fr = filterValid ?all (view m)"
      using validEvents_filter_value [OF grown_wellFormed [OF g3 wf], of "length (m_store m2)" ?all 0 "length ?all"]
        grown_view [OF g3 wf] d2 l2 f
      by simp
    have hv: "handOf p (view m) = Inr ?cs"
      by (simp add: handOf_def map_of_view_hands Some)
    show ?thesis
    proof (cases fr)
      case (Inl e1)
      then show ?thesis using e fv hv by (simp add: validEvents_def)
    next
      case (Inr vs)
      obtain m5 where "alloc (MoveArray vs) m4 = (length (m_store m4), m5)"
        "deref (m_store m5) (length (m_store m4)) = MoveArray vs"
        by (rule alloc_cases)
      then show ?thesis using e Inr fv hv by (simp add: validEvents_def)
    qed
  qed
  then show ?thesis using frame by blast
qed

lemma wellFormed_load: "wellFormed (load s)"
  by (auto simp: wellFormed_iff load_def dest!: set_zip_rightD)

lemma view_load: "view (load s) = s"
proof -
  let ?store = "m_store (load s)"
  have "map (\<lambda>kv. (fst kv, cardsOf (deref ?store (snd kv))))
          (zip (map fst (hands s)) [5 ..< 5 + length (hands s)]) = hands s"
    by (rule nth_equalityI) (simp_all add: load_def deref_def nth_append)
  then show ?thesis
    by (simp add: view_def load_def Let_def deref_def)
qed

text \<open>
  Claim C10. The validator has no side effect. Over the store of arrays, a call of
  \<^verbatim>\<open>checkEvent\<close>, for every event and either value of the bluff-site flag, leaves the
  state object as it was and every array that existed before the call with its contents:
  all it does to the store is to add the arrays that it makes for itself (the structured
  clone, the filtered and sliced copies, of which it reverses the last). The same holds
  for \<^verbatim>\<open>validEvents\<close> and for the probe that resolves a bluff call. Hence, on a
  well-formed machine, the game state after each of these calls is the game state before
  it, and the answers are those of the definitions by contents.
\<close>

theorem C10_checkEvent_frame:
  "grown m (snd (checkEvent_m event bluffSiteCheck m))
   \<and> grown m (snd (validEvents_m p m))
   \<and> grown m (snd (bluffProbe_m hand m))
   \<and> (wellFormed m \<longrightarrow>
        view (snd (checkEvent_m event bluffSiteCheck m)) = view m
      \<and> view (snd (validEvents_m p m)) = view m
      \<and> view (snd (bluffProbe_m hand m)) = view m
      \<and> fst (checkEvent_m event bluffSiteCheck m) = checkEvent event bluffSiteCheck (view m)
      \<and> (case fst (validEvents_m p m) of
           Inl e \<Rightarrow> Inl e
         | Inr r \<Rightarrow> Inr (movesOf (deref (m_store (snd (validEvents_m p m))) r)))
        = validEvents p (view m)
      \<and> fst (bluffProbe_m hand m)
        = bluffProbe (filter (\<lambda>c. \<not> isColorSwitching (card_type c))
                        (cardsOf (deref (m_store m) hand))) (view m))"
  using checkEvent_m_sound [of m event bluffSiteCheck] validEvents_m_sound [of m p]
    bluffProbe_m_sound [of m hand] grown_view
  by blast

text \<open>
  An instance of C10: the state \<open>redOneState\<close> laid out in a store, and the check of a
  draw by the player to move.
\<close>

theorem C10_witness:
  "wellFormed (load redOneState)
   \<and> fst (checkEvent_m (Draw ''a'') False (load redOneState)) = Inr None
   \<and> m_state (snd (checkEvent_m (Draw ''a'') False (load redOneState)))
       = m_state (load redOneState)
   \<and> take 7 (m_store (snd (checkEvent_m (Draw ''a'') False (load redOneState))))
       = m_store (load redOneState)
   \<and> view (snd (checkEvent_m (Draw ''a'') False (load redOneState))) = redOneState
   \<and> view (snd (validEvents_m ''a'' (load redOneState))) = redOneState
   \<and> view (snd (bluffProbe_m 5 (load redOneState))) = redOneState"
proof -
  have c: "checkEvent (Draw ''a'') False redOneState = Inr None"
    by (simp add: eval_defs redOneState_def)
  have l: "length (m_store (load redOneState)) = 7"
    by (simp add: load_def redOneState_def)
  show ?thesis
    using C10_checkEvent_frame [of "load redOneState" "Draw ''a''" False "''a''" 5]
      wellFormed_load [of redOneState] c l
    by (simp add: view_load grown_def)
qed

end
